theory Spec2Isabelle
  imports Main "HOL-Library.Word" "HOL-Library.Monad_Syntax"
begin

section \<open>Pointers, tokens, types and symbols\<close>

text \<open>
  A C++ pointer that may be null. Calling a member through a null pointer, and a failed
  \<open>assert\<close>, end the process: every function below that can do either returns an
  \<open>option\<close>, and \<open>None\<close> is the aborted run.
\<close>

datatype 'a ptr = NULL | Ptr 'a

fun deref :: "'a ptr \<Rightarrow> 'a option" where
  "deref NULL = None"
| "deref (Ptr x) = Some x"

datatype CToken = CToken string

definition emptyToken :: CToken where
  "emptyToken = CToken []"

text \<open>
  Modelled from the spec: the type manager (type.h) is not among the sources. Section 4.1:
  primitive types null, int, char and bool, pointer types and array types; \<open>IsArray\<close>,
  \<open>IsPointer\<close>, \<open>GetBaseType\<close>, \<open>GetInnerType\<close>, and \<open>Match\<close>, structural equality
  modulo array-length wildcards (an array length \<open>None\<close> is the wildcard). A null
  pointer names no type and matches nothing. Of \<open>IsScalar\<close> the spec says only that it
  rejects arrays. \<open>GetSize\<close> is taken as a parameter wherever the code calls it.
\<close>

datatype CType = CNullType | CIntType | CCharType | CBoolType
  | CPointerType "CType ptr"
  | CArrayType "int option" CType

fun IsArray :: "CType \<Rightarrow> bool" where
  "IsArray (CArrayType n t) = True"
| "IsArray t = False"

fun IsPointer :: "CType \<Rightarrow> bool" where
  "IsPointer (CPointerType b) = True"
| "IsPointer t = False"

definition IsScalar :: "CType \<Rightarrow> bool" where
  "IsScalar t = (\<not> IsArray t)"

fun Match :: "CType \<Rightarrow> CType ptr \<Rightarrow> bool" where
  "Match CNullType (Ptr CNullType) = True"
| "Match CIntType (Ptr CIntType) = True"
| "Match CCharType (Ptr CCharType) = True"
| "Match CBoolType (Ptr CBoolType) = True"
| "Match (CPointerType NULL) (Ptr (CPointerType b)) = (b = NULL)"
| "Match (CPointerType (Ptr a)) (Ptr (CPointerType b)) = Match a b"
| "Match (CArrayType n a) (Ptr (CArrayType m b)) =
     ((n = None \<or> m = None \<or> n = m) \<and> Match a (Ptr b))"
| "Match t u = False"

text \<open>
  Symbols (symtab.h is not among the sources): a name and a data type, which may be null;
  a procedure symbol has its return type and the data types of its parameters.
\<close>

datatype CSymbol = CSymbol (sym_name: string) (sym_type: "CType ptr")

datatype CSymProc = CSymProc (proc_name: string) (proc_type: "CType ptr")
  (proc_params: "CType ptr list")

definition GetNParams :: "CSymProc \<Rightarrow> nat" where
  "GetNParams p = length (proc_params p)"

section \<open>The abstract syntax tree\<close>

datatype EOperation = opAdd | opSub | opMul | opDiv | opAnd | opOr
  | opNeg | opPos | opNot
  | opEqual | opNotEqual | opLessThan | opLessEqual | opBiggerThan | opBiggerEqual
  | opAssign | opAddress | opDeref | opCast
  | opGoto | opCall | opReturn | opParam | opLabel | opNop

text \<open>
  Every node carries its token. An array designator has its symbol, its index list
  \<open>_idx\<close> and the flag \<open>_done\<close>; a constant its type and its \<open>long long\<close> value; a
  string constant its array type, its text and the global symbol made for it.
\<close>

datatype CAstExpression =
    CAstBinaryOp CToken EOperation CAstExpression CAstExpression
  | CAstUnaryOp CToken EOperation CAstExpression
  | CAstSpecialOp CToken EOperation CAstExpression "CType ptr"
  | CAstFunctionCall CToken CSymProc "CAstExpression list"
  | CAstDesignator CToken CSymbol
  | CAstArrayDesignator CToken CSymbol "CAstExpression list" bool
  | CAstConstant CToken "CType ptr" "64 word"
  | CAstStringConstant CToken CType string CSymbol

fun GetToken :: "CAstExpression \<Rightarrow> CToken" where
  "GetToken (CAstBinaryOp t oper l r) = t"
| "GetToken (CAstUnaryOp t oper e) = t"
| "GetToken (CAstSpecialOp t oper e ty) = t"
| "GetToken (CAstFunctionCall t symb args) = t"
| "GetToken (CAstDesignator t symb) = t"
| "GetToken (CAstArrayDesignator t symb idx done) = t"
| "GetToken (CAstConstant t ty v) = t"
| "GetToken (CAstStringConstant t ty s symb) = t"

subsection \<open>GetType\<close>

text \<open>
  The loop of \<open>CAstArrayDesignator::GetType\<close>: one array level is unwrapped per index;
  an index applied to a type that is no array gives null.
\<close>

fun unwrapIndices :: "nat \<Rightarrow> CType ptr \<Rightarrow> CType ptr option" where
  "unwrapIndices 0 ret = Some ret"
| "unwrapIndices (Suc n) ret =
     (case deref ret of
        None \<Rightarrow> None
      | Some (CArrayType m inner) \<Rightarrow> unwrapIndices n (Ptr inner)
      | Some t \<Rightarrow> Some NULL)"

fun GetType :: "CAstExpression \<Rightarrow> CType ptr option" where
  "GetType (CAstBinaryOp t oper l r) =
     (if oper \<in> {opAdd, opMul, opSub, opDiv} then Some (Ptr CIntType)
      else if oper \<in> {opAnd, opOr, opEqual, opNotEqual, opLessThan, opLessEqual,
                       opBiggerThan, opBiggerEqual} then Some (Ptr CBoolType)
      else Some NULL)"
| "GetType (CAstUnaryOp t oper e) =
     (if oper \<in> {opNeg, opPos} then Some (Ptr CIntType)
      else if oper = opNot then Some (Ptr CBoolType)
      else Some NULL)"
| "GetType (CAstSpecialOp t oper e ty) =
     (if oper = opAddress then
        (case GetType e of None \<Rightarrow> None | Some et \<Rightarrow> Some (Ptr (CPointerType et)))
      else if oper = opDeref then
        (case GetType e of
           None \<Rightarrow> None
         | Some (Ptr (CPointerType b)) \<Rightarrow> Some b
         | Some et \<Rightarrow> Some NULL)
      else if oper = opCast then Some ty
      else Some NULL)"
| "GetType (CAstFunctionCall t symb args) = Some (proc_type symb)"
| "GetType (CAstDesignator t symb) = Some (sym_type symb)"
| "GetType (CAstArrayDesignator t symb idx done) =
     (case deref (sym_type symb) of
        None \<Rightarrow> None
      | Some (CPointerType b) \<Rightarrow> unwrapIndices (length idx) b
      | Some ty \<Rightarrow> unwrapIndices (length idx) (Ptr ty))"
| "GetType (CAstConstant t ty v) = Some ty"
| "GetType (CAstStringConstant t ty s symb) = Some (Ptr ty)"

subsection \<open>TypeCheck of expressions\<close>

text \<open>
  The out-parameters \<open>CToken *t\<close> and \<open>string *msg\<close>: each is null, or points to a
  cell whose content is given. A check returns its verdict and the cells as it leaves them.
\<close>

type_synonym out = "CToken ptr \<times> string ptr"

fun assign_out :: "'a ptr \<Rightarrow> 'a \<Rightarrow> 'a ptr" where
  "assign_out NULL v = NULL"
| "assign_out (Ptr old) v = Ptr v"

definition report :: "CToken \<Rightarrow> string \<Rightarrow> out \<Rightarrow> (bool \<times> out) option" where
  "report tk m out = Some (False, (assign_out (fst out) tk, assign_out (snd out) m))"

definition MatchP :: "CType ptr \<Rightarrow> CType ptr \<Rightarrow> bool option" where
  "MatchP p q = (case deref p of None \<Rightarrow> None | Some t \<Rightarrow> Some (Match t q))"

fun checkParams :: "CToken \<Rightarrow> CType ptr list \<Rightarrow> CAstExpression list \<Rightarrow> out
    \<Rightarrow> (bool \<times> out) option" where
  "checkParams tk [] args out = Some (True, out)"
| "checkParams tk (p # ps) [] out = None"
| "checkParams tk (p # ps) (argument # args) out =
     (case p of
        NULL \<Rightarrow> report (GetToken argument) ''argument's type is invalid'' out
      | Ptr pt \<Rightarrow>
         (case GetType argument of
            None \<Rightarrow> None
          | Some at \<Rightarrow>
             if \<not> Match pt at
             then report tk ''argument's type does not match with the parameter'' out
             else checkParams tk ps args out))"

text \<open>
  The \<open>switch\<close> of \<open>CAstBinaryOp::TypeCheck\<close>, entered once both operands have
  type-checked and both types have been read.
\<close>

definition BinaryOp_switch :: "EOperation \<Rightarrow> CAstExpression \<Rightarrow> CAstExpression \<Rightarrow> CType ptr
    \<Rightarrow> CType ptr \<Rightarrow> out \<Rightarrow> (bool \<times> out) option" where
  "BinaryOp_switch oper l r leftType rightType out =
    (if oper \<in> {opAdd, opMul, opSub, opDiv} then
       (case MatchP leftType (Ptr CIntType) of
          None \<Rightarrow> None
        | Some False \<Rightarrow>
            report (GetToken l) ''expected integer type expression in left operand'' out
        | Some True \<Rightarrow>
       (case MatchP rightType (Ptr CIntType) of
          None \<Rightarrow> None
        | Some False \<Rightarrow>
            report (GetToken r) ''expected integer type expression in right operand'' out
        | Some True \<Rightarrow> Some (True, out)))
     else if oper \<in> {opAnd, opOr} then
       (case MatchP leftType (Ptr CBoolType) of
          None \<Rightarrow> None
        | Some False \<Rightarrow>
            report (GetToken l) ''expected boolean type expression in left operand'' out
        | Some True \<Rightarrow>
       (case MatchP rightType (Ptr CBoolType) of
          None \<Rightarrow> None
        | Some False \<Rightarrow>
            report (GetToken r) ''expected boolean type expression in right operand'' out
        | Some True \<Rightarrow> Some (True, out)))
     else if oper \<in> {opEqual, opNotEqual} then
       (case deref leftType of
          None \<Rightarrow> None
        | Some lt \<Rightarrow>
            if \<not> (Match lt (Ptr CBoolType) \<or> Match lt (Ptr CCharType)
                   \<or> Match lt (Ptr CIntType))
            then report (GetToken l)
              ''expected boolean or character or integer type expression in left operand'' out
            else
              (case MatchP rightType leftType of
                 None \<Rightarrow> None
               | Some False \<Rightarrow>
                   report (GetToken r) ''different type between right and left operand'' out
               | Some True \<Rightarrow> Some (True, out)))
     else if oper \<in> {opBiggerEqual, opBiggerThan, opLessEqual, opLessThan} then
       (case deref leftType of
          None \<Rightarrow> None
        | Some lt \<Rightarrow>
            if \<not> (Match lt (Ptr CCharType) \<or> Match lt (Ptr CIntType))
            then report (GetToken l)
              ''expected character or integer type expression in left operand'' out
            else
              (case MatchP rightType leftType of
                 None \<Rightarrow> None
               | Some False \<Rightarrow>
                   report (GetToken r) ''different type between right and left operand'' out
               | Some True \<Rightarrow> Some (True, out)))
     else Some (False, out))"

fun TypeCheck :: "CAstExpression \<Rightarrow> out \<Rightarrow> (bool \<times> out) option"
  and TypeCheck_args :: "CAstExpression list \<Rightarrow> out \<Rightarrow> (bool \<times> out) option"
  and TypeCheck_idx :: "CAstExpression list \<Rightarrow> out \<Rightarrow> (bool \<times> out) option"
where
  "TypeCheck (CAstBinaryOp t oper l r) out =
     (case TypeCheck l out of
        None \<Rightarrow> None
      | Some (False, o1) \<Rightarrow> Some (False, o1)
      | Some (True, o1) \<Rightarrow>
     (case TypeCheck r o1 of
        None \<Rightarrow> None
      | Some (False, o2) \<Rightarrow> Some (False, o2)
      | Some (True, o2) \<Rightarrow>
     (case (GetType l, GetType r) of
        (Some leftType, Some rightType) \<Rightarrow>
          BinaryOp_switch oper l r leftType rightType o2
      | other \<Rightarrow> None)))"
| "TypeCheck (CAstUnaryOp t oper e) out =
     (case TypeCheck e out of
        None \<Rightarrow> None
      | Some (False, o1) \<Rightarrow> Some (False, o1)
      | Some (True, o1) \<Rightarrow>
     (case GetType e of
        None \<Rightarrow> None
      | Some eType \<Rightarrow>
          if oper \<in> {opNeg, opPos} then
            (case MatchP eType (Ptr CIntType) of
               None \<Rightarrow> None
             | Some False \<Rightarrow>
                 report (GetToken e) ''expected integer type expression in the operand'' o1
             | Some True \<Rightarrow> Some (True, o1))
          else if oper = opNot then
            (case MatchP eType (Ptr CBoolType) of
               None \<Rightarrow> None
             | Some False \<Rightarrow>
                 report (GetToken e) ''expected boolean type expression in the operand'' o1
             | Some True \<Rightarrow> Some (True, o1))
          else Some (False, o1)))"
| "TypeCheck (CAstSpecialOp t oper e ty) out =
     (case TypeCheck e out of
        None \<Rightarrow> None
      | Some (False, o1) \<Rightarrow> Some (False, o1)
      | Some (True, o1) \<Rightarrow>
          if oper = opAddress then
            (case GetType e of
               None \<Rightarrow> None
             | Some et \<Rightarrow>
            (case deref et of
               None \<Rightarrow> None
             | Some ety \<Rightarrow>
                 if \<not> IsArray ety then report t ''opAddress is only used on array type'' o1
                 else Some (True, o1)))
          else if oper = opDeref then
            (case GetType e of
               None \<Rightarrow> None
             | Some et \<Rightarrow>
            (case deref et of
               None \<Rightarrow> None
             | Some ety \<Rightarrow>
                 if \<not> IsPointer ety then report t ''opDeref should be used on pointer type'' o1
                 else Some (True, o1)))
          else if oper = opCast then report t ''opCast is never used'' o1
          else Some (False, o1))"
| "TypeCheck (CAstFunctionCall t symProc args) out =
     (if GetNParams symProc \<noteq> length args
      then report t ''number of arguments does not match the number of parameters'' out
      else
        (case TypeCheck_args args out of
           None \<Rightarrow> None
         | Some (False, o1) \<Rightarrow> Some (False, o1)
         | Some (True, o1) \<Rightarrow> checkParams t (proc_params symProc) args o1))"
| "TypeCheck (CAstDesignator t symb) out =
     (if sym_type symb = NULL then report t ''Invalid Type for the symbol'' out
      else Some (True, out))"
| "TypeCheck (CAstArrayDesignator t symb idx done) out =
     (if \<not> done then None
      else
     (case deref (sym_type symb) of
        None \<Rightarrow> None
      | Some st \<Rightarrow>
     (case deref (case st of CPointerType b \<Rightarrow> b | other \<Rightarrow> Ptr st) of
        None \<Rightarrow> None
      | Some ret \<Rightarrow>
          if \<not> IsArray ret
          then report t ''symbol's type should be array or pointer of array'' out
          else
            (case TypeCheck_idx idx out of
               None \<Rightarrow> None
             | Some (False, o1) \<Rightarrow> Some (False, o1)
             | Some (True, o1) \<Rightarrow>
            (case GetType (CAstArrayDesignator t symb idx done) of
               None \<Rightarrow> None
             | Some NULL \<Rightarrow> report t ''Too many indices'' o1
             | Some (Ptr ty) \<Rightarrow>
                 if IsArray ty then report t ''Not enough indices'' o1
                 else Some (True, o1))))))"
| "TypeCheck (CAstConstant t ty v) out =
     (case deref ty of
        None \<Rightarrow> None
      | Some cty \<Rightarrow>
          if Match cty (Ptr CIntType) then
            (if sint v < - 2147483648 \<or> sint v > 2147483647
             then report t ''invalid value for integer type constant'' out
             else Some (True, out))
          else if Match cty (Ptr CCharType) then
            (if sint v < 0 \<or> sint v > 255
             then report t ''invalid value for character type constant'' out
             else Some (True, out))
          else if Match cty (Ptr CBoolType) then
            (if sint v \<noteq> 0 \<and> sint v \<noteq> 1
             then report t ''invalid value for boolean type constant'' out
             else Some (True, out))
          else report t ''invalid type for constant'' out)"
| "TypeCheck (CAstStringConstant t ty s symb) out = Some (True, out)"
| "TypeCheck_args [] out = Some (True, out)"
| "TypeCheck_args (it # rest) out =
     (case TypeCheck it out of
        None \<Rightarrow> None
      | Some (False, o1) \<Rightarrow> Some (False, o1)
      | Some (True, o1) \<Rightarrow> TypeCheck_args rest o1)"
| "TypeCheck_idx [] out = Some (True, out)"
| "TypeCheck_idx (it # rest) out =
     (case TypeCheck it out of
        None \<Rightarrow> None
      | Some (False, o1) \<Rightarrow> Some (False, o1)
      | Some (True, o1) \<Rightarrow>
     (case GetType it of
        None \<Rightarrow> None
      | Some ity \<Rightarrow>
     (case MatchP ity (Ptr CIntType) of
        None \<Rightarrow> None
      | Some False \<Rightarrow>
          report (GetToken it) ''index in array designator must be integer type'' o1
      | Some True \<Rightarrow> TypeCheck_idx rest o1)))"

subsection \<open>Statements and their TypeCheck\<close>

text \<open>
  A statement sequence, linked by \<open>_next\<close> in the code, is a list. A return statement
  points to its scope, of which it reads \<open>GetType()\<close>: the null type for a module
  (\<open>CAstNode::GetType\<close>), the data type of the procedure symbol for a procedure.
\<close>

datatype ScopeKind = Module | Procedure CSymProc

fun Scope_GetType :: "ScopeKind \<Rightarrow> CType ptr" where
  "Scope_GetType Module = Ptr CNullType"
| "Scope_GetType (Procedure symbol) = proc_type symbol"

datatype CAstStatement =
    CAstStatAssign CToken CAstExpression CAstExpression
  | CAstStatCall CToken CAstExpression
  | CAstStatReturn CToken ScopeKind "CAstExpression ptr"
  | CAstStatIf CToken CAstExpression "CAstStatement list" "CAstStatement list"
  | CAstStatWhile CToken CAstExpression "CAstStatement list"
  | CAstStatBreak CToken

fun Stat_TypeCheck :: "CAstStatement \<Rightarrow> out \<Rightarrow> (bool \<times> out) option"
  and Stat_TypeCheck_seq :: "CAstStatement list \<Rightarrow> out \<Rightarrow> (bool \<times> out) option"
where
  "Stat_TypeCheck (CAstStatAssign t lhs rhs) out =
     (case TypeCheck lhs out of
        None \<Rightarrow> None
      | Some (False, o1) \<Rightarrow> Some (False, o1)
      | Some (True, o1) \<Rightarrow>
     (case TypeCheck rhs o1 of
        None \<Rightarrow> None
      | Some (False, o2) \<Rightarrow> Some (False, o2)
      | Some (True, o2) \<Rightarrow>
     (case GetType lhs of
        None \<Rightarrow> None
      | Some lhsType \<Rightarrow>
     (case deref lhsType of
        None \<Rightarrow> None
      | Some lt \<Rightarrow>
          if \<not> IsScalar lt
          then report (GetToken rhs) ''left handside designator must be scalar type'' o2
          else
            (case GetType rhs of
               None \<Rightarrow> None
             | Some rhsType \<Rightarrow>
            (case MatchP rhsType lhsType of
               None \<Rightarrow> None
             | Some False \<Rightarrow> report (GetToken rhs)
                 ''right handside expression must be same type as left handside designator'' o2
             | Some True \<Rightarrow> Some (True, o2)))))))"
| "Stat_TypeCheck (CAstStatCall t call) out = TypeCheck call out"
| "Stat_TypeCheck (CAstStatReturn t scope e) out =
     (case deref (Scope_GetType scope) of
        None \<Rightarrow> None
      | Some st \<Rightarrow>
          if Match st (Ptr CNullType) then
            (case e of
               Ptr ex \<Rightarrow> report (GetToken ex) ''superfluous expression after return.'' out
             | NULL \<Rightarrow> Some (True, out))
          else
            (case e of
               NULL \<Rightarrow> report t ''expression expected after return.'' out
             | Ptr ex \<Rightarrow>
            (case TypeCheck ex out of
               None \<Rightarrow> None
             | Some (False, o1) \<Rightarrow> Some (False, o1)
             | Some (True, o1) \<Rightarrow>
            (case GetType ex of
               None \<Rightarrow> None
             | Some et \<Rightarrow>
                 if \<not> Match st et then report (GetToken ex) ''return type mismatch.'' o1
                 else Some (True, o1)))))"
| "Stat_TypeCheck (CAstStatIf t cond ifBody elseBody) out =
     (case TypeCheck cond out of
        None \<Rightarrow> None
      | Some (False, o1) \<Rightarrow> Some (False, o1)
      | Some (True, o1) \<Rightarrow>
     (case Stat_TypeCheck_seq ifBody o1 of
        None \<Rightarrow> None
      | Some (False, o2) \<Rightarrow> Some (False, o2)
      | Some (True, o2) \<Rightarrow>
     (case (case elseBody of [] \<Rightarrow> Some (True, o2) | n # rest \<Rightarrow> Stat_TypeCheck n o2) of
        None \<Rightarrow> None
      | Some (False, o3) \<Rightarrow> Some (False, o3)
      | Some (True, o3) \<Rightarrow>
     (case GetType cond of
        None \<Rightarrow> None
      | Some ct \<Rightarrow>
     (case MatchP ct (Ptr CBoolType) of
        None \<Rightarrow> None
      | Some False \<Rightarrow> report (GetToken cond) ''expected boolean type condition'' o3
      | Some True \<Rightarrow> Some (True, o3))))))"
| "Stat_TypeCheck (CAstStatWhile t cond body) out =
     (case TypeCheck cond out of
        None \<Rightarrow> None
      | Some (False, o1) \<Rightarrow> Some (False, o1)
      | Some (True, o1) \<Rightarrow>
     (case Stat_TypeCheck_seq body o1 of
        None \<Rightarrow> None
      | Some (False, o2) \<Rightarrow> Some (False, o2)
      | Some (True, o2) \<Rightarrow>
     (case GetType cond of
        None \<Rightarrow> None
      | Some ct \<Rightarrow>
     (case MatchP ct (Ptr CBoolType) of
        None \<Rightarrow> None
      | Some False \<Rightarrow> report (GetToken cond) ''expected boolean type condition'' o2
      | Some True \<Rightarrow> Some (True, o2)))))"
| "Stat_TypeCheck (CAstStatBreak t) out = Some (True, out)"
| "Stat_TypeCheck_seq [] out = Some (True, out)"
| "Stat_TypeCheck_seq (n # rest) out =
     (case Stat_TypeCheck n out of
        None \<Rightarrow> None
      | Some (False, o1) \<Rightarrow> Some (False, o1)
      | Some (True, o1) \<Rightarrow> Stat_TypeCheck_seq rest o1)"

subsection \<open>TypeCheck of a scope\<close>

text \<open>
  \<open>CAstScope::TypeCheck\<close> calls the virtual \<open>TypeCheck\<close> of each statement inside
  \<open>try { ... } catch (...)\<close>. What such a call can do: return a verdict, throw a C++
  exception, or end the process (a failed assertion is no exception). The statement check
  is a parameter here, as the call is virtual; \<open>Stat_outcome\<close> is the one of the
  statement classes of this file.
\<close>

datatype outcome = Returned bool out | Thrown out | Aborted

datatype CAstScope = CAstScope CToken string ScopeKind "CAstStatement list" "CAstScope list"

fun checkStatements :: "('s \<Rightarrow> out \<Rightarrow> outcome) \<Rightarrow> 's list \<Rightarrow> out \<Rightarrow> outcome" where
  "checkStatements chk [] out = Returned True out"
| "checkStatements chk (s # rest) out =
     (case chk s out of
        Returned True o1 \<Rightarrow> checkStatements chk rest o1
      | other \<Rightarrow> other)"

fun Scope_TypeCheck :: "(CAstStatement \<Rightarrow> out \<Rightarrow> outcome) \<Rightarrow> CAstScope \<Rightarrow> out \<Rightarrow> outcome"
  and checkChildren :: "(CAstStatement \<Rightarrow> out \<Rightarrow> outcome) \<Rightarrow> CAstScope list \<Rightarrow> out \<Rightarrow> outcome"
where
  "Scope_TypeCheck chk (CAstScope t name kind statseq children) out =
     (case (case checkStatements chk statseq out of
              Returned True o1 \<Rightarrow> checkChildren chk children o1
            | other \<Rightarrow> other) of
        Thrown o2 \<Rightarrow> Returned False o2
      | result \<Rightarrow> result)"
| "checkChildren chk [] out = Returned True out"
| "checkChildren chk (c # rest) out =
     (case Scope_TypeCheck chk c out of
        Returned True o1 \<Rightarrow> checkChildren chk rest o1
      | other \<Rightarrow> other)"

definition Stat_outcome :: "CAstStatement \<Rightarrow> out \<Rightarrow> outcome" where
  "Stat_outcome s out =
     (case Stat_TypeCheck s out of None \<Rightarrow> Aborted | Some (b, o1) \<Rightarrow> Returned b o1)"

section \<open>Construction and state of nodes\<close>

text \<open>
  The constructor of \<open>CAstSpecialOp\<close>. The member \<open>_oper\<close> is set from the argument
  before the body runs. The first assertion of the body reads
  \<open>(oper == opAddress) || (oper == opDeref) || (oper = opCast)\<close>: its last operand is an
  assignment, which stores \<open>opCast\<close> in the local \<open>oper\<close> and is true when the number
  of the enumerator \<open>opCast\<close> is not 0. The enumeration is declared in ir.h, which is not
  among the sources, so the numbers are the parameter \<open>number\<close>. The third assertion
  reads \<open>oper\<close> after that assignment.
\<close>

definition new_CAstSpecialOp :: "(EOperation \<Rightarrow> int) \<Rightarrow> CToken \<Rightarrow> EOperation
    \<Rightarrow> CAstExpression ptr \<Rightarrow> CType ptr \<Rightarrow> CAstExpression option" where
  "new_CAstSpecialOp number t oper e type =
     (let stored = oper;
          (holds, oper1) =
            (if oper = opAddress \<or> oper = opDeref then (True, oper)
             else (number opCast \<noteq> 0, opCast))
      in if \<not> holds then None
         else
           (case e of
              NULL \<Rightarrow> None
            | Ptr operand \<Rightarrow>
                if (oper1 \<noteq> opCast \<and> type = NULL) \<or> (oper1 = opCast \<and> type \<noteq> NULL)
                then Some (CAstSpecialOp t stored operand type)
                else None))"

text \<open>
  An array designator as an object with state: the token, the symbol, \<open>_idx\<close> and
  \<open>_done\<close>. \<open>TypeCheck\<close> and \<open>GetType\<close> are const member functions; \<open>ToTac\<close> is not,
  and \<open>ToTac_node\<close> gives, with the result of \<open>ToTac\<close>, the object as the call leaves it.
\<close>

datatype ArrayDesignator = ArrayDesignator (node_token: CToken) (node_symbol: CSymbol)
  (node_idx: "CAstExpression list") (node_done: bool)

fun expression_of :: "ArrayDesignator \<Rightarrow> CAstExpression" where
  "expression_of (ArrayDesignator t symbol idx dn) = CAstArrayDesignator t symbol idx dn"

definition new_CAstArrayDesignator :: "CToken \<Rightarrow> CSymbol \<Rightarrow> ArrayDesignator" where
  "new_CAstArrayDesignator t symbol = ArrayDesignator t symbol [] False"

fun AddIndex :: "ArrayDesignator \<Rightarrow> CAstExpression \<Rightarrow> ArrayDesignator option" where
  "AddIndex (ArrayDesignator t symbol idx dn) e =
     (if dn then None else Some (ArrayDesignator t symbol (idx @ [e]) dn))"

fun IndicesComplete :: "ArrayDesignator \<Rightarrow> ArrayDesignator option" where
  "IndicesComplete (ArrayDesignator t symbol idx dn) =
     (if dn then None else Some (ArrayDesignator t symbol idx True))"

definition GetNIndices :: "ArrayDesignator \<Rightarrow> nat" where
  "GetNIndices n = length (node_idx n)"

definition GetIndex :: "ArrayDesignator \<Rightarrow> nat \<Rightarrow> CAstExpression option" where
  "GetIndex n i = (if i < length (node_idx n) then Some (node_idx n ! i) else None)"

section \<open>Three-address code\<close>

text \<open>
  Modelled from the spec: the operands, the instructions and the code block (ir.h) are not
  among the sources. Section 4.5: operands are constants, named symbols, temporaries and
  references (a named base plus the symbol it stands for); an instruction is a label or an
  operation with a destination and up to two sources, where the destination of a jump is
  a label; the code block makes fresh labels and fresh temporaries, appends instructions and
  gives the symbol table of its owner. A temporary is a name (the code assigns a
  \<open>CTacTemp*\<close> to a \<open>CTacName*\<close>), and so is a reference.
\<close>

datatype CTacSymbol = SymbolOf CSymbol | ProcOf CSymProc | TempSymbol nat "CType ptr"

datatype CTacAddr = CTacConst "32 word"
  | CTacName CTacSymbol
  | CTacTemp nat "CType ptr"
  | CTacReference CTacSymbol CSymbol

datatype CTac = TacLabel nat | TacAddr CTacAddr

datatype CTacInstr = CTacInstr EOperation "CTac ptr" "CTacAddr ptr" "CTacAddr ptr"
  | CTacLabel nat

fun as_CTacName :: "CTacAddr ptr \<Rightarrow> CTacSymbol ptr" where
  "as_CTacName NULL = NULL"
| "as_CTacName (Ptr (CTacConst c)) = NULL"
| "as_CTacName (Ptr (CTacName s)) = Ptr s"
| "as_CTacName (Ptr (CTacTemp n ty)) = Ptr (TempSymbol n ty)"
| "as_CTacName (Ptr (CTacReference s d)) = Ptr s"

fun dst_of :: "CTacAddr ptr \<Rightarrow> CTac ptr" where
  "dst_of NULL = NULL"
| "dst_of (Ptr a) = Ptr (TacAddr a)"

datatype CSymtabEntry = SymbolEntry CSymbol | ProcEntry CSymProc

fun as_CSymProc :: "CSymtabEntry ptr \<Rightarrow> CSymProc ptr" where
  "as_CSymProc (Ptr (ProcEntry p)) = Ptr p"
| "as_CSymProc other = NULL"

record CCodeBlock =
  instrs :: "CTacInstr list"
  nlabels :: nat
  ntemps :: nat
  FindSymbol :: "string \<Rightarrow> CSymtabEntry ptr"

definition CreateLabel :: "CCodeBlock \<Rightarrow> nat \<times> CCodeBlock" where
  "CreateLabel cb = (nlabels cb, cb\<lparr>nlabels := Suc (nlabels cb)\<rparr>)"

definition CreateTemp :: "CType ptr \<Rightarrow> CCodeBlock \<Rightarrow> CTacAddr \<times> CCodeBlock" where
  "CreateTemp ty cb = (CTacTemp (ntemps cb) ty, cb\<lparr>ntemps := Suc (ntemps cb)\<rparr>)"

definition AddInstr :: "CTacInstr \<Rightarrow> CCodeBlock \<Rightarrow> CCodeBlock" where
  "AddInstr i cb = cb\<lparr>instrs := instrs cb @ [i]\<rparr>"

definition Goto :: "nat \<Rightarrow> CTacInstr" where
  "Goto l = CTacInstr opGoto (Ptr (TacLabel l)) NULL NULL"

section \<open>Lowering of expressions\<close>

subsection \<open>The address expression of an array designator\<close>

fun as_CArrayType :: "CType ptr \<Rightarrow> CType ptr" where
  "as_CArrayType (Ptr (CArrayType n t)) = Ptr (CArrayType n t)"
| "as_CArrayType other = NULL"

text \<open>
  The loop "fill the empty indices" of \<open>CAstArrayDesignator::ToTac\<close>: it walks down the
  array type, counts the dimensions in \<open>cnt\<close>, and appends an integer constant 0 to
  \<open>_idx\<close> for each dimension that has no index. It returns \<open>_idx\<close> and the type \<open>t\<close> it
  stops at.
\<close>

fun fillIndices :: "CType \<Rightarrow> nat \<Rightarrow> CAstExpression list \<Rightarrow> CAstExpression list \<times> CType" where
  "fillIndices (CArrayType n inner) cnt idx =
     fillIndices inner (Suc cnt)
       (if cnt \<ge> length idx then idx @ [CAstConstant emptyToken (Ptr CIntType) 0] else idx)"
| "fillIndices t cnt idx = (idx, t)"

text \<open>
  The loop over \<open>_idx\<close> that builds \<open>offset\<close>; \<open>i\<close> counts from 0, the list holds the
  indices from \<open>i\<close> on, so \<open>i == _idx.size() - 1\<close> holds at the last element. \<open>offset\<close> is
  not initialised before the first round; it is null here until then. \<open>CAstFunctionCall\<close>
  asserts that its symbol is not null.
\<close>

fun mkOffset :: "CSymProc ptr \<Rightarrow> CAstExpression \<Rightarrow> 32 word \<Rightarrow> CAstExpression list \<Rightarrow> nat
    \<Rightarrow> CAstExpression ptr \<Rightarrow> CAstExpression ptr option" where
  "mkOffset dimSym arrayPointer esize [] i offset = Some offset"
| "mkOffset dimSym arrayPointer esize (x # rest) i offset =
     (case (if i = 0 then Some x
            else (case offset of
                    NULL \<Rightarrow> None
                  | Ptr off \<Rightarrow> Some (CAstBinaryOp emptyToken opAdd off x))) of
        None \<Rightarrow> None
      | Some off1 \<Rightarrow>
          if rest = [] then
            mkOffset dimSym arrayPointer esize rest (Suc i)
              (Ptr (CAstBinaryOp emptyToken opMul off1
                      (CAstConstant emptyToken (Ptr CIntType) (scast esize))))
          else
            (case dimSym of
               NULL \<Rightarrow> None
             | Ptr dim \<Rightarrow>
                 mkOffset dimSym arrayPointer esize rest (Suc i)
                   (Ptr (CAstBinaryOp emptyToken opMul off1
                      (CAstFunctionCall emptyToken dim
                         [arrayPointer,
                          CAstConstant emptyToken (Ptr CIntType) (of_nat (i + 2))])))))"

text \<open>
  \<open>CAstArrayDesignator::ToTac\<close> up to the call \<open>address->ToTac(cb)\<close>: the array pointer,
  the filled \<open>_idx\<close>, the element size, the offset and the address expression. The result
  is \<open>_idx\<close> as the call leaves it, and the address expression.
\<close>

definition mkAddress :: "(CType \<Rightarrow> 32 word) \<Rightarrow> CCodeBlock \<Rightarrow> CSymbol \<Rightarrow> CAstExpression list
    \<Rightarrow> (CAstExpression list \<times> CAstExpression) option" where
  "mkAddress GetSize cb symbol idx =
     (case deref (sym_type symbol) of
        None \<Rightarrow> None
      | Some st \<Rightarrow>
          let (arrayType, arrayPointer) =
            (case st of
               CPointerType base \<Rightarrow> (as_CArrayType base, CAstDesignator emptyToken symbol)
             | other \<Rightarrow> (as_CArrayType (Ptr st),
                 CAstSpecialOp emptyToken opAddress (CAstDesignator emptyToken symbol) NULL))
          in
          (case arrayType of
             NULL \<Rightarrow> None
           | Ptr aty \<Rightarrow>
               let (idx', t) = fillIndices aty 0 idx;
                   esize = GetSize t;
                   dimSym = as_CSymProc (FindSymbol cb ''DIM'');
                   dofsSym = as_CSymProc (FindSymbol cb ''DOFS'')
               in
               (case mkOffset dimSym arrayPointer esize idx' 0 NULL of
                  None \<Rightarrow> None
                | Some offset \<Rightarrow>
                    (case dofsSym of
                       NULL \<Rightarrow> None
                     | Ptr dofs \<Rightarrow>
                         (case offset of
                            NULL \<Rightarrow> None
                          | Ptr off \<Rightarrow>
                              Some (idx',
                                CAstBinaryOp emptyToken opAdd arrayPointer
                                  (CAstBinaryOp emptyToken opAdd off
                                     (CAstFunctionCall emptyToken dofs [arrayPointer]))))))))"

subsection \<open>A measure for the recursion of the lowering\<close>

text \<open>
  \<open>ToTac\<close> of an array designator calls \<open>ToTac\<close> of the address expression it has just
  built, which is no part of the designator. The recursion ends all the same: the address
  expression holds the indices and, per dimension, a bounded number of new nodes.
\<close>

fun rank :: "CType \<Rightarrow> nat" where
  "rank (CArrayType n t) = Suc (rank t)"
| "rank t = 0"

fun symbolRank :: "CSymbol \<Rightarrow> nat" where
  "symbolRank (CSymbol n (Ptr (CPointerType (Ptr t)))) = rank t"
| "symbolRank (CSymbol n (Ptr t)) = rank t"
| "symbolRank (CSymbol n NULL) = 0"

fun weight :: "CAstExpression \<Rightarrow> nat" where
  "weight (CAstBinaryOp t oper l r) = Suc (weight l + weight r)"
| "weight (CAstUnaryOp t oper e) = Suc (weight e)"
| "weight (CAstSpecialOp t oper e ty) = Suc (weight e)"
| "weight (CAstFunctionCall t symbol args) = Suc (sum_list (map weight args))"
| "weight (CAstDesignator t symbol) = 1"
| "weight (CAstArrayDesignator t symbol idx dn) =
     sum_list (map weight idx) + 8 * max (length idx) (symbolRank symbol) + 10"
| "weight (CAstConstant t ty v) = 1"
| "weight (CAstStringConstant t ty s symbol) = 1"

text \<open>Which of the two modes of \<open>ToTac\<close> calls the other on the same node.\<close>

fun valueFirst :: "CAstExpression \<Rightarrow> bool" where
  "valueFirst (CAstBinaryOp t oper l r) = True"
| "valueFirst (CAstUnaryOp t oper e) = True"
| "valueFirst e = False"

definition AddInstrs :: "CTacInstr list \<Rightarrow> CCodeBlock \<Rightarrow> CCodeBlock" where
  "AddInstrs is cb = foldl (\<lambda>c i. AddInstr i c) cb is"

lemma fillIndices_bounds:
  "fillIndices ty cnt idx = (idx', t') \<Longrightarrow>
     length idx \<le> length idx' \<and> length idx' \<le> max (length idx) (cnt + rank ty) \<and>
     sum_list (map weight idx') = sum_list (map weight idx) + (length idx' - length idx)"
proof (induction ty cnt idx arbitrary: idx' t' rule: fillIndices.induct)
  case (1 n inner cnt idx)
  let ?idx1 = "if cnt \<ge> length idx then idx @ [CAstConstant emptyToken (Ptr CIntType) 0] else idx"
  from "1.prems" have "fillIndices inner (Suc cnt) ?idx1 = (idx', t')" by simp
  from "1.IH" [OF this]
  have a: "length ?idx1 \<le> length idx'"
    and b: "length idx' \<le> max (length ?idx1) (Suc cnt + rank inner)"
    and c: "sum_list (map weight idx') = sum_list (map weight ?idx1) + (length idx' - length ?idx1)"
    by blast+
  show ?case
  proof (cases "cnt \<ge> length idx")
    case True
    with a b c show ?thesis by simp
  next
    case False
    with a b c show ?thesis by simp
  qed
qed simp_all

fun offsetWeight :: "CAstExpression ptr \<Rightarrow> nat" where
  "offsetWeight NULL = 0"
| "offsetWeight (Ptr e) = weight e"

lemma mkOffset_weight:
  "mkOffset dimSym ap esize xs i offset = Some r \<Longrightarrow> weight ap \<le> 2 \<Longrightarrow>
     offsetWeight r \<le> offsetWeight offset + sum_list (map weight xs) + 6 * length xs"
proof (induction dimSym ap esize xs i offset arbitrary: r rule: mkOffset.induct)
  case (1 dimSym arrayPointer esize i offset)
  then show ?case by simp
next
  case (2 dimSym arrayPointer esize x rest i offset)
  let ?first = "if i = 0 then Some x
            else (case offset of
                    NULL \<Rightarrow> None
                  | Ptr off \<Rightarrow> Some (CAstBinaryOp emptyToken opAdd off x))"
  from "2.prems"(1) obtain off1 where f: "?first = Some off1"
    by (cases ?first) simp_all
  then have w1: "weight off1 \<le> offsetWeight offset + weight x + 1"
    by (cases offset) (auto split: if_splits)
  show ?case
  proof (cases "rest = []")
    case True
    with "2.prems"(1) f have "r = Ptr (CAstBinaryOp emptyToken opMul off1
                      (CAstConstant emptyToken (Ptr CIntType) (scast esize)))"
      by simp
    with w1 True show ?thesis by simp
  next
    case False
    with "2.prems"(1) f obtain dim where d: "dimSym = Ptr dim"
      by (cases dimSym) simp_all
    let ?off2 = "CAstBinaryOp emptyToken opMul off1
                      (CAstFunctionCall emptyToken dim
                         [arrayPointer,
                          CAstConstant emptyToken (Ptr CIntType) (of_nat (i + 2))])"
    from "2.prems"(1) f False d
    have "mkOffset dimSym arrayPointer esize rest (Suc i) (Ptr ?off2) = Some r" by simp
    from "2.IH"(2) [OF f False d this "2.prems"(2)]
    have "offsetWeight r \<le> weight ?off2 + sum_list (map weight rest) + 6 * length rest"
      by simp
    with w1 "2.prems"(2) show ?thesis by simp
  qed
qed

lemma mkAddress_weight:
  assumes "mkAddress GetSize cb symbol idx = Some (idx', address)"
  shows "weight address
           < sum_list (map weight idx) + 8 * max (length idx) (symbolRank symbol) + 10"
proof -
  from assms obtain st where st: "deref (sym_type symbol) = Some st"
    by (auto simp: mkAddress_def split: option.splits)
  define arrayType where "arrayType =
     (case st of CPointerType base \<Rightarrow> as_CArrayType base | other \<Rightarrow> as_CArrayType (Ptr st))"
  define arrayPointer where "arrayPointer =
     (case st of CPointerType base \<Rightarrow> CAstDesignator emptyToken symbol
      | other \<Rightarrow> CAstSpecialOp emptyToken opAddress (CAstDesignator emptyToken symbol) NULL)"
  have pair: "(case st of
               CPointerType base \<Rightarrow> (as_CArrayType base, CAstDesignator emptyToken symbol)
             | other \<Rightarrow> (as_CArrayType (Ptr st),
                 CAstSpecialOp emptyToken opAddress (CAstDesignator emptyToken symbol) NULL))
       = (arrayType, arrayPointer)"
    by (cases st) (simp_all add: arrayType_def arrayPointer_def)
  have wp: "weight arrayPointer \<le> 2"
    by (cases st) (simp_all add: arrayPointer_def)
  from assms st pair obtain aty where aty: "arrayType = Ptr aty"
    by (cases arrayType) (simp_all add: mkAddress_def)
  have rk: "rank aty \<le> symbolRank symbol"
  proof (cases symbol)
    case (CSymbol n ty)
    with st have ty: "ty = Ptr st" by (cases ty) simp_all
    show ?thesis
    proof (cases st)
      case (CPointerType base)
      with aty have "base = Ptr aty"
        by (cases base rule: as_CArrayType.cases) (simp_all add: arrayType_def)
      with CSymbol ty CPointerType show ?thesis by simp
    next
      case (CArrayType m inner)
      with aty have "aty = st" by (simp add: arrayType_def)
      with CSymbol ty CArrayType show ?thesis by simp
    qed (use aty in \<open>simp_all add: arrayType_def\<close>)
  qed
  obtain idx1 t1 where fi: "fillIndices aty 0 idx = (idx1, t1)"
    by (cases "fillIndices aty 0 idx")
  from fillIndices_bounds [OF fi]
  have l1: "length idx \<le> length idx1" and l2: "length idx1 \<le> max (length idx) (rank aty)"
    and sw: "sum_list (map weight idx1) = sum_list (map weight idx) + (length idx1 - length idx)"
    by simp_all
  from assms st pair aty fi obtain offset where
    mo: "mkOffset (as_CSymProc (FindSymbol cb ''DIM'')) arrayPointer (GetSize t1) idx1 0 NULL
          = Some offset"
    by (auto simp: mkAddress_def Let_def split: option.splits)
  from assms st pair aty fi mo obtain dofs off where
    off: "offset = Ptr off" and
    res: "idx' = idx1" "address = CAstBinaryOp emptyToken opAdd arrayPointer
                                  (CAstBinaryOp emptyToken opAdd off
                                     (CAstFunctionCall emptyToken dofs [arrayPointer]))"
    by (auto simp: mkAddress_def Let_def split: option.splits ptr.splits)
  from mkOffset_weight [OF mo wp] off
  have "weight off \<le> sum_list (map weight idx1) + 6 * length idx1" by simp
  with res wp have "weight address \<le> sum_list (map weight idx1) + 6 * length idx1 + 8"
    by simp
  also have "\<dots> \<le> sum_list (map weight idx) + 7 * length idx1 + 8"
    using sw l1 by simp
  also have "\<dots> \<le> sum_list (map weight idx) + 7 * max (length idx) (symbolRank symbol) + 8"
    using l2 rk by (simp add: max_def split: if_splits)
  finally show ?thesis by simp
qed

lemma weight_pos [simp]: "0 < weight e"
  by (cases e) simp_all

subsection \<open>ToTac\<close>


text \<open>
  Lowering changes nodes in place: \<open>CAstArrayDesignator::ToTac\<close> appends to \<open>_idx\<close>, and
  the index expressions are shared between \<open>_idx\<close> and the address expression, so that
  lowering the address expression changes the designator's own indices. Each lowering
  therefore also returns the node as the call leaves it. The shared index expressions are
  read back from the places they have in the address expression: \<open>offsetIndices n\<close> from an
  offset built from \<open>n\<close> indices, \<open>addressIndices n\<close> from the address expression;
  \<open>offsetShape n\<close> holds of the offsets that the loop over \<open>_idx\<close> builds from \<open>n\<close> indices.
\<close>

fun offsetIndices :: "nat \<Rightarrow> CAstExpression \<Rightarrow> CAstExpression list" where
  "offsetIndices (Suc 0) (CAstBinaryOp t oper x m) = [x]"
| "offsetIndices (Suc (Suc n)) (CAstBinaryOp t oper (CAstBinaryOp t' oper' prev x) m) =
     offsetIndices (Suc n) prev @ [x]"
| "offsetIndices n e = []"

fun offsetShape :: "nat \<Rightarrow> CAstExpression \<Rightarrow> bool" where
  "offsetShape (Suc 0) (CAstBinaryOp t oper x m) = (oper = opMul)"
| "offsetShape (Suc (Suc n)) (CAstBinaryOp t oper (CAstBinaryOp t' oper' prev x) m) =
     (oper = opMul \<and> oper' = opAdd \<and> offsetShape (Suc n) prev)"
| "offsetShape n e = False"

fun addressIndices :: "nat \<Rightarrow> CAstExpression \<Rightarrow> CAstExpression list" where
  "addressIndices n (CAstBinaryOp t oper p (CAstBinaryOp t' oper' off d)) = offsetIndices n off"
| "addressIndices n e = []"

text \<open>
  \<open>ToTac\<close> is the value mode \<open>ToTac(cb)\<close>: it returns the operand that holds the value
  (which may be null), the code block, and the node as the call leaves it. \<open>ToTacJ\<close> is the
  jumping mode \<open>ToTac(cb, ltrue, lfalse)\<close>; no caller reads what it returns, so it gives the
  code block and the node. \<open>ToTac_params\<close> is the loop of \<open>CAstFunctionCall::ToTac\<close> that
  runs from the last argument down to the first: the list holds the arguments from index
  \<open>i\<close> on, and those after the first are lowered before it. Where the code reads
  \<open>GetType()\<close> after it has lowered an operand, the type is that of the node with the
  operand as the lowering left it.
\<close>

function (sequential)
  ToTac :: "(CType \<Rightarrow> 32 word) \<Rightarrow> CAstExpression \<Rightarrow> CCodeBlock
      \<Rightarrow> (CTacAddr ptr \<times> CCodeBlock \<times> CAstExpression) option"
  and ToTacJ :: "(CType \<Rightarrow> 32 word) \<Rightarrow> CAstExpression \<Rightarrow> nat \<Rightarrow> nat \<Rightarrow> CCodeBlock
      \<Rightarrow> (CCodeBlock \<times> CAstExpression) option"
  and ToTac_params :: "(CType \<Rightarrow> 32 word) \<Rightarrow> CAstExpression list \<Rightarrow> nat \<Rightarrow> CCodeBlock
      \<Rightarrow> (CCodeBlock \<times> CAstExpression list) option"
where
  "ToTac GetSize (CAstBinaryOp t oper l r) cb =
     do {
       ty \<leftarrow> GetType (CAstBinaryOp t oper l r);
       if Match CBoolType ty then
         do {
           let (ret, cb1) = CreateTemp (Ptr CBoolType) cb;
           let (trueLabel, cb2) = CreateLabel cb1;
           let (falseLabel, cb3) = CreateLabel cb2;
           let (nextLabel, cb4) = CreateLabel cb3;
           (cb5, e') \<leftarrow> ToTacJ GetSize (CAstBinaryOp t oper l r) trueLabel falseLabel cb4;
           Some (Ptr ret, AddInstrs
             [CTacLabel trueLabel,
              CTacInstr opAssign (Ptr (TacAddr ret)) (Ptr (CTacConst 1)) NULL,
              Goto nextLabel,
              CTacLabel falseLabel,
              CTacInstr opAssign (Ptr (TacAddr ret)) (Ptr (CTacConst 0)) NULL,
              CTacLabel nextLabel] cb5, e')
         }
       else
         do {
           (lhs, cb1, l') \<leftarrow> ToTac GetSize l cb;
           (rhs, cb2, r') \<leftarrow> ToTac GetSize r cb1;
           ty' \<leftarrow> GetType (CAstBinaryOp t oper l' r');
           let (ret, cb3) = CreateTemp ty' cb2;
           Some (Ptr ret, AddInstr (CTacInstr oper (Ptr (TacAddr ret)) lhs rhs) cb3,
                 CAstBinaryOp t oper l' r')
         }
     }"
| "ToTac GetSize (CAstUnaryOp t oper e) cb =
     (if oper = opNeg then
        do {
          (operand, cb1, e') \<leftarrow> ToTac GetSize e cb;
          ty \<leftarrow> GetType (CAstUnaryOp t oper e');
          let (ret, cb2) = CreateTemp ty cb1;
          Some (Ptr ret, AddInstr (CTacInstr oper (Ptr (TacAddr ret)) operand NULL) cb2,
                CAstUnaryOp t oper e')
        }
      else if oper = opPos then
        do {
          (operand, cb1, e') \<leftarrow> ToTac GetSize e cb;
          Some (operand, cb1, CAstUnaryOp t oper e')
        }
      else
        do {
          let (ret, cb1) = CreateTemp (Ptr CBoolType) cb;
          let (trueLabel, cb2) = CreateLabel cb1;
          let (falseLabel, cb3) = CreateLabel cb2;
          let (nextLabel, cb4) = CreateLabel cb3;
          (cb5, e') \<leftarrow> ToTacJ GetSize (CAstUnaryOp t oper e) trueLabel falseLabel cb4;
          Some (Ptr ret, AddInstrs
            [CTacLabel trueLabel,
             CTacInstr opAssign (Ptr (TacAddr ret)) (Ptr (CTacConst 1)) NULL,
             Goto nextLabel,
             CTacLabel falseLabel,
             CTacInstr opAssign (Ptr (TacAddr ret)) (Ptr (CTacConst 0)) NULL,
             CTacLabel nextLabel] cb5, e')
        })"
| "ToTac GetSize (CAstSpecialOp t oper e cty) cb =
     do {
       (operand, cb1, e') \<leftarrow> ToTac GetSize e cb;
       ty \<leftarrow> GetType (CAstSpecialOp t oper e' cty);
       let (temp, cb2) = CreateTemp ty cb1;
       Some (Ptr temp, AddInstr (CTacInstr oper (Ptr (TacAddr temp)) operand NULL) cb2,
             CAstSpecialOp t oper e' cty)
     }"
| "ToTac GetSize (CAstFunctionCall t symbol args) cb =
     do {
       let (dst, cb1) =
         (if Match CNullType (proc_type symbol) then (NULL, cb)
          else (let (d, c) = CreateTemp (proc_type symbol) cb in (Ptr d, c)));
       (cb2, args') \<leftarrow> ToTac_params GetSize args 0 cb1;
       Some (dst, AddInstr (CTacInstr opCall (dst_of dst) (Ptr (CTacName (ProcOf symbol))) NULL)
                    cb2,
             CAstFunctionCall t symbol args')
     }"
| "ToTac GetSize (CAstDesignator t symbol) cb =
     Some (Ptr (CTacName (SymbolOf symbol)), cb, CAstDesignator t symbol)"
| "ToTac GetSize (CAstArrayDesignator t symbol idx dn) cb =
     do {
       (idx', address) \<leftarrow> mkAddress GetSize cb symbol idx;
       (result, cb1, address') \<leftarrow> ToTac GetSize address cb;
       let node = CAstArrayDesignator t symbol (addressIndices (length idx') address') dn;
       (case as_CTacName result of
          NULL \<Rightarrow>
            (let (temp, cb2) = CreateTemp (Ptr CIntType) cb1;
                 cb3 = AddInstr (CTacInstr opAssign (Ptr (TacAddr temp)) result NULL) cb2
             in case as_CTacName (Ptr temp) of
                  NULL \<Rightarrow> None
                | Ptr resultName \<Rightarrow> Some (Ptr (CTacReference resultName symbol), cb3, node))
        | Ptr resultName \<Rightarrow> Some (Ptr (CTacReference resultName symbol), cb1, node))
     }"
| "ToTac GetSize (CAstConstant t ty v) cb =
     Some (Ptr (CTacConst (ucast v)), cb, CAstConstant t ty v)"
| "ToTac GetSize (CAstStringConstant t ty s symbol) cb =
     Some (Ptr (CTacName (SymbolOf symbol)), cb, CAstStringConstant t ty s symbol)"
| "ToTacJ GetSize (CAstBinaryOp t oper l r) ltrue lfalse cb =
     do {
       ty \<leftarrow> GetType (CAstBinaryOp t oper l r);
       if \<not> Match CBoolType ty then None
       else if oper = opAnd \<or> oper = opOr then
         do {
           let (midLabel, cb1) = CreateLabel cb;
           (cb2, l') \<leftarrow> (if oper = opAnd then ToTacJ GetSize l midLabel lfalse cb1
                         else ToTacJ GetSize l ltrue midLabel cb1);
           (cb3, r') \<leftarrow> ToTacJ GetSize r ltrue lfalse (AddInstr (CTacLabel midLabel) cb2);
           Some (cb3, CAstBinaryOp t oper l' r')
         }
       else
         do {
           (lhs, cb1, l') \<leftarrow> ToTac GetSize l cb;
           (rhs, cb2, r') \<leftarrow> ToTac GetSize r cb1;
           Some (AddInstrs [CTacInstr oper (Ptr (TacLabel ltrue)) lhs rhs, Goto lfalse] cb2,
                 CAstBinaryOp t oper l' r')
         }
     }"
| "ToTacJ GetSize (CAstUnaryOp t oper e) ltrue lfalse cb =
     do {
       ty \<leftarrow> GetType (CAstUnaryOp t oper e);
       if \<not> Match CBoolType ty then None
       else
         do {
           (cb1, e') \<leftarrow> ToTacJ GetSize e lfalse ltrue cb;
           Some (cb1, CAstUnaryOp t oper e')
         }
     }"
| "ToTacJ GetSize (CAstSpecialOp t oper e cty) ltrue lfalse cb =
     Some (cb, CAstSpecialOp t oper e cty)"
| "ToTacJ GetSize (CAstFunctionCall t symbol args) ltrue lfalse cb =
     (if \<not> Match CBoolType (proc_type symbol) then None
      else
        do {
          (dst, cb1, e') \<leftarrow> ToTac GetSize (CAstFunctionCall t symbol args) cb;
          Some (AddInstrs
            [CTacInstr opEqual (Ptr (TacLabel ltrue)) dst (Ptr (CTacConst 1)), Goto lfalse] cb1,
            e')
        })"
| "ToTacJ GetSize (CAstDesignator t symbol) ltrue lfalse cb =
     (if \<not> Match CBoolType (sym_type symbol) then None
      else
        do {
          (v, cb1, e') \<leftarrow> ToTac GetSize (CAstDesignator t symbol) cb;
          Some (AddInstrs
            [CTacInstr opEqual (Ptr (TacLabel ltrue)) v (Ptr (CTacConst 1)), Goto lfalse] cb1,
            e')
        })"
| "ToTacJ GetSize (CAstArrayDesignator t symbol idx dn) ltrue lfalse cb =
     do {
       (ret, cb1, e') \<leftarrow> ToTac GetSize (CAstArrayDesignator t symbol idx dn) cb;
       Some (AddInstrs
         [CTacInstr opEqual (Ptr (TacLabel ltrue)) ret (Ptr (CTacConst 1)), Goto lfalse] cb1,
         e')
     }"
| "ToTacJ GetSize (CAstConstant t ty v) ltrue lfalse cb =
     (if \<not> Match CBoolType ty then None
      else
        do {
          (c, cb1, e') \<leftarrow> ToTac GetSize (CAstConstant t ty v) cb;
          Some (AddInstrs
            [CTacInstr opEqual (Ptr (TacLabel ltrue)) c (Ptr (CTacConst 1)), Goto lfalse] cb1,
            e')
        })"
| "ToTacJ GetSize (CAstStringConstant t ty s symbol) ltrue lfalse cb =
     Some (cb, CAstStringConstant t ty s symbol)"
| "ToTac_params GetSize [] i cb = Some (cb, [])"
| "ToTac_params GetSize (arg # rest) i cb =
     do {
       (cb1, rest') \<leftarrow> ToTac_params GetSize rest (Suc i) cb;
       (a, cb2, arg') \<leftarrow> ToTac GetSize arg cb1;
       Some (AddInstr (CTacInstr opParam (Ptr (TacAddr (CTacConst (of_nat i)))) a NULL) cb2,
             arg' # rest')
     }"
  by pat_completeness auto

termination
  by (relation "measure (\<lambda>x. case x of
      Inl (g, e, cb) \<Rightarrow> 3 * weight e + (if valueFirst e then 1 else 0)
    | Inr (Inl (g, e, lt, lf, cb)) \<Rightarrow> 3 * weight e + (if valueFirst e then 0 else 1)
    | Inr (Inr (g, args, i, cb)) \<Rightarrow> 3 * sum_list (map weight args) + 2)")
     (auto dest!: mkAddress_weight)

text \<open>
  \<open>ToTac\<close> called on a node of class \<open>CAstArrayDesignator\<close>: the operand, the code block
  and the node as the call leaves it.
\<close>

fun node_of :: "CAstExpression \<Rightarrow> ArrayDesignator option" where
  "node_of (CAstArrayDesignator t symbol idx dn) = Some (ArrayDesignator t symbol idx dn)"
| "node_of e = None"

definition ToTac_node :: "(CType \<Rightarrow> 32 word) \<Rightarrow> ArrayDesignator \<Rightarrow> CCodeBlock
    \<Rightarrow> (CTacAddr ptr \<times> CCodeBlock \<times> ArrayDesignator) option" where
  "ToTac_node GetSize n cb =
     do {
       (result, cb1, e') \<leftarrow> ToTac GetSize (expression_of n) cb;
       n' \<leftarrow> node_of e';
       Some (result, cb1, n')
     }"

section \<open>Lowering of statements\<close>

text \<open>
  \<open>ToTac(cb, next, end)\<close> of a statement: \<open>next\<close> is the label to go to afterwards and
  \<open>end\<close> the label a \<open>break\<close> goes to, null outside a loop. \<open>Stat_ToTac_seq\<close> is the loop
  over a statement sequence that the bodies of \<open>if\<close> and \<open>while\<close> share: a fresh label
  for each statement, the statement, then that label. The expressions of a statement are
  lowered once each and not read again, so a statement's lowering gives the code block
  alone.
\<close>

fun Stat_ToTac :: "(CType \<Rightarrow> 32 word) \<Rightarrow> CAstStatement \<Rightarrow> nat \<Rightarrow> nat ptr \<Rightarrow> CCodeBlock
      \<Rightarrow> CCodeBlock option"
  and Stat_ToTac_seq :: "(CType \<Rightarrow> 32 word) \<Rightarrow> CAstStatement list \<Rightarrow> nat ptr \<Rightarrow> CCodeBlock
      \<Rightarrow> CCodeBlock option"
where
  "Stat_ToTac GetSize (CAstStatAssign t lhs rhs) next end cb =
     do {
       (dest, cb1, lhs') \<leftarrow> ToTac GetSize lhs cb;
       (src, cb2, rhs') \<leftarrow> ToTac GetSize rhs cb1;
       Some (AddInstrs [CTacInstr opAssign (dst_of dest) src NULL, Goto next] cb2)
     }"
| "Stat_ToTac GetSize (CAstStatCall t call) next end cb =
     do {
       (r, cb1, call') \<leftarrow> ToTac GetSize call cb;
       Some (AddInstr (Goto next) cb1)
     }"
| "Stat_ToTac GetSize (CAstStatReturn t scope e) next end cb =
     (case e of
        Ptr ex \<Rightarrow>
          do {
            (src1, cb1, ex') \<leftarrow> ToTac GetSize ex cb;
            Some (AddInstrs [CTacInstr opReturn NULL src1 NULL, Goto next] cb1)
          }
      | NULL \<Rightarrow> Some (AddInstrs [CTacInstr opReturn NULL NULL NULL, Goto next] cb))"
| "Stat_ToTac GetSize (CAstStatIf t cond ifBody elseBody) next end cb =
     do {
       let (ifLabel, cb1) = CreateLabel cb;
       let (elseLabel, cb2) = CreateLabel cb1;
       let (endLabel, cb3) = CreateLabel cb2;
       (cb4, cond') \<leftarrow> ToTacJ GetSize cond ifLabel elseLabel cb3;
       cb5 \<leftarrow> Stat_ToTac_seq GetSize ifBody end (AddInstr (CTacLabel ifLabel) cb4);
       cb6 \<leftarrow> Stat_ToTac_seq GetSize elseBody end
                (AddInstrs [Goto endLabel, CTacLabel elseLabel] cb5);
       Some (AddInstrs [CTacLabel endLabel, Goto next] cb6)
     }"
| "Stat_ToTac GetSize (CAstStatWhile t cond body) next end cb =
     do {
       let (re, cb1) = CreateLabel cb;
       let (bodyLabel, cb2) = CreateLabel cb1;
       let (loopEnd, cb3) = CreateLabel cb2;
       (cb4, cond') \<leftarrow> ToTacJ GetSize cond bodyLabel loopEnd (AddInstr (CTacLabel re) cb3);
       cb5 \<leftarrow> Stat_ToTac_seq GetSize body (Ptr loopEnd) (AddInstr (CTacLabel bodyLabel) cb4);
       Some (AddInstrs [Goto re, CTacLabel loopEnd, Goto next] cb5)
     }"
| "Stat_ToTac GetSize (CAstStatBreak t) next end cb =
     (case end of
        NULL \<Rightarrow> None
      | Ptr e \<Rightarrow> Some (AddInstr (Goto e) cb))"
| "Stat_ToTac_seq GetSize [] end cb = Some cb"
| "Stat_ToTac_seq GetSize (s # rest) end cb =
     do {
       let (next, cb1) = CreateLabel cb;
       cb2 \<leftarrow> Stat_ToTac GetSize s next end cb1;
       Stat_ToTac_seq GetSize rest end (AddInstr (CTacLabel next) cb2)
     }"


section \<open>What a lowering adds to the code block\<close>

text \<open>
  \<open>emitted cb cb'\<close> is what was appended between the code blocks \<open>cb\<close> and \<open>cb'\<close>;
  \<open>targets\<close> are the labels a list of instructions jumps to, \<open>labels\<close> the labels it
  sets. \<open>code_ok T D cb cb'\<close>: \<open>cb'\<close> continues \<open>cb\<close>, and the code in between jumps only
  to labels of \<open>T\<close> and sets only labels of \<open>D\<close>, apart from labels made in between.
\<close>

fun target_of :: "CTacInstr \<Rightarrow> nat set" where
  "target_of (CTacInstr oper (Ptr (TacLabel l)) a b) = {l}"
| "target_of i = {}"

fun label_of :: "CTacInstr \<Rightarrow> nat set" where
  "label_of (CTacLabel l) = {l}"
| "label_of i = {}"

definition targets :: "CTacInstr list \<Rightarrow> nat set" where
  "targets is = \<Union> (target_of ` set is)"

definition labels :: "CTacInstr list \<Rightarrow> nat set" where
  "labels is = \<Union> (label_of ` set is)"

definition emitted :: "CCodeBlock \<Rightarrow> CCodeBlock \<Rightarrow> CTacInstr list" where
  "emitted cb cb' = drop (length (instrs cb)) (instrs cb')"

definition extends :: "CCodeBlock \<Rightarrow> CCodeBlock \<Rightarrow> bool" where
  "extends cb cb' =
     (take (length (instrs cb)) (instrs cb') = instrs cb \<and>
      length (instrs cb) \<le> length (instrs cb') \<and>
      nlabels cb \<le> nlabels cb' \<and> ntemps cb \<le> ntemps cb' \<and>
      FindSymbol cb' = FindSymbol cb)"

definition code_ok :: "nat set \<Rightarrow> nat set \<Rightarrow> CCodeBlock \<Rightarrow> CCodeBlock \<Rightarrow> bool" where
  "code_ok T D cb cb' =
     (extends cb cb' \<and>
      targets (emitted cb cb') \<subseteq> T \<union> {nlabels cb..<nlabels cb'} \<and>
      labels (emitted cb cb') \<subseteq> D \<union> {nlabels cb..<nlabels cb'})"

text \<open>
  \<open>ptr_set\<close> is the set of what a pointer points to. \<open>is_Goto\<close> holds of the unconditional
  jumps, and \<open>ends_in_Goto\<close> of the code whose last instruction is one: control never
  leaves such code at its end. \<open>jumping\<close> holds of the expressions for which the last node
  lowered in jumping mode is of a class that overrides the jumping mode of \<open>ToTac\<close>;
  \<open>CAstSpecialOp\<close> inherits that of \<open>CAstExpression\<close> and \<open>CAstStringConstant\<close> repeats it,
  and it emits nothing.
\<close>

fun ptr_set :: "'a ptr \<Rightarrow> 'a set" where
  "ptr_set NULL = {}"
| "ptr_set (Ptr x) = {x}"

fun is_Goto :: "CTacInstr \<Rightarrow> bool" where
  "is_Goto (CTacInstr oper (Ptr (TacLabel l)) NULL NULL) = (oper = opGoto)"
| "is_Goto i = False"

definition ends_in_Goto :: "CTacInstr list \<Rightarrow> bool" where
  "ends_in_Goto is = (is \<noteq> [] \<and> is_Goto (last is))"

fun jumping :: "CAstExpression \<Rightarrow> bool" where
  "jumping (CAstBinaryOp t oper l r) = (if oper = opAnd \<or> oper = opOr then jumping r else True)"
| "jumping (CAstUnaryOp t oper e) = jumping e"
| "jumping (CAstSpecialOp t oper e cty) = False"
| "jumping (CAstStringConstant t ty s symbol) = False"
| "jumping e = True"


section \<open>The address of an array element\<close>



definition arrayPointer :: "CSymbol \<Rightarrow> CAstExpression" where
  "arrayPointer symbol =
     (case sym_type symbol of
        Ptr (CPointerType b) \<Rightarrow> CAstDesignator emptyToken symbol
      | other \<Rightarrow> CAstSpecialOp emptyToken opAddress (CAstDesignator emptyToken symbol) NULL)"

definition DIM_call :: "CSymProc \<Rightarrow> CAstExpression \<Rightarrow> nat \<Rightarrow> CAstExpression" where
  "DIM_call dim p k =
     CAstFunctionCall emptyToken dim [p, CAstConstant emptyToken (Ptr CIntType) (of_nat k)]"

definition DOFS_call :: "CSymProc \<Rightarrow> CAstExpression \<Rightarrow> CAstExpression" where
  "DOFS_call dofs p = CAstFunctionCall emptyToken dofs [p]"



text \<open>
  Modelled from the spec: what the operators and the instructions mean; the back end that
  runs the three-address code is no part of the sources. Values are 32-bit words. A run
  time gives each variable its value and its address, and each procedure its result for
  given arguments; \<open>DIM\<close> and \<open>DOFS\<close> are procedures like the others, found in the symbol
  table. \<open>den_opaque\<close> is the value of an expression of any other form, about which nothing
  is said.

  \<open>den\<close> is the value of an expression: \<open>Add\<close>, \<open>Sub\<close>, \<open>Mul\<close> and \<open>Neg\<close> are those of the
  machine integers, a constant is its low 32 bits, as \<open>ToTac\<close> emits it.
\<close>

record runtime =
  value_of :: "CSymbol \<Rightarrow> 32 word"
  address_of :: "CSymbol \<Rightarrow> 32 word"
  result_of :: "CSymProc \<Rightarrow> 32 word list \<Rightarrow> 32 word"
  den_opaque :: "CAstExpression \<Rightarrow> 32 word"

fun den :: "runtime \<Rightarrow> CAstExpression \<Rightarrow> 32 word" where
  "den rt (CAstBinaryOp t oper l r) =
     (if oper = opAdd then den rt l + den rt r
      else if oper = opSub then den rt l - den rt r
      else if oper = opMul then den rt l * den rt r
      else den_opaque rt (CAstBinaryOp t oper l r))"
| "den rt (CAstUnaryOp t oper e) =
     (if oper = opNeg then - den rt e
      else if oper = opPos then den rt e
      else den_opaque rt (CAstUnaryOp t oper e))"
| "den rt (CAstSpecialOp t oper e cty) =
     (case e of
        CAstDesignator t' symbol \<Rightarrow>
          if oper = opAddress then address_of rt symbol
          else den_opaque rt (CAstSpecialOp t oper e cty)
      | e' \<Rightarrow> den_opaque rt (CAstSpecialOp t oper e cty))"
| "den rt (CAstFunctionCall t f args) = result_of rt f (map (den rt) args)"
| "den rt (CAstDesignator t symbol) = value_of rt symbol"
| "den rt (CAstConstant t ty v) = ucast v"
| "den rt e = den_opaque rt e"

definition DIM :: "runtime \<Rightarrow> CSymProc \<Rightarrow> 32 word \<Rightarrow> nat \<Rightarrow> 32 word" where
  "DIM rt dim p k = result_of rt dim [p, of_nat k]"

definition DOFS :: "runtime \<Rightarrow> CSymProc \<Rightarrow> 32 word \<Rightarrow> 32 word" where
  "DOFS rt dofs p = result_of rt dofs [p]"




text \<open>
  Modelled from the spec: a machine for the straight-line instructions that the lowering
  of arithmetic emits. It holds the temporaries and the stack of parameters passed and not
  yet consumed. \<open>Add\<close>, \<open>Sub\<close>, \<open>Mul\<close>, \<open>Neg\<close> and \<open>Address\<close> write their temporary;
  \<open>Param\<close> pushes its operand; \<open>Call\<close> takes as many parameters from the stack as the
  procedure has, the last one pushed being the first argument (\<open>ToTac\<close> passes them from
  the last to the first), and writes the result to its temporary. Any other instruction
  stops the machine.
\<close>

record machine =
  temp :: "nat \<Rightarrow> 32 word"
  stack :: "32 word list"

fun operand :: "runtime \<Rightarrow> machine \<Rightarrow> CTacAddr ptr \<Rightarrow> 32 word option" where
  "operand rt m (Ptr (CTacConst c)) = Some c"
| "operand rt m (Ptr (CTacName (SymbolOf symbol))) = Some (value_of rt symbol)"
| "operand rt m (Ptr (CTacTemp n ty)) = Some (temp m n)"
| "operand rt m a = None"



text \<open>
  \<open>arithmetic\<close> holds of the expressions whose lowering that machine runs: constants,
  variables, sums, differences, products, negations, the address of a variable, and calls
  of functions with as many arguments as parameters.
\<close>

fun arithmetic :: "CAstExpression \<Rightarrow> bool" where
  "arithmetic (CAstBinaryOp t oper l r) =
     ((oper = opAdd \<or> oper = opSub \<or> oper = opMul) \<and> arithmetic l \<and> arithmetic r)"
| "arithmetic (CAstUnaryOp t oper e) = ((oper = opNeg \<or> oper = opPos) \<and> arithmetic e)"
| "arithmetic (CAstSpecialOp t oper e cty) =
     (case e of CAstDesignator t' symbol \<Rightarrow> oper = opAddress | e' \<Rightarrow> False)"
| "arithmetic (CAstFunctionCall t f args) =
     (\<not> Match CNullType (proc_type f) \<and> length args = GetNParams f \<and> list_all arithmetic args)"
| "arithmetic (CAstDesignator t symbol) = True"
| "arithmetic (CAstConstant t ty v) = True"
| "arithmetic e = False"




section \<open>Properties of the type checker\<close>


lemma report_False [simp]: "report tk m out \<noteq> Some (True, o')"
  by (simp add: report_def)

lemma checkParams_True_out:
  "checkParams tk ps args out = Some (True, o') \<Longrightarrow> o' = out"
  by (induction tk ps args out rule: checkParams.induct)
     (auto split: ptr.splits option.splits if_splits)

lemma BinaryOp_switch_True_out:
  "BinaryOp_switch oper l r lt rt out = Some (True, o') \<Longrightarrow> o' = out"
  unfolding BinaryOp_switch_def
  by (simp split: if_splits option.splits bool.splits)

lemma TypeCheck_True_out:
  "TypeCheck e out = Some (True, o') \<Longrightarrow> o' = out"
  "TypeCheck_args args out = Some (True, o') \<Longrightarrow> o' = out"
  "TypeCheck_idx idx out = Some (True, o') \<Longrightarrow> o' = out"
proof (induction e out and args out and idx out arbitrary: o' and o' and o'
    rule: TypeCheck_TypeCheck_args_TypeCheck_idx.induct)
  case (1 t oper l r out)
  from "1.prems" obtain o1 where l: "TypeCheck l out = Some (True, o1)"
    by (simp split: option.splits bool.splits prod.splits)
  with "1.IH"(1) have o1: "o1 = out" by simp
  from "1.prems" l obtain o2 where r: "TypeCheck r o1 = Some (True, o2)"
    by (simp split: option.splits bool.splits prod.splits)
  with "1.IH"(2) l have o2: "o2 = o1" by simp
  from "1.prems" l r have "\<exists>lt rt. BinaryOp_switch oper l r lt rt o2 = Some (True, o')"
    by (auto split: option.splits)
  then show ?case using o1 o2 by (auto dest: BinaryOp_switch_True_out)
next
  case (2 t oper e out)
  from "2.prems" obtain o1 where e: "TypeCheck e out = Some (True, o1)"
    by (simp split: option.splits bool.splits prod.splits)
  with "2.IH" have "o1 = out" by simp
  moreover from "2.prems" e have "o' = o1"
    by (simp split: option.splits bool.splits if_splits)
  ultimately show ?case by simp
next
  case (3 t oper e ty out)
  from "3.prems" obtain o1 where e: "TypeCheck e out = Some (True, o1)"
    by (simp split: option.splits bool.splits prod.splits)
  with "3.IH" have "o1 = out" by simp
  moreover from "3.prems" e have "o' = o1"
    by (simp split: option.splits bool.splits if_splits)
  ultimately show ?case by simp
next
  case (4 t symProc args out)
  from "4.prems" have n: "\<not> GetNParams symProc \<noteq> length args"
    by (simp split: if_splits)
  from "4.prems" n obtain o1 where a: "TypeCheck_args args out = Some (True, o1)"
    by (simp split: option.splits bool.splits prod.splits)
  with "4.IH" n have "o1 = out" by simp
  moreover from "4.prems" n a have "checkParams t (proc_params symProc) args o1 = Some (True, o')"
    by simp
  then have "o' = o1" by (rule checkParams_True_out)
  ultimately show ?case by simp
next
  case (5 t symb out)
  then show ?case by (simp split: if_splits)
next
  case (6 t symb idx dn out)
  from "6.prems" have dn: "\<not> \<not> dn" by (simp split: if_splits)
  from "6.prems" dn obtain st where st: "deref (sym_type symb) = Some st"
    by (simp split: option.splits)
  from "6.prems" dn st obtain ret where
    ret: "deref (case st of CPointerType b \<Rightarrow> b | other \<Rightarrow> Ptr st) = Some ret"
    by (simp split: option.splits)
  from "6.prems" dn st ret have arr: "\<not> \<not> IsArray ret"
    by (simp split: if_splits)
  from "6.prems" dn st ret arr obtain o1 where i: "TypeCheck_idx idx out = Some (True, o1)"
    by (simp split: option.splits bool.splits prod.splits)
  from "6.IH" [OF dn st ret arr] i have "o1 = out" by simp
  moreover from "6.prems" dn st ret arr i have "o' = o1"
    by (simp split: option.splits ptr.splits if_splits)
  ultimately show ?case by simp
next
  case (7 t ty v out)
  then show ?case by (simp split: option.splits if_splits)
next
  case (8 t ty s symb out)
  then show ?case by simp
next
  case (9 out)
  then show ?case by simp
next
  case (10 it rest out)
  from "10.prems" obtain o1 where a: "TypeCheck it out = Some (True, o1)"
    by (simp split: option.splits bool.splits prod.splits)
  with "10.IH"(1) have o1: "o1 = out" by simp
  from "10.prems" a have "TypeCheck_args rest o1 = Some (True, o')" by simp
  with "10.IH"(2) a have "o' = o1" by simp
  with o1 show ?case by simp
next
  case (11 out)
  then show ?case by simp
next
  case (12 it rest out)
  from "12.prems" obtain o1 where a: "TypeCheck it out = Some (True, o1)"
    by (simp split: option.splits bool.splits prod.splits)
  with "12.IH"(1) have o1: "o1 = out" by simp
  from "12.prems" a obtain ity where g: "GetType it = Some ity"
    by (simp split: option.splits)
  from "12.prems" a g have m: "MatchP ity (Ptr CIntType) = Some True"
    by (simp split: option.splits bool.splits)
  from "12.prems" a g m have "TypeCheck_idx rest o1 = Some (True, o')" by simp
  with "12.IH"(2) a g m have "o' = o1" by simp
  with o1 show ?case by simp
qed

lemma TypeCheck_True_GetType:
  "TypeCheck e out = Some (True, o') \<Longrightarrow> GetType e \<noteq> None"
  by (cases e) (auto split: option.splits bool.splits if_splits prod.splits ptr.splits CType.splits)

lemma TypeCheck_args_all:
  "\<forall>a\<in>set args. TypeCheck a out = Some (True, out) \<Longrightarrow> TypeCheck_args args out = Some (True, out)"
  by (induction args) auto

lemma checkParams_mismatch:
  "length ps = length args \<Longrightarrow> NULL \<notin> set ps \<Longrightarrow> \<forall>a\<in>set args. GetType a \<noteq> None \<Longrightarrow>
   \<exists>i<length args. \<exists>pt at. ps ! i = Ptr pt \<and> GetType (args ! i) = Some at \<and> \<not> Match pt at \<Longrightarrow>
   checkParams tk ps args out = report tk ''argument's type does not match with the parameter'' out"
proof (induction tk ps args out rule: checkParams.induct)
  case (1 tk args out)
  then show ?case by simp
next
  case (2 tk p ps out)
  then show ?case by simp
next
  case (3 tk p ps argument args out)
  from 3(3) obtain pt where p: "p = Ptr pt" by (cases p) auto
  from 3(4) obtain at where at: "GetType argument = Some at" by auto
  show ?case
  proof (cases "Match pt at")
    case False
    then show ?thesis using p at by simp
  next
    case True
    from 3(5) obtain i pt' at' where i: "i < length (argument # args)"
      "(p # ps) ! i = Ptr pt'" "GetType ((argument # args) ! i) = Some at'" "\<not> Match pt' at'"
      by blast
    with True p at obtain j where j: "i = Suc j" by (cases i) auto
    with i have "\<exists>i<length args. \<exists>pt at. ps ! i = Ptr pt \<and> GetType (args ! i) = Some at \<and> \<not> Match pt at"
      by auto
    with 3 True p at show ?thesis by simp
  qed
qed


text \<open>
  C2, as the code has it. A call whose argument count equals the parameter count, whose
  arguments all type-check, and none of whose parameters has a null type: if the type of
  some parameter does not \<open>Match\<close> the type of its argument, \<open>TypeCheck\<close> returns
  false, the token it reports is the token of the call, and the message is
  "argument's type does not match with the parameter".
\<close>

theorem FunctionCall_TypeCheck_mismatch:
  assumes "GetNParams symb = length args"
    and "\<forall>a\<in>set args. \<exists>o'. TypeCheck a out = Some (True, o')"
    and "NULL \<notin> set (proc_params symb)"
    and "\<exists>i<length args. \<exists>pt at. proc_params symb ! i = Ptr pt \<and>
           GetType (args ! i) = Some at \<and> \<not> Match pt at"
  shows "TypeCheck (CAstFunctionCall t symb args) out =
           Some (False, assign_out (fst out) t,
                 assign_out (snd out) ''argument's type does not match with the parameter'')"
proof -
  from assms(2) have ok: "\<forall>a\<in>set args. TypeCheck a out = Some (True, out)"
    by (metis TypeCheck_True_out(1))
  then have gt: "\<forall>a\<in>set args. GetType a \<noteq> None"
    by (metis TypeCheck_True_GetType)
  have "TypeCheck_args args out = Some (True, out)"
    using ok by (rule TypeCheck_args_all)
  moreover have "checkParams t (proc_params symb) args out =
      report t ''argument's type does not match with the parameter'' out"
    using assms(1,3,4) gt by (intro checkParams_mismatch) (auto simp: GetNParams_def)
  ultimately show ?thesis using assms(1) by (simp add: report_def)
qed

theorem FunctionCall_TypeCheck_mismatch_witness:
  "TypeCheck (CAstFunctionCall (CToken ''f'')
        (CSymProc ''f'' (Ptr CNullType) [Ptr CIntType, Ptr CIntType])
        [CAstConstant (CToken ''1'') (Ptr CIntType) 1,
         CAstDesignator (CToken ''c'') (CSymbol ''c'' (Ptr CCharType))])
     (Ptr emptyToken, Ptr [])
   = Some (False, Ptr (CToken ''f''),
           Ptr ''argument's type does not match with the parameter'')"
proof -
  let ?p = "CSymProc ''f'' (Ptr CNullType) [Ptr CIntType, Ptr CIntType]"
  let ?args = "[CAstConstant (CToken ''1'') (Ptr CIntType) 1,
         CAstDesignator (CToken ''c'') (CSymbol ''c'' (Ptr CCharType))]"
  have 1: "GetNParams ?p = length ?args"
    by (simp add: GetNParams_def)
  have 2: "\<forall>a\<in>set ?args. \<exists>o'. TypeCheck a (Ptr emptyToken, Ptr []) = Some (True, o')"
    by simp
  have 3: "NULL \<notin> set (proc_params ?p)"
    by simp
  have 4: "\<exists>i<length ?args. \<exists>pt at. proc_params ?p ! i = Ptr pt \<and>
      GetType (?args ! i) = Some at \<and> \<not> Match pt at"
    by (rule exI [of _ 1]) simp
  show ?thesis
    using FunctionCall_TypeCheck_mismatch [OF 1 2 3 4, of "CToken ''f''"]
    by (simp add: report_def GetNParams_def)
qed

text \<open>
  C2, as stated, fails: in the call \<open>f(c)\<close> with \<open>f\<close> expecting an integer and \<open>c\<close> a
  character, the reported token is the token of the call \<open>f\<close>, not the token of the
  argument \<open>c\<close>.
\<close>

theorem FunctionCall_mismatch_counterexample:
  "TypeCheck (CAstFunctionCall (CToken ''f'') (CSymProc ''f'' (Ptr CNullType) [Ptr CIntType])
       [CAstDesignator (CToken ''c'') (CSymbol ''c'' (Ptr CCharType))])
     (Ptr emptyToken, Ptr [])
   = Some (False, Ptr (CToken ''f''), Ptr ''argument's type does not match with the parameter'')
   \<and> CToken ''f'' \<noteq> GetToken (CAstDesignator (CToken ''c'') (CSymbol ''c'' (Ptr CCharType)))"
  by (simp add: GetNParams_def report_def)



lemma Constant_char_256:
  "TypeCheck (CAstConstant t (Ptr CCharType) 256) (Ptr emptyToken, Ptr [])
     = Some (False, Ptr t, Ptr ''invalid value for character type constant'')"
  by (simp add: report_def)

text \<open>
  C8. A return statement in a scope whose return type is given. If that type matches the
  null type, the check fails exactly when an expression is present ("superfluous expression
  after return."). Otherwise it fails when the expression is absent ("expression expected
  after return."), when the expression fails its own check, or when the return type does
  not match the type of the expression; in the remaining case it succeeds.
\<close>

theorem Return_TypeCheck_cases:
  assumes "Scope_GetType scope = Ptr st"
  shows "(Match st (Ptr CNullType) \<longrightarrow>
            Stat_TypeCheck (CAstStatReturn t scope NULL) out = Some (True, out) \<and>
            Stat_TypeCheck (CAstStatReturn t scope (Ptr ex)) out =
              Some (False, assign_out (fst out) (GetToken ex),
                    assign_out (snd out) ''superfluous expression after return.''))
       \<and> (\<not> Match st (Ptr CNullType) \<longrightarrow>
            Stat_TypeCheck (CAstStatReturn t scope NULL) out =
              Some (False, assign_out (fst out) t,
                    assign_out (snd out) ''expression expected after return.'') \<and>
            (TypeCheck ex out = Some (False, o1) \<longrightarrow>
               Stat_TypeCheck (CAstStatReturn t scope (Ptr ex)) out = Some (False, o1)) \<and>
            (TypeCheck ex out = Some (True, o1) \<and> GetType ex = Some et \<and> \<not> Match st et \<longrightarrow>
               Stat_TypeCheck (CAstStatReturn t scope (Ptr ex)) out =
                 Some (False, assign_out (fst o1) (GetToken ex),
                       assign_out (snd o1) ''return type mismatch.'')) \<and>
            (TypeCheck ex out = Some (True, o1) \<and> GetType ex = Some et \<and> Match st et \<longrightarrow>
               Stat_TypeCheck (CAstStatReturn t scope (Ptr ex)) out = Some (True, o1)))"
  using assms by (simp add: report_def)

theorem Return_TypeCheck_cases_witness:
  "Stat_TypeCheck (CAstStatReturn (CToken ''return'') Module NULL) (Ptr emptyToken, Ptr [])
     = Some (True, Ptr emptyToken, Ptr [])
   \<and> Stat_TypeCheck (CAstStatReturn (CToken ''return'') Module
         (Ptr (CAstConstant (CToken ''1'') (Ptr CIntType) 1))) (Ptr emptyToken, Ptr [])
     = Some (False, Ptr (CToken ''1''), Ptr ''superfluous expression after return.'')
   \<and> Stat_TypeCheck (CAstStatReturn (CToken ''return'')
         (Procedure (CSymProc ''f'' (Ptr CIntType) [])) NULL) (Ptr emptyToken, Ptr [])
     = Some (False, Ptr (CToken ''return''), Ptr ''expression expected after return.'')
   \<and> Stat_TypeCheck (CAstStatReturn (CToken ''return'')
         (Procedure (CSymProc ''f'' (Ptr CIntType) []))
         (Ptr (CAstConstant (CToken ''c'') (Ptr CCharType) 256))) (Ptr emptyToken, Ptr [])
     = Some (False, Ptr (CToken ''c''), Ptr ''invalid value for character type constant'')
   \<and> Stat_TypeCheck (CAstStatReturn (CToken ''return'')
         (Procedure (CSymProc ''f'' (Ptr CIntType) []))
         (Ptr (CAstConstant (CToken ''c'') (Ptr CCharType) 7))) (Ptr emptyToken, Ptr [])
     = Some (False, Ptr (CToken ''c''), Ptr ''return type mismatch.'')
   \<and> Stat_TypeCheck (CAstStatReturn (CToken ''return'')
         (Procedure (CSymProc ''f'' (Ptr CIntType) []))
         (Ptr (CAstConstant (CToken ''1'') (Ptr CIntType) 1))) (Ptr emptyToken, Ptr [])
     = Some (True, Ptr emptyToken, Ptr [])"
proof -
  let ?out = "(Ptr emptyToken, Ptr [])"
  let ?f = "Procedure (CSymProc ''f'' (Ptr CIntType) [])"
  have m: "Scope_GetType Module = Ptr CNullType" by simp
  have f: "Scope_GetType ?f = Ptr CIntType" by simp
  have c256: "TypeCheck (CAstConstant (CToken ''c'') (Ptr CCharType) 256) ?out
      = Some (False, Ptr (CToken ''c''), Ptr ''invalid value for character type constant'')"
    by (simp add: report_def)
  have c7: "TypeCheck (CAstConstant (CToken ''c'') (Ptr CCharType) 7) ?out = Some (True, ?out)"
    by simp
  have c1: "TypeCheck (CAstConstant (CToken ''1'') (Ptr CIntType) 1) ?out = Some (True, ?out)"
    by simp
  note A = Return_TypeCheck_cases [OF m, of "CToken ''return''" ?out
      "CAstConstant (CToken ''1'') (Ptr CIntType) 1"]
  note B = Return_TypeCheck_cases [OF f, of "CToken ''return''" ?out
      "CAstConstant (CToken ''c'') (Ptr CCharType) 256"
      "(Ptr (CToken ''c''), Ptr ''invalid value for character type constant'')"]
  note C = Return_TypeCheck_cases [OF f, of "CToken ''return''" ?out
      "CAstConstant (CToken ''c'') (Ptr CCharType) 7" ?out "Ptr CCharType"]
  note D = Return_TypeCheck_cases [OF f, of "CToken ''return''" ?out
      "CAstConstant (CToken ''1'') (Ptr CIntType) 1" ?out "Ptr CIntType"]
  have 1: "Match CNullType (Ptr CNullType)" by simp
  have 2: "\<not> Match CIntType (Ptr CNullType)" by simp
  from A 1 have a: "Stat_TypeCheck (CAstStatReturn (CToken ''return'') Module NULL) ?out
        = Some (True, ?out)"
      "Stat_TypeCheck (CAstStatReturn (CToken ''return'') Module
         (Ptr (CAstConstant (CToken ''1'') (Ptr CIntType) 1))) ?out
        = Some (False, Ptr (CToken ''1''), Ptr ''superfluous expression after return.'')"
    by simp_all
  from B 2 c256 have b: "Stat_TypeCheck (CAstStatReturn (CToken ''return'') ?f NULL) ?out
     = Some (False, Ptr (CToken ''return''), Ptr ''expression expected after return.'')"
     "Stat_TypeCheck (CAstStatReturn (CToken ''return'') ?f
         (Ptr (CAstConstant (CToken ''c'') (Ptr CCharType) 256))) ?out
     = Some (False, Ptr (CToken ''c''), Ptr ''invalid value for character type constant'')"
    by simp_all
  from C 2 c7 have c: "Stat_TypeCheck (CAstStatReturn (CToken ''return'') ?f
         (Ptr (CAstConstant (CToken ''c'') (Ptr CCharType) 7))) ?out
     = Some (False, Ptr (CToken ''c''), Ptr ''return type mismatch.'')"
    by simp
  from D 2 c1 have d: "Stat_TypeCheck (CAstStatReturn (CToken ''return'') ?f
         (Ptr (CAstConstant (CToken ''1'') (Ptr CIntType) 1))) ?out
     = Some (True, ?out)"
    by simp
  from a b c d show ?thesis by simp
qed

lemma checkStatements_append:
  "checkStatements chk (pre @ rest) out =
     (case checkStatements chk pre out of
        Returned True o1 \<Rightarrow> checkStatements chk rest o1
      | other \<Rightarrow> other)"
  by (induction pre arbitrary: out) (auto split: outcome.splits bool.splits)

lemma checkChildren_append:
  "checkChildren chk (pre @ rest) out =
     (case checkChildren chk pre out of
        Returned True o1 \<Rightarrow> checkChildren chk rest o1
      | other \<Rightarrow> other)"
proof (induction pre arbitrary: out)
  case Nil
  show ?case by simp
next
  case (Cons c pre)
  show ?case
  proof (cases "Scope_TypeCheck chk c out")
    case (Returned b o1)
    then show ?thesis using Cons by (cases b) simp_all
  qed simp_all
qed

lemma Scope_TypeCheck_not_Thrown: "Scope_TypeCheck chk sc out \<noteq> Thrown o'"
proof (cases sc)
  case (CAstScope t name kind statseq children)
  show ?thesis
    unfolding CAstScope
    by (simp split: outcome.splits bool.splits)
qed

lemma checkChildren_not_Thrown: "checkChildren chk cs out \<noteq> Thrown o'"
proof (induction cs arbitrary: out)
  case Nil
  show ?case by simp
next
  case (Cons c cs)
  show ?case
  proof (cases "Scope_TypeCheck chk c out")
    case (Returned b o1)
    then show ?thesis using Cons by (cases b) simp_all
  next
    case (Thrown o1)
    then show ?thesis by (simp add: Scope_TypeCheck_not_Thrown)
  next
    case Aborted
    then show ?thesis by simp
  qed
qed

text \<open>
  C9. The check of a scope runs through the statements in order, each on the output cells
  the previous one left, then through the child scopes in order. The first statement or
  child that returns false ends the traversal with its token and message; an exception
  thrown by a statement is turned into the result false; and no check of a scope ever
  lets an exception out.
\<close>

theorem Scope_TypeCheck_first_failure:
  "(checkStatements chk (pre @ [s]) out = Returned True o2) =
     (\<exists>o1. checkStatements chk pre out = Returned True o1 \<and> chk s o1 = Returned True o2)
   \<and> (checkStatements chk pre out = Returned True o1 \<and> chk s o1 = Returned False o2 \<longrightarrow>
        Scope_TypeCheck chk (CAstScope t name kind (pre @ s # post) children) out
          = Returned False o2)
   \<and> (checkStatements chk pre out = Returned True o1 \<and> chk s o1 = Thrown o2 \<longrightarrow>
        Scope_TypeCheck chk (CAstScope t name kind (pre @ s # post) children) out
          = Returned False o2)
   \<and> (checkStatements chk statseq out = Returned True o1 \<and>
        checkChildren chk cpre o1 = Returned True o3 \<and>
        Scope_TypeCheck chk c o3 = Returned False o4 \<longrightarrow>
        Scope_TypeCheck chk (CAstScope t name kind statseq (cpre @ c # cpost)) out
          = Returned False o4)
   \<and> (checkStatements chk statseq out = Returned True o1 \<and>
        checkChildren chk children o1 = Returned True o3 \<longrightarrow>
        Scope_TypeCheck chk (CAstScope t name kind statseq children) out = Returned True o3)
   \<and> Scope_TypeCheck chk sc out \<noteq> Thrown o5"
proof (intro conjI impI)
  show "(checkStatements chk (pre @ [s]) out = Returned True o2) =
     (\<exists>o1. checkStatements chk pre out = Returned True o1 \<and> chk s o1 = Returned True o2)"
    by (auto simp: checkStatements_append split: outcome.splits bool.splits)
next
  assume "checkStatements chk pre out = Returned True o1 \<and> chk s o1 = Returned False o2"
  then show "Scope_TypeCheck chk (CAstScope t name kind (pre @ s # post) children) out
          = Returned False o2"
    by (simp add: checkStatements_append)
next
  assume "checkStatements chk pre out = Returned True o1 \<and> chk s o1 = Thrown o2"
  then show "Scope_TypeCheck chk (CAstScope t name kind (pre @ s # post) children) out
          = Returned False o2"
    by (simp add: checkStatements_append)
next
  assume "checkStatements chk statseq out = Returned True o1 \<and>
        checkChildren chk cpre o1 = Returned True o3 \<and>
        Scope_TypeCheck chk c o3 = Returned False o4"
  then show "Scope_TypeCheck chk (CAstScope t name kind statseq (cpre @ c # cpost)) out
          = Returned False o4"
    by (simp add: checkChildren_append)
next
  assume "checkStatements chk statseq out = Returned True o1 \<and>
        checkChildren chk children o1 = Returned True o3"
  then show "Scope_TypeCheck chk (CAstScope t name kind statseq children) out = Returned True o3"
    by simp
next
  show "Scope_TypeCheck chk sc out \<noteq> Thrown o5"
    by (rule Scope_TypeCheck_not_Thrown)
qed


theorem Scope_TypeCheck_first_failure_witness:
  "Scope_TypeCheck
      (\<lambda>s out. case s of CAstStatBreak tk \<Rightarrow> Thrown out | other \<Rightarrow> Stat_outcome s out)
      (CAstScope (CToken ''m'') ''m'' Module
        ([CAstStatReturn (CToken ''r1'') Module NULL] @
          CAstStatReturn (CToken ''r2'') Module
            (Ptr (CAstConstant (CToken ''1'') (Ptr CIntType) 1)) #
         [CAstStatReturn (CToken ''r3'') (Procedure (CSymProc ''f'' (Ptr CIntType) [])) NULL])
        [])
      (Ptr emptyToken, Ptr [])
     = Returned False (Ptr (CToken ''1''), Ptr ''superfluous expression after return.'')
   \<and> Scope_TypeCheck
      (\<lambda>s out. case s of CAstStatBreak tk \<Rightarrow> Thrown out | other \<Rightarrow> Stat_outcome s out)
      (CAstScope (CToken ''m'') ''m'' Module
        ([CAstStatReturn (CToken ''r1'') Module NULL] @
          CAstStatBreak (CToken ''b'') #
         [CAstStatReturn (CToken ''r3'') (Procedure (CSymProc ''f'' (Ptr CIntType) [])) NULL])
        [])
      (Ptr emptyToken, Ptr [])
     = Returned False (Ptr emptyToken, Ptr [])
   \<and> Scope_TypeCheck
      (\<lambda>s out. case s of CAstStatBreak tk \<Rightarrow> Thrown out | other \<Rightarrow> Stat_outcome s out)
      (CAstScope (CToken ''m'') ''m'' Module
        [CAstStatReturn (CToken ''r1'') Module NULL]
        ([CAstScope (CToken ''p'') ''p'' (Procedure (CSymProc ''p'' (Ptr CNullType) [])) [] []] @
          CAstScope (CToken ''f'') ''f'' (Procedure (CSymProc ''f'' (Ptr CIntType) []))
            [CAstStatReturn (CToken ''r3'') (Procedure (CSymProc ''f'' (Ptr CIntType) [])) NULL]
            [] #
         []))
      (Ptr emptyToken, Ptr [])
     = Returned False (Ptr (CToken ''r3''), Ptr ''expression expected after return.'')
   \<and> Scope_TypeCheck
      (\<lambda>s out. case s of CAstStatBreak tk \<Rightarrow> Thrown out | other \<Rightarrow> Stat_outcome s out)
      (CAstScope (CToken ''m'') ''m'' Module
        [CAstStatReturn (CToken ''r1'') Module NULL]
        [CAstScope (CToken ''p'') ''p'' (Procedure (CSymProc ''p'' (Ptr CNullType) [])) [] []])
      (Ptr emptyToken, Ptr [])
     = Returned True (Ptr emptyToken, Ptr [])"
proof -
  let ?chk = "\<lambda>s out. case s of CAstStatBreak tk \<Rightarrow> Thrown out | other \<Rightarrow> Stat_outcome s out"
  let ?out = "(Ptr emptyToken, Ptr [])"
  let ?r1 = "CAstStatReturn (CToken ''r1'') Module NULL"
  let ?r2 = "CAstStatReturn (CToken ''r2'') Module
            (Ptr (CAstConstant (CToken ''1'') (Ptr CIntType) 1))"
  let ?r3 = "CAstStatReturn (CToken ''r3'') (Procedure (CSymProc ''f'' (Ptr CIntType) [])) NULL"
  let ?p = "CAstScope (CToken ''p'') ''p'' (Procedure (CSymProc ''p'' (Ptr CNullType) [])) [] []"
  let ?f = "CAstScope (CToken ''f'') ''f'' (Procedure (CSymProc ''f'' (Ptr CIntType) []))
            [?r3] []"
  have pre: "checkStatements ?chk [?r1] ?out = Returned True ?out"
    by (simp add: Stat_outcome_def)
  have bad: "?chk ?r2 ?out
      = Returned False (Ptr (CToken ''1''), Ptr ''superfluous expression after return.'')"
    by (simp add: Stat_outcome_def report_def)
  have thr: "?chk (CAstStatBreak (CToken ''b'')) ?out = Thrown ?out"
    by simp
  have cpre: "checkChildren ?chk [?p] ?out = Returned True ?out"
    by simp
  have cbad: "Scope_TypeCheck ?chk ?f ?out
      = Returned False (Ptr (CToken ''r3''), Ptr ''expression expected after return.'')"
    by (simp add: Stat_outcome_def report_def)
  note T = Scope_TypeCheck_first_failure [where chk = ?chk and out = ?out and ?o1.0 = ?out
      and t = "CToken ''m''" and name = "''m''" and kind = Module]
  from T [where pre = "[?r1]" and s = ?r2 and post = "[?r3]" and children = "[]"
      and ?o2.0 = "(Ptr (CToken ''1''), Ptr ''superfluous expression after return.'')"]
    pre bad
  have 1: "Scope_TypeCheck ?chk (CAstScope (CToken ''m'') ''m'' Module ([?r1] @ ?r2 # [?r3]) [])
      ?out = Returned False (Ptr (CToken ''1''), Ptr ''superfluous expression after return.'')"
    by blast
  from T [where pre = "[?r1]" and s = "CAstStatBreak (CToken ''b'')" and post = "[?r3]"
      and children = "[]" and ?o2.0 = ?out] pre thr
  have 2: "Scope_TypeCheck ?chk (CAstScope (CToken ''m'') ''m'' Module
      ([?r1] @ CAstStatBreak (CToken ''b'') # [?r3]) []) ?out = Returned False ?out"
    by blast
  from T [where statseq = "[?r1]" and cpre = "[?p]" and c = ?f and cpost = "[]"
      and ?o3.0 = ?out
      and ?o4.0 = "(Ptr (CToken ''r3''), Ptr ''expression expected after return.'')"]
    pre cpre cbad
  have 3: "Scope_TypeCheck ?chk (CAstScope (CToken ''m'') ''m'' Module [?r1] ([?p] @ ?f # []))
      ?out = Returned False (Ptr (CToken ''r3''), Ptr ''expression expected after return.'')"
    by blast
  from T [where statseq = "[?r1]" and children = "[?p]" and ?o3.0 = ?out] pre cpre
  have 4: "Scope_TypeCheck ?chk (CAstScope (CToken ''m'') ''m'' Module [?r1] [?p]) ?out
      = Returned True ?out"
    by blast
  from 1 2 3 4 show ?thesis by blast
qed


section \<open>Properties of construction and lowering\<close>

text \<open>
  C3. What the constructor of \<open>CAstSpecialOp\<close> does with the operator tag. Where the
  number of \<open>opCast\<close> is not 0, the first assertion holds for every tag, and the tag
  \<open>opAdd\<close> with a cast type is constructed; where it is 0, the tag \<open>opCast\<close> itself
  fails the assertion. The tag that is stored is always the tag that was passed.
\<close>

theorem SpecialOp_constructor_tags:
  "(number opCast \<noteq> 0 \<longrightarrow>
      new_CAstSpecialOp number t opAdd (Ptr e) (Ptr ty) = Some (CAstSpecialOp t opAdd e (Ptr ty)))
   \<and> (number opCast = 0 \<longrightarrow> new_CAstSpecialOp number t opCast (Ptr e) (Ptr ty) = None)
   \<and> (new_CAstSpecialOp number t oper p type = Some n \<longrightarrow>
        (\<exists>operand. p = Ptr operand \<and> n = CAstSpecialOp t oper operand type))"
  by (auto simp: new_CAstSpecialOp_def Let_def split: ptr.splits if_splits)

theorem SpecialOp_constructor_tags_witness:
  "new_CAstSpecialOp (\<lambda>oper. if oper = opAdd then 0 else 1) emptyToken opAdd
       (Ptr (CAstConstant emptyToken (Ptr CIntType) 0)) (Ptr CIntType)
     = Some (CAstSpecialOp emptyToken opAdd (CAstConstant emptyToken (Ptr CIntType) 0)
               (Ptr CIntType))
   \<and> new_CAstSpecialOp (\<lambda>oper. if oper = opCast then 0 else 1) emptyToken opCast
       (Ptr (CAstConstant emptyToken (Ptr CIntType) 0)) (Ptr CIntType) = None"
proof -
  have a: "(\<lambda>oper. if oper = opAdd then 0 else (1::int)) opCast \<noteq> 0" by simp
  have b: "(\<lambda>oper. if oper = opCast then 0 else (1::int)) opCast = 0" by simp
  from a SpecialOp_constructor_tags [of "\<lambda>oper. if oper = opAdd then 0 else 1" emptyToken
      "CAstConstant emptyToken (Ptr CIntType) 0" CIntType]
  have 1: "new_CAstSpecialOp (\<lambda>oper. if oper = opAdd then 0 else 1) emptyToken opAdd
       (Ptr (CAstConstant emptyToken (Ptr CIntType) 0)) (Ptr CIntType)
     = Some (CAstSpecialOp emptyToken opAdd (CAstConstant emptyToken (Ptr CIntType) 0)
               (Ptr CIntType))"
    by blast
  from b SpecialOp_constructor_tags [of "\<lambda>oper. if oper = opCast then 0 else 1" emptyToken
      "CAstConstant emptyToken (Ptr CIntType) 0" CIntType]
  have 2: "new_CAstSpecialOp (\<lambda>oper. if oper = opCast then 0 else 1) emptyToken opCast
       (Ptr (CAstConstant emptyToken (Ptr CIntType) 0)) (Ptr CIntType) = None"
    by blast
  from 1 2 show ?thesis by blast
qed

lemma sint_ucast_64_32:
  "sint (ucast (v :: 64 word) :: 32 word) = signed_take_bit 31 (sint v)"
  by (simp add: sint_uint unsigned_ucast_eq signed_take_bit_take_bit)

lemma uint_ucast_64_32:
  "uint (ucast (v :: 64 word) :: 32 word) = sint v mod 2 ^ 32"
proof -
  have "uint (ucast v :: 32 word) = take_bit 32 (uint v)"
    by (simp add: unsigned_ucast_eq)
  also have "\<dots> = take_bit 32 (take_bit 64 (sint v))"
    by (simp add: sint_uint take_bit_signed_take_bit)
  also have "\<dots> = take_bit 32 (sint v)"
    by simp
  finally show ?thesis by (simp add: take_bit_eq_mod)
qed

lemma Constant_TypeCheck_True_range:
  assumes "TypeCheck (CAstConstant t ty v) out = Some (True, o')"
  shows "- (2 ^ 31) \<le> sint v \<and> sint v \<le> 2 ^ 31 - 1"
proof -
  from assms obtain cty where "ty = Ptr cty" by (cases ty) simp_all
  with assms show ?thesis
    by (cases cty) (auto simp: report_def split: if_splits)
qed

text \<open>
  C10. The value mode of a constant emits the low 32 bits of its 64-bit value and leaves
  the code block as it is. For a constant that passes \<open>TypeCheck\<close> the emitted constant
  is the stored value; for a value outside \<open>[-2^31, 2^31 - 1]\<close> it is not, it is the value
  modulo \<open>2^32\<close>.
\<close>

theorem Constant_ToTac_truncates:
  "ToTac GetSize (CAstConstant t ty v) cb =
     Some (Ptr (CTacConst (ucast v)), cb, CAstConstant t ty v)
   \<and> uint (ucast v :: 32 word) = sint v mod 2 ^ 32
   \<and> ((\<exists>o'. TypeCheck (CAstConstant t ty v) out = Some (True, o')) \<longrightarrow>
        sint (ucast v :: 32 word) = sint v)
   \<and> (sint v < - (2 ^ 31) \<or> 2 ^ 31 - 1 < sint v \<longrightarrow> sint (ucast v :: 32 word) \<noteq> sint v)"
proof (intro conjI impI)
  show "ToTac GetSize (CAstConstant t ty v) cb =
     Some (Ptr (CTacConst (ucast v)), cb, CAstConstant t ty v)"
    by simp
  show "uint (ucast v :: 32 word) = sint v mod 2 ^ 32"
    by (rule uint_ucast_64_32)
next
  assume "\<exists>o'. TypeCheck (CAstConstant t ty v) out = Some (True, o')"
  then have "- (2 ^ 31) \<le> sint v \<and> sint v \<le> 2 ^ 31 - 1"
    by (blast dest: Constant_TypeCheck_True_range)
  then have "signed_take_bit 31 (sint v) = sint v"
    by (simp add: signed_take_bit_int_eq_self_iff)
  then show "sint (ucast v :: 32 word) = sint v"
    by (simp add: sint_ucast_64_32)
next
  assume "sint v < - (2 ^ 31) \<or> 2 ^ 31 - 1 < sint v"
  then have "signed_take_bit 31 (sint v) \<noteq> sint v"
    by (auto simp: signed_take_bit_int_eq_self_iff)
  then show "sint (ucast v :: 32 word) \<noteq> sint v"
    by (simp add: sint_ucast_64_32)
qed

theorem Constant_ToTac_truncates_witness:
  "sint (ucast (7 :: 64 word) :: 32 word) = sint (7 :: 64 word)
   \<and> sint (ucast (4294967301 :: 64 word) :: 32 word) \<noteq> sint (4294967301 :: 64 word)
   \<and> ToTac (\<lambda>ty. 4) (CAstConstant emptyToken (Ptr CIntType) 4294967301)
        \<lparr>instrs = [], nlabels = 0, ntemps = 0, FindSymbol = (\<lambda>n. NULL)\<rparr>
       = Some (Ptr (CTacConst 5), \<lparr>instrs = [], nlabels = 0, ntemps = 0, FindSymbol = (\<lambda>n. NULL)\<rparr>,
               CAstConstant emptyToken (Ptr CIntType) 4294967301)"
proof -
  have a: "\<exists>o'. TypeCheck (CAstConstant emptyToken (Ptr CIntType) 7) (NULL, NULL) = Some (True, o')"
    by simp
  have b: "sint (4294967301 :: 64 word) < - (2 ^ 31) \<or> 2 ^ 31 - 1 < sint (4294967301 :: 64 word)"
    by simp
  from a Constant_ToTac_truncates [of "\<lambda>ty. 4" emptyToken "Ptr CIntType" 7
      "\<lparr>instrs = [], nlabels = 0, ntemps = 0, FindSymbol = (\<lambda>n. NULL)\<rparr>" "(NULL, NULL)"]
  have 1: "sint (ucast (7 :: 64 word) :: 32 word) = sint (7 :: 64 word)" by blast
  from b Constant_ToTac_truncates [of "\<lambda>ty. 4" emptyToken "Ptr CIntType" 4294967301
      "\<lparr>instrs = [], nlabels = 0, ntemps = 0, FindSymbol = (\<lambda>n. NULL)\<rparr>" "(NULL, NULL)"]
  have 2: "sint (ucast (4294967301 :: 64 word) :: 32 word) \<noteq> sint (4294967301 :: 64 word)"
    and 3: "ToTac (\<lambda>ty. 4) (CAstConstant emptyToken (Ptr CIntType) 4294967301)
        \<lparr>instrs = [], nlabels = 0, ntemps = 0, FindSymbol = (\<lambda>n. NULL)\<rparr>
       = Some (Ptr (CTacConst (ucast (4294967301 :: 64 word))),
           \<lparr>instrs = [], nlabels = 0, ntemps = 0, FindSymbol = (\<lambda>n. NULL)\<rparr>,
           CAstConstant emptyToken (Ptr CIntType) 4294967301)"
    by blast+
  have "(ucast (4294967301 :: 64 word) :: 32 word) = 5" by simp
  with 1 2 3 show ?thesis by simp
qed

lemma fillIndices_fst:
  "cnt \<le> length idx \<Longrightarrow>
     fst (fillIndices ty cnt idx) =
       idx @ replicate ((cnt + rank ty) - length idx) (CAstConstant emptyToken (Ptr CIntType) 0)"
proof (induction ty cnt idx rule: fillIndices.induct)
  case (1 n inner cnt idx)
  show ?case
  proof (cases "cnt \<ge> length idx")
    case True
    with "1.prems" have eq: "cnt = length idx" by simp
    with "1.IH" have "fst (fillIndices inner (Suc cnt)
        (idx @ [CAstConstant emptyToken (Ptr CIntType) 0])) =
      (idx @ [CAstConstant emptyToken (Ptr CIntType) 0]) @
        replicate (rank inner) (CAstConstant emptyToken (Ptr CIntType) 0)"
      by simp
    with eq show ?thesis by (simp add: replicate_app_Cons_same)
  next
    case False
    with "1.IH" have "fst (fillIndices inner (Suc cnt) idx) =
      idx @ replicate ((Suc cnt + rank inner) - length idx)
        (CAstConstant emptyToken (Ptr CIntType) 0)"
      by simp
    with False show ?thesis by simp
  qed
qed simp_all

lemma mkAddress_idx:
  assumes "mkAddress GetSize cb symbol idx = Some (idx', address)"
  shows "idx' = idx @ replicate (symbolRank symbol - length idx)
                  (CAstConstant emptyToken (Ptr CIntType) 0)"
proof -
  from assms obtain st where st: "deref (sym_type symbol) = Some st"
    by (auto simp: mkAddress_def split: option.splits)
  define arrayType where "arrayType =
     (case st of CPointerType base \<Rightarrow> as_CArrayType base | other \<Rightarrow> as_CArrayType (Ptr st))"
  define arrayPointer where "arrayPointer =
     (case st of CPointerType base \<Rightarrow> CAstDesignator emptyToken symbol
      | other \<Rightarrow> CAstSpecialOp emptyToken opAddress (CAstDesignator emptyToken symbol) NULL)"
  have pair: "(case st of
               CPointerType base \<Rightarrow> (as_CArrayType base, CAstDesignator emptyToken symbol)
             | other \<Rightarrow> (as_CArrayType (Ptr st),
                 CAstSpecialOp emptyToken opAddress (CAstDesignator emptyToken symbol) NULL))
       = (arrayType, arrayPointer)"
    by (cases st) (simp_all add: arrayType_def arrayPointer_def)
  from assms st pair obtain aty where aty: "arrayType = Ptr aty"
    by (cases arrayType) (simp_all add: mkAddress_def)
  have rk: "rank aty = symbolRank symbol"
  proof (cases symbol)
    case (CSymbol n ty)
    with st have ty: "ty = Ptr st" by (cases ty) simp_all
    show ?thesis
    proof (cases st)
      case (CPointerType base)
      with aty have "base = Ptr aty"
        by (cases base rule: as_CArrayType.cases) (simp_all add: arrayType_def)
      with CSymbol ty CPointerType show ?thesis by simp
    next
      case (CArrayType m inner)
      with aty have "aty = st" by (simp add: arrayType_def)
      with CSymbol ty CArrayType show ?thesis by simp
    qed (use aty in \<open>simp_all add: arrayType_def\<close>)
  qed
  obtain idx1 t1 where fi: "fillIndices aty 0 idx = (idx1, t1)"
    by (cases "fillIndices aty 0 idx")
  from assms st pair aty fi have "idx' = idx1"
    by (auto simp: mkAddress_def Let_def split: option.splits ptr.splits)
  moreover from fillIndices_fst [of 0 idx aty] fi rk
  have "idx1 = idx @ replicate (symbolRank symbol - length idx)
                  (CAstConstant emptyToken (Ptr CIntType) 0)"
    by simp
  ultimately show ?thesis by simp
qed

lemma ToTac_arith:
  assumes "ToTac g (CAstBinaryOp t oper l r) cb = Some (a, cb', e')"
    and "oper = opAdd \<or> oper = opMul"
  shows "\<exists>lhs cb1 l' rhs cb2 r'. ToTac g l cb = Some (lhs, cb1, l') \<and>
           ToTac g r cb1 = Some (rhs, cb2, r') \<and> e' = CAstBinaryOp t oper l' r'"
  using assms by (auto simp: CreateTemp_def split: Option.bind_splits)

lemma mkOffset_shape:
  assumes "mkOffset d p S xs i off = Some (Ptr T)" and "xs \<noteq> []"
    and "i = 0 \<or> (\<exists>pv. off = Ptr pv \<and> offsetShape i pv)"
  shows "offsetShape (i + length xs) T"
  using assms
proof (induction xs arbitrary: i off)
  case Nil
  then show ?case by simp
next
  case (Cons x rest)
  define off1 where "off1 = (if i = 0 then x
     else CAstBinaryOp emptyToken opAdd (case off of Ptr pv \<Rightarrow> pv | NULL \<Rightarrow> x) x)"
  have sh: "offsetShape (Suc i) (CAstBinaryOp emptyToken opMul off1 m)" for m
  proof (cases i)
    case 0
    then show ?thesis by (simp add: off1_def)
  next
    case (Suc k)
    with Cons.prems(3) obtain pv where "off = Ptr pv" "offsetShape (Suc k) pv" by auto
    with Suc show ?thesis by (simp add: off1_def)
  qed
  have o1: "(if i = 0 then Some x
            else (case off of NULL \<Rightarrow> None
                  | Ptr pv \<Rightarrow> Some (CAstBinaryOp emptyToken opAdd pv x))) = Some off1"
    using Cons.prems(3) by (auto simp: off1_def)
  show ?case
  proof (cases "rest = []")
    case True
    with Cons.prems(1) o1
    have "T = CAstBinaryOp emptyToken opMul off1
                (CAstConstant emptyToken (Ptr CIntType) (scast S))"
      by simp
    with sh True show ?thesis by simp
  next
    case False
    with Cons.prems(1) o1 obtain dim where
      r: "mkOffset d p S rest (Suc i)
            (Ptr (CAstBinaryOp emptyToken opMul off1
               (CAstFunctionCall emptyToken dim
                  [p, CAstConstant emptyToken (Ptr CIntType) (of_nat (i + 2))]))) = Some (Ptr T)"
      by (cases d) simp_all
    from Cons.IH [OF r False] sh show ?thesis by simp
  qed
qed

lemma mkAddress_shape:
  assumes "mkAddress GetSize cb symbol idx = Some (idx', address)"
  shows "\<exists>p off d. address = CAstBinaryOp emptyToken opAdd p (CAstBinaryOp emptyToken opAdd off d)
           \<and> offsetShape (length idx') off"
proof -
  from assms obtain dimSym p S off d where
    m: "mkOffset dimSym p S idx' 0 NULL = Some (Ptr off)" and
    a: "address = CAstBinaryOp emptyToken opAdd p (CAstBinaryOp emptyToken opAdd off d)"
    by (auto simp: mkAddress_def Let_def simp del: mkOffset.simps
        split: option.splits ptr.splits prod.splits)
  from m have "idx' \<noteq> []" by auto
  from mkOffset_shape [OF m this] a show ?thesis by auto
qed

lemma ToTac_offsetShape:
  "offsetShape n T \<Longrightarrow> ToTac g T cb = Some (a, cb', T') \<Longrightarrow>
     offsetShape n T' \<and> length (offsetIndices n T') = n"
proof (induction n T arbitrary: cb a cb' T' rule: offsetShape.induct)
  case (1 t oper x m)
  then have op: "oper = opMul" by simp
  with ToTac_arith [OF "1.prems"(2)] obtain x' m' where
    "T' = CAstBinaryOp t oper x' m'" by auto
  with op show ?case by simp
next
  case (2 n t oper t' oper' prev x m)
  then have op: "oper = opMul" "oper' = opAdd" and sh: "offsetShape (Suc n) prev" by simp_all
  from ToTac_arith [OF "2.prems"(2)] op obtain lhs cb1 L' m' where
    l: "ToTac g (CAstBinaryOp t' oper' prev x) cb = Some (lhs, cb1, L')" and
    T': "T' = CAstBinaryOp t oper L' m'"
    by auto
  from ToTac_arith [OF l] op obtain pa cb0 prev' x' where
    p: "ToTac g prev cb = Some (pa, cb0, prev')" and L': "L' = CAstBinaryOp t' oper' prev' x'"
    by auto
  from "2.IH" [OF sh p] T' L' op show ?case by simp
qed simp_all

lemma ToTac_node_indices:
  assumes "ToTac_node GetSize n cb = Some (r, cb', n')"
  shows "node_done n' = node_done n \<and> node_symbol n' = node_symbol n \<and>
         node_token n' = node_token n \<and>
         GetNIndices n' = max (GetNIndices n) (symbolRank (node_symbol n))"
proof -
  obtain t symbol idx dn where n: "n = ArrayDesignator t symbol idx dn" by (cases n)
  from assms n obtain idx' address result cb1 address' where
    mk: "mkAddress GetSize cb symbol idx = Some (idx', address)" and
    lo: "ToTac GetSize address cb = Some (result, cb1, address')" and
    n': "n' = ArrayDesignator t symbol (addressIndices (length idx') address') dn"
    by (auto simp: ToTac_node_def Let_def CreateTemp_def
        split: Option.bind_splits ptr.splits)
  from mkAddress_shape [OF mk] obtain p off d where
    a: "address = CAstBinaryOp emptyToken opAdd p (CAstBinaryOp emptyToken opAdd off d)" and
    sh: "offsetShape (length idx') off"
    by blast
  from ToTac_arith [OF lo [unfolded a]] obtain pa cb0 p' ra cb2 R' where
    "ToTac GetSize p cb = Some (pa, cb0, p')" and
    r: "ToTac GetSize (CAstBinaryOp emptyToken opAdd off d) cb0 = Some (ra, cb2, R')" and
    a': "address' = CAstBinaryOp emptyToken opAdd p' R'"
    by auto
  from ToTac_arith [OF r] obtain oa cb3 off' d' where
    o: "ToTac GetSize off cb0 = Some (oa, cb3, off')" and
    R': "R' = CAstBinaryOp emptyToken opAdd off' d'"
    by auto
  from ToTac_offsetShape [OF sh o] a' R'
  have "length (addressIndices (length idx') address') = length idx'" by simp
  moreover from mkAddress_idx [OF mk]
  have "length idx' = max (length idx) (symbolRank symbol)" by auto
  ultimately show ?thesis using n n' by (simp add: GetNIndices_def)
qed

text \<open>
  C4, as the code has it. Once \<open>IndicesComplete()\<close> has run, \<open>AddIndex\<close> and a second
  \<open>IndicesComplete\<close> fail their assertion. \<open>ToTac\<close> does not go through \<open>AddIndex\<close>: it
  appends to \<open>_idx\<close> itself, until there are as many indices as the array has dimensions.
  A closed designator with \<open>n\<close> indices over an array of \<open>R\<close> dimensions leaves \<open>ToTac\<close>
  closed, with \<open>max n R\<close> indices: more than it had whenever \<open>n < R\<close>.
\<close>

theorem ArrayDesignator_closed:
  assumes "node_done n"
  shows "AddIndex n e = None \<and> IndicesComplete n = None
    \<and> (ToTac_node GetSize n cb = Some (r, cb', n') \<longrightarrow>
         node_done n' \<and> node_symbol n' = node_symbol n \<and>
         GetNIndices n' = max (GetNIndices n) (symbolRank (node_symbol n)) \<and>
         (GetNIndices n < symbolRank (node_symbol n) \<longrightarrow> GetNIndices n < GetNIndices n'))"
proof (intro conjI impI)
  show "AddIndex n e = None" using assms by (cases n) simp
  show "IndicesComplete n = None" using assms by (cases n) simp
next
  assume a: "ToTac_node GetSize n cb = Some (r, cb', n')"
  note i = ToTac_node_indices [OF a]
  show "node_done n'" using i assms by simp
  show "node_symbol n' = node_symbol n" using i by simp
  show "GetNIndices n' = max (GetNIndices n) (symbolRank (node_symbol n))" using i by simp
  show "GetNIndices n < GetNIndices n'" if "GetNIndices n < symbolRank (node_symbol n)"
    using i that by simp
qed

theorem ArrayDesignator_closed_witness:
  "IndicesComplete (ArrayDesignator (CToken ''a'')
        (CSymbol ''a'' (Ptr (CArrayType (Some 3) (CArrayType (Some 4) CIntType))))
        [CAstConstant (CToken ''1'') (Ptr CIntType) 1] False)
     = Some (ArrayDesignator (CToken ''a'')
        (CSymbol ''a'' (Ptr (CArrayType (Some 3) (CArrayType (Some 4) CIntType))))
        [CAstConstant (CToken ''1'') (Ptr CIntType) 1] True)
   \<and> AddIndex (ArrayDesignator (CToken ''a'')
        (CSymbol ''a'' (Ptr (CArrayType (Some 3) (CArrayType (Some 4) CIntType))))
        [CAstConstant (CToken ''1'') (Ptr CIntType) 1] True)
      (CAstConstant (CToken ''2'') (Ptr CIntType) 2) = None
   \<and> (\<exists>r cb' n'.
        ToTac_node (\<lambda>ty. 4)
         (ArrayDesignator (CToken ''a'')
           (CSymbol ''a'' (Ptr (CArrayType (Some 3) (CArrayType (Some 4) CIntType))))
           [CAstConstant (CToken ''1'') (Ptr CIntType) 1] True)
         \<lparr>instrs = [], nlabels = 0, ntemps = 0,
          FindSymbol = (\<lambda>n. if n = ''DIM'' then Ptr (ProcEntry (CSymProc ''DIM'' (Ptr CIntType)
                 [Ptr (CPointerType (Ptr CNullType)), Ptr CIntType]))
            else if n = ''DOFS'' then Ptr (ProcEntry (CSymProc ''DOFS'' (Ptr CIntType)
                 [Ptr (CPointerType (Ptr CNullType))]))
            else NULL)\<rparr> = Some (r, cb', n')
        \<and> node_done n' \<and> GetNIndices n' = 2
        \<and> node_idx n' = [CAstConstant (CToken ''1'') (Ptr CIntType) 1,
                          CAstConstant emptyToken (Ptr CIntType) 0])
   \<and> GetNIndices (ArrayDesignator (CToken ''a'')
        (CSymbol ''a'' (Ptr (CArrayType (Some 3) (CArrayType (Some 4) CIntType))))
        [CAstConstant (CToken ''1'') (Ptr CIntType) 1] True) = 1"
proof -
  let ?n = "ArrayDesignator (CToken ''a'')
        (CSymbol ''a'' (Ptr (CArrayType (Some 3) (CArrayType (Some 4) CIntType))))
        [CAstConstant (CToken ''1'') (Ptr CIntType) 1] True"
  let ?cb = "\<lparr>instrs = [], nlabels = 0, ntemps = 0,
          FindSymbol = (\<lambda>n. if n = ''DIM'' then Ptr (ProcEntry (CSymProc ''DIM'' (Ptr CIntType)
                 [Ptr (CPointerType (Ptr CNullType)), Ptr CIntType]))
            else if n = ''DOFS'' then Ptr (ProcEntry (CSymProc ''DOFS'' (Ptr CIntType)
                 [Ptr (CPointerType (Ptr CNullType))]))
            else NULL)\<rparr>"
  have d: "node_done ?n" by simp
  have "\<exists>r cb'. ToTac_node (\<lambda>ty. 4) ?n ?cb =
      Some (r, cb', ArrayDesignator (CToken ''a'')
        (CSymbol ''a'' (Ptr (CArrayType (Some 3) (CArrayType (Some 4) CIntType))))
        [CAstConstant (CToken ''1'') (Ptr CIntType) 1,
         CAstConstant emptyToken (Ptr CIntType) 0] True)"
    by (simp add: ToTac_node_def mkAddress_def CreateTemp_def CreateLabel_def
      AddInstr_def AddInstrs_def Let_def emptyToken_def)
  then obtain r cb' n' where t: "ToTac_node (\<lambda>ty. 4) ?n ?cb = Some (r, cb', n')"
    and i: "node_idx n' = [CAstConstant (CToken ''1'') (Ptr CIntType) 1,
                          CAstConstant emptyToken (Ptr CIntType) 0]"
    by auto
  note T = ArrayDesignator_closed [OF d, of "CAstConstant (CToken ''2'') (Ptr CIntType) 2"
      "\<lambda>ty. 4" ?cb r cb' n']
  from T have 1: "AddIndex ?n (CAstConstant (CToken ''2'') (Ptr CIntType) 2) = None"
    by blast
  from T t have "node_done n'"
    and "GetNIndices n' = max (GetNIndices ?n) (symbolRank (node_symbol ?n))"
    by blast+
  then have 2: "node_done n'" "GetNIndices n' = 2"
    by (simp_all add: GetNIndices_def)
  have 0: "IndicesComplete (ArrayDesignator (CToken ''a'')
        (CSymbol ''a'' (Ptr (CArrayType (Some 3) (CArrayType (Some 4) CIntType))))
        [CAstConstant (CToken ''1'') (Ptr CIntType) 1] False) = Some ?n"
    by simp
  have 3: "GetNIndices ?n = 1" by (simp add: GetNIndices_def)
  from 0 1 t 2 i 3 show ?thesis by blast
qed

text \<open>
  Two evaluations. Lowering \<open>v[b[1]]\<close>, with \<open>b\<close> of two dimensions, leaves \<open>b[1,0]\<close> in the
  index list of \<open>v\<close>: the index is changed in place. The temporary that holds \<open>&(a[1])\<close>
  has the type pointer to integer: \<open>CAstSpecialOp::ToTac\<close> reads \<open>GetType()\<close> after the
  operand was lowered, when it has become \<open>a[1,0]\<close>.
\<close>

lemma ToTac_changes_shared_index:
  "map_option (\<lambda>(r, cb, n). node_idx n)
     (ToTac_node (\<lambda>ty. 4)
        (ArrayDesignator (CToken ''v'') (CSymbol ''v'' (Ptr (CArrayType (Some 5) CIntType)))
           [CAstArrayDesignator (CToken ''b'')
              (CSymbol ''b'' (Ptr (CArrayType (Some 3) (CArrayType (Some 4) CIntType))))
              [CAstConstant (CToken ''1'') (Ptr CIntType) 1] True] True)
        \<lparr>instrs = [], nlabels = 0, ntemps = 0,
          FindSymbol = (\<lambda>n. if n = ''DIM'' then Ptr (ProcEntry (CSymProc ''DIM'' (Ptr CIntType)
                 [Ptr (CPointerType (Ptr CNullType)), Ptr CIntType]))
            else if n = ''DOFS'' then Ptr (ProcEntry (CSymProc ''DOFS'' (Ptr CIntType)
                 [Ptr (CPointerType (Ptr CNullType))]))
            else NULL)\<rparr>)
   = Some [CAstArrayDesignator (CToken ''b'')
              (CSymbol ''b'' (Ptr (CArrayType (Some 3) (CArrayType (Some 4) CIntType))))
              [CAstConstant (CToken ''1'') (Ptr CIntType) 1,
               CAstConstant emptyToken (Ptr CIntType) 0] True]"
  by (simp add: ToTac_node_def mkAddress_def CreateTemp_def CreateLabel_def
      AddInstr_def AddInstrs_def Let_def emptyToken_def)

lemma ToTac_address_of_row:
  "map_option (\<lambda>(r, cb, e). r)
     (ToTac (\<lambda>ty. 4)
        (CAstSpecialOp (CToken ''&'') opAddress
           (CAstArrayDesignator (CToken ''a'')
              (CSymbol ''a'' (Ptr (CArrayType (Some 3) (CArrayType (Some 4) CIntType))))
              [CAstConstant (CToken ''1'') (Ptr CIntType) 1] True) NULL)
        \<lparr>instrs = [], nlabels = 0, ntemps = 0,
          FindSymbol = (\<lambda>n. if n = ''DIM'' then Ptr (ProcEntry (CSymProc ''DIM'' (Ptr CIntType)
                 [Ptr (CPointerType (Ptr CNullType)), Ptr CIntType]))
            else if n = ''DOFS'' then Ptr (ProcEntry (CSymProc ''DOFS'' (Ptr CIntType)
                 [Ptr (CPointerType (Ptr CNullType))]))
            else NULL)\<rparr>)
   = Some (Ptr (CTacTemp 10 (Ptr (CPointerType (Ptr CIntType)))))"
  by (simp add: mkAddress_def CreateTemp_def CreateLabel_def
      AddInstr_def AddInstrs_def Let_def emptyToken_def)


section \<open>Properties of the lowering\<close>

lemma targets_simps [simp]:
  "targets [] = {}" "targets (i # is) = target_of i \<union> targets is"
  "targets (xs @ ys) = targets xs \<union> targets ys"
  by (auto simp: targets_def)

lemma labels_simps [simp]:
  "labels [] = {}" "labels (i # is) = label_of i \<union> labels is"
  "labels (xs @ ys) = labels xs \<union> labels ys"
  by (auto simp: labels_def)

lemma target_of_Goto [simp]: "target_of (Goto l) = {l}" "label_of (Goto l) = {}"
  by (simp_all add: Goto_def)

lemma AddInstrs_eq: "AddInstrs is cb = cb\<lparr>instrs := instrs cb @ is\<rparr>"
proof (induction "is" arbitrary: cb)
  case Nil
  show ?case by (simp add: AddInstrs_def)
next
  case (Cons i "is")
  from Cons [of "AddInstr i cb"] show ?case
    by (simp add: AddInstrs_def AddInstr_def)
qed

lemma extends_iff:
  "extends cb cb' =
     ((\<exists>is. instrs cb' = instrs cb @ is) \<and> nlabels cb \<le> nlabels cb' \<and>
      ntemps cb \<le> ntemps cb' \<and> FindSymbol cb' = FindSymbol cb)"
proof -
  have "(take (length (instrs cb)) (instrs cb') = instrs cb \<and>
         length (instrs cb) \<le> length (instrs cb')) = (\<exists>is. instrs cb' = instrs cb @ is)"
    by (metis append_eq_conv_conj append_take_drop_id le_add1 length_append)
  then show ?thesis unfolding extends_def by blast
qed

lemma extends_emitted: "extends cb cb' \<Longrightarrow> instrs cb' = instrs cb @ emitted cb cb'"
  by (auto simp: extends_iff emitted_def)

lemma extends_refl [simp]: "extends cb cb"
  by (simp add: extends_def)

lemma extends_trans: "extends cb cb1 \<Longrightarrow> extends cb1 cb2 \<Longrightarrow> extends cb cb2"
  by (auto simp: extends_iff)

lemma emitted_trans:
  "extends cb cb1 \<Longrightarrow> extends cb1 cb2 \<Longrightarrow> emitted cb cb2 = emitted cb cb1 @ emitted cb1 cb2"
  by (auto simp: extends_iff emitted_def)

lemma code_ok_extends: "code_ok T D cb cb' \<Longrightarrow> extends cb cb'"
  by (simp add: code_ok_def)

lemma code_ok_nlabels: "code_ok T D cb cb' \<Longrightarrow> nlabels cb \<le> nlabels cb'"
  by (simp add: code_ok_def extends_def)

lemma code_ok_trans:
  assumes "code_ok T D cb cb1" and "code_ok T D cb1 cb2"
  shows "code_ok T D cb cb2"
proof -
  from assms have e: "extends cb cb1" "extends cb1 cb2"
    by (simp_all add: code_ok_def)
  then have n: "nlabels cb \<le> nlabels cb1" "nlabels cb1 \<le> nlabels cb2"
    by (simp_all add: extends_def)
  have em: "emitted cb cb2 = emitted cb cb1 @ emitted cb1 cb2"
    using e by (rule emitted_trans)
  from n have r: "{nlabels cb..<nlabels cb1} \<subseteq> {nlabels cb..<nlabels cb2}"
    "{nlabels cb1..<nlabels cb2} \<subseteq> {nlabels cb..<nlabels cb2}"
    by auto
  from assms r have "targets (emitted cb cb2) \<subseteq> T \<union> {nlabels cb..<nlabels cb2}"
    unfolding em code_ok_def by (simp only: targets_simps) blast
  moreover from assms r have "labels (emitted cb cb2) \<subseteq> D \<union> {nlabels cb..<nlabels cb2}"
    unfolding em code_ok_def by (simp only: labels_simps) blast
  ultimately show ?thesis
    using extends_trans [OF e] by (simp add: code_ok_def)
qed

lemma code_ok_weaken:
  assumes "code_ok T D cb cb'"
    and "T \<subseteq> T' \<union> {nlabels cb..<nlabels cb'}" and "D \<subseteq> D' \<union> {nlabels cb..<nlabels cb'}"
  shows "code_ok T' D' cb cb'"
  using assms unfolding code_ok_def by blast

lemma code_ok_mono:
  "code_ok T D cb cb' \<Longrightarrow> T \<subseteq> T' \<Longrightarrow> D \<subseteq> D' \<Longrightarrow> code_ok T' D' cb cb'"
  by (rule code_ok_weaken) auto

lemma code_ok_same_instrs:
  "instrs cb' = instrs cb \<Longrightarrow> nlabels cb \<le> nlabels cb' \<Longrightarrow> ntemps cb \<le> ntemps cb' \<Longrightarrow>
     FindSymbol cb' = FindSymbol cb \<Longrightarrow> code_ok T D cb cb'"
  by (simp add: code_ok_def extends_def emitted_def)

lemma code_ok_refl [simp]: "code_ok T D cb cb"
  by (simp add: code_ok_same_instrs)

lemma code_ok_AddInstrs:
  "targets is \<subseteq> T \<Longrightarrow> labels is \<subseteq> D \<Longrightarrow> code_ok T D cb (AddInstrs is cb)"
  by (auto simp: code_ok_def extends_def emitted_def AddInstrs_eq)

lemma code_ok_AddInstr:
  "target_of i \<subseteq> T \<Longrightarrow> label_of i \<subseteq> D \<Longrightarrow> code_ok T D cb (AddInstr i cb)"
  by (auto simp: code_ok_def extends_def emitted_def AddInstr_def)

lemma code_ok_then_AddInstrs:
  "code_ok T D cb cb1 \<Longrightarrow> targets is \<subseteq> T \<Longrightarrow> labels is \<subseteq> D \<Longrightarrow>
     code_ok T D cb (AddInstrs is cb1)"
  by (blast intro: code_ok_trans code_ok_AddInstrs)

lemma code_ok_then_AddInstr:
  "code_ok T D cb cb1 \<Longrightarrow> target_of i \<subseteq> T \<Longrightarrow> label_of i \<subseteq> D \<Longrightarrow>
     code_ok T D cb (AddInstr i cb1)"
  by (blast intro: code_ok_trans code_ok_AddInstr)

lemma code_ok_temp: "code_ok T D cb (cb\<lparr>ntemps := Suc (ntemps cb)\<rparr>)"
  by (simp add: code_ok_same_instrs)

lemma code_ok_label: "code_ok T D cb (cb\<lparr>nlabels := Suc (nlabels cb)\<rparr>)"
  by (simp add: code_ok_same_instrs)

lemma code_ok_then_temp:
  "code_ok T D cb cb1 \<Longrightarrow> code_ok T D cb (cb1\<lparr>ntemps := Suc (ntemps cb1)\<rparr>)"
  by (blast intro: code_ok_trans code_ok_temp)

lemma code_ok_after_temp:
  "code_ok T D (cb\<lparr>ntemps := Suc (ntemps cb)\<rparr>) cb' \<Longrightarrow> code_ok T D cb cb'"
  by (blast intro: code_ok_trans code_ok_temp)

lemma code_ok_after_label:
  "code_ok T D (cb\<lparr>nlabels := Suc (nlabels cb)\<rparr>) cb' \<Longrightarrow> code_ok T D cb cb'"
  by (blast intro: code_ok_trans code_ok_label)

lemma materialise_ok:
  assumes j: "code_ok {n, Suc n} {} (cb\<lparr>ntemps := Suc (ntemps cb), nlabels := Suc (Suc (Suc n))\<rparr>) cb5"
    and n: "n = nlabels cb"
  shows "code_ok {} {} cb (AddInstrs
             [CTacLabel n,
              CTacInstr opAssign (Ptr (TacAddr ret)) (Ptr (CTacConst 1)) NULL,
              Goto (Suc (Suc n)),
              CTacLabel (Suc n),
              CTacInstr opAssign (Ptr (TacAddr ret)) (Ptr (CTacConst 0)) NULL,
              CTacLabel (Suc (Suc n))] cb5)"
proof -
  let ?S = "{n, Suc n, Suc (Suc n)}"
  let ?cb4 = "cb\<lparr>ntemps := Suc (ntemps cb), nlabels := Suc (Suc (Suc n))\<rparr>"
  let ?cb' = "AddInstrs
             [CTacLabel n,
              CTacInstr opAssign (Ptr (TacAddr ret)) (Ptr (CTacConst 1)) NULL,
              Goto (Suc (Suc n)),
              CTacLabel (Suc n),
              CTacInstr opAssign (Ptr (TacAddr ret)) (Ptr (CTacConst 0)) NULL,
              CTacLabel (Suc (Suc n))] cb5"
  have 0: "code_ok ?S ?S cb ?cb4"
    using n by (simp add: code_ok_same_instrs)
  have 1: "code_ok ?S ?S ?cb4 cb5"
    using j by (rule code_ok_mono) auto
  have 2: "code_ok ?S ?S cb5 ?cb'"
    by (rule code_ok_AddInstrs) auto
  have all: "code_ok ?S ?S cb ?cb'"
    using 0 1 2 by (blast intro: code_ok_trans)
  from j have "Suc (Suc (Suc n)) \<le> nlabels cb5"
    by (auto dest: code_ok_nlabels)
  moreover from 2 have "nlabels cb5 \<le> nlabels ?cb'"
    by (rule code_ok_nlabels)
  ultimately have "?S \<subseteq> {nlabels cb..<nlabels ?cb'}"
    using n by auto
  with all show ?thesis
    by (auto intro: code_ok_weaken)
qed

lemma jump_tail_ok:
  assumes "code_ok {} {} cb cb1"
  shows "code_ok {lt, lf} {} cb
           (AddInstrs [CTacInstr oper (Ptr (TacLabel lt)) x y, Goto lf] cb1)"
proof -
  from assms have "code_ok {lt, lf} {} cb cb1"
    by (rule code_ok_mono) auto
  then show ?thesis
    by (rule code_ok_then_AddInstrs) auto
qed


lemma ToTac_code_ok:
  "ToTac g e cb = Some (a, cb', e') \<Longrightarrow> code_ok {} {} cb cb'"
  "ToTacJ g e lt lf cb = Some (cb', e') \<Longrightarrow> code_ok {lt, lf} {} cb cb'"
  "ToTac_params g args i cb = Some (cb', args') \<Longrightarrow> code_ok {} {} cb cb'"
proof (induction g e cb and g e lt lf cb and g args i cb
    arbitrary: a cb' e' and cb' e' and cb' args'
    rule: ToTac_ToTacJ_ToTac_params.induct)
  case (1 g t oper l r cb)
  let ?e = "CAstBinaryOp t oper l r"
  have "\<exists>ty. GetType ?e = Some ty" by simp
  then obtain ty where ty: "GetType ?e = Some ty" ..
  show ?case
  proof (cases "Match CBoolType ty")
    case True
    let ?n = "nlabels cb"
    let ?cb4 = "cb\<lparr>ntemps := Suc (ntemps cb), nlabels := Suc (Suc (Suc ?n))\<rparr>"
    from "1.prems" ty True obtain cb5 where
      j: "ToTacJ g ?e ?n (Suc ?n) ?cb4 = Some (cb5, e')" and
      r: "cb' = AddInstrs
             [CTacLabel ?n,
              CTacInstr opAssign (Ptr (TacAddr (CTacTemp (ntemps cb) (Ptr CBoolType))))
                (Ptr (CTacConst 1)) NULL,
              Goto (Suc (Suc ?n)),
              CTacLabel (Suc ?n),
              CTacInstr opAssign (Ptr (TacAddr (CTacTemp (ntemps cb) (Ptr CBoolType))))
                (Ptr (CTacConst 0)) NULL,
              CTacLabel (Suc (Suc ?n))] cb5"
      by (auto simp del: GetType.simps ToTacJ.simps simp add: CreateTemp_def CreateLabel_def
          split: Option.bind_splits)
    from "1.IH"(1) ty True j have "code_ok {?n, Suc ?n} {} ?cb4 cb5"
      by (simp del: GetType.simps ToTacJ.simps add: CreateTemp_def CreateLabel_def)
    then show ?thesis unfolding r by (rule materialise_ok) simp
  next
    case False
    from "1.prems" ty False obtain lhs cb1 l' rhs cb2 r' ty' where
      l: "ToTac g l cb = Some (lhs, cb1, l')" and r: "ToTac g r cb1 = Some (rhs, cb2, r')" and
      c: "cb' = AddInstr (CTacInstr oper (Ptr (TacAddr (CTacTemp (ntemps cb2) ty'))) lhs rhs)
                  (cb2\<lparr>ntemps := Suc (ntemps cb2)\<rparr>)"
      by (auto simp del: GetType.simps simp add: CreateTemp_def split: Option.bind_splits)
    from "1.IH"(2) ty False l have 1: "code_ok {} {} cb cb1"
      by (simp del: GetType.simps)
    from "1.IH"(3) ty False l r have 2: "code_ok {} {} cb1 cb2"
      by (simp del: GetType.simps)
    from 1 2 have "code_ok {} {} cb cb2" by (rule code_ok_trans)
    then have "code_ok {} {} cb (cb2\<lparr>ntemps := Suc (ntemps cb2)\<rparr>)"
      by (rule code_ok_then_temp)
    then show ?thesis unfolding c by (rule code_ok_then_AddInstr) simp_all
  qed
next
  case (2 g t oper e cb)
  let ?e = "CAstUnaryOp t oper e"
  have "\<exists>ty. GetType ?e = Some ty" by simp
  then obtain ty where ty: "GetType ?e = Some ty" ..
  consider (neg) "oper = opNeg" | (pos) "oper \<noteq> opNeg" "oper = opPos"
    | (other) "oper \<noteq> opNeg" "oper \<noteq> opPos"
    by blast
  then show ?case
  proof cases
    case neg
    from "2.prems" neg obtain operand cb1 e1 ty1 where
      o: "ToTac g e cb = Some (operand, cb1, e1)" and
      c: "cb' = AddInstr (CTacInstr oper (Ptr (TacAddr (CTacTemp (ntemps cb1) ty1))) operand NULL)
                  (cb1\<lparr>ntemps := Suc (ntemps cb1)\<rparr>)"
      by (auto simp del: GetType.simps simp add: CreateTemp_def split: Option.bind_splits)
    from "2.IH"(1) neg o have "code_ok {} {} cb cb1" by simp
    then have "code_ok {} {} cb (cb1\<lparr>ntemps := Suc (ntemps cb1)\<rparr>)"
      by (rule code_ok_then_temp)
    then show ?thesis unfolding c by (rule code_ok_then_AddInstr) simp_all
  next
    case pos
    with "2.prems" obtain e1 where "ToTac g e cb = Some (a, cb', e1)"
      by (auto split: Option.bind_splits)
    with "2.IH"(2) pos show ?thesis by simp
  next
    case other
    let ?n = "nlabels cb"
    let ?cb4 = "cb\<lparr>ntemps := Suc (ntemps cb), nlabels := Suc (Suc (Suc ?n))\<rparr>"
    from "2.prems" other obtain cb5 where
      j: "ToTacJ g ?e ?n (Suc ?n) ?cb4 = Some (cb5, e')" and
      r: "cb' = AddInstrs
             [CTacLabel ?n,
              CTacInstr opAssign (Ptr (TacAddr (CTacTemp (ntemps cb) (Ptr CBoolType))))
                (Ptr (CTacConst 1)) NULL,
              Goto (Suc (Suc ?n)),
              CTacLabel (Suc ?n),
              CTacInstr opAssign (Ptr (TacAddr (CTacTemp (ntemps cb) (Ptr CBoolType))))
                (Ptr (CTacConst 0)) NULL,
              CTacLabel (Suc (Suc ?n))] cb5"
      by (auto simp del: GetType.simps ToTacJ.simps simp add: CreateTemp_def CreateLabel_def
          split: Option.bind_splits)
    from "2.IH"(3) other j have "code_ok {?n, Suc ?n} {} ?cb4 cb5"
      by (simp del: GetType.simps ToTacJ.simps add: CreateTemp_def CreateLabel_def)
    then show ?thesis unfolding r by (rule materialise_ok) simp
  qed
next
  case (3 g t oper e cty cb)
  from "3.prems" obtain operand cb1 e1 ty where
    o: "ToTac g e cb = Some (operand, cb1, e1)" and
    c: "cb' = AddInstr (CTacInstr oper (Ptr (TacAddr (CTacTemp (ntemps cb1) ty))) operand NULL)
                (cb1\<lparr>ntemps := Suc (ntemps cb1)\<rparr>)"
    by (auto simp del: GetType.simps simp add: CreateTemp_def split: Option.bind_splits)
  from "3.IH" o have "code_ok {} {} cb cb1" by simp
  then have "code_ok {} {} cb (cb1\<lparr>ntemps := Suc (ntemps cb1)\<rparr>)"
    by (rule code_ok_then_temp)
  then show ?case unfolding c by (rule code_ok_then_AddInstr) simp_all
next
  case (4 g t symbol args cb)
  let ?call = "\<lambda>dst. CTacInstr opCall (dst_of dst) (Ptr (CTacName (ProcOf symbol))) NULL"
  have tgt: "\<And>dst. target_of (?call dst) = {}" "\<And>dst. label_of (?call dst) = {}"
    subgoal for dst by (cases dst) simp_all
    subgoal for dst by simp
    done
  show ?case
  proof (cases "Match CNullType (proc_type symbol)")
    case True
    from "4.prems" True obtain cb2 args1 where
      p: "ToTac_params g args 0 cb = Some (cb2, args1)" and c: "cb' = AddInstr (?call NULL) cb2"
      by (auto split: Option.bind_splits)
    from "4.IH" True p have "code_ok {} {} cb cb2" by simp
    then show ?thesis unfolding c by (rule code_ok_then_AddInstr) (simp_all add: tgt)
  next
    case False
    let ?cb1 = "cb\<lparr>ntemps := Suc (ntemps cb)\<rparr>"
    from "4.prems" False obtain cb2 args1 where
      p: "ToTac_params g args 0 ?cb1 = Some (cb2, args1)" and
      c: "cb' = AddInstr (?call (Ptr (CTacTemp (ntemps cb) (proc_type symbol)))) cb2"
      by (auto simp: CreateTemp_def split: Option.bind_splits)
    from "4.IH" False p have "code_ok {} {} ?cb1 cb2" by (simp add: CreateTemp_def)
    then have "code_ok {} {} cb cb2" by (rule code_ok_after_temp)
    then show ?thesis unfolding c by (rule code_ok_then_AddInstr) (simp_all add: tgt)
  qed
next
  case (5 g t symbol cb)
  then show ?case by simp
next
  case (6 g t symbol idx dn cb)
  from "6.prems" obtain idx' address result cb1 address' where
    m: "mkAddress g cb symbol idx = Some (idx', address)" and
    r: "ToTac g address cb = Some (result, cb1, address')"
    by (auto split: Option.bind_splits)
  from "6.IH" m r have ok: "code_ok {} {} cb cb1" by simp
  show ?case
  proof (cases "as_CTacName result")
    case NULL
    with "6.prems" m r have
      c: "cb' = AddInstr (CTacInstr opAssign (Ptr (TacAddr (CTacTemp (ntemps cb1) (Ptr CIntType))))
                  result NULL) (cb1\<lparr>ntemps := Suc (ntemps cb1)\<rparr>)"
      by (simp add: CreateTemp_def)
    from ok have "code_ok {} {} cb (cb1\<lparr>ntemps := Suc (ntemps cb1)\<rparr>)"
      by (rule code_ok_then_temp)
    then show ?thesis unfolding c by (rule code_ok_then_AddInstr) simp_all
  next
    case (Ptr resultName)
    with "6.prems" m r have "cb' = cb1" by simp
    with ok show ?thesis by simp
  qed
next
  case (7 g t ty v cb)
  then show ?case by simp
next
  case (8 g t ty s symbol cb)
  then show ?case by simp
next
  case (9 g t oper l r ltrue lfalse cb)
  let ?e = "CAstBinaryOp t oper l r"
  have "\<exists>ty. GetType ?e = Some ty" by simp
  then obtain ty where ty: "GetType ?e = Some ty" ..
  from "9.prems" ty have b: "\<not> \<not> Match CBoolType ty"
    by (auto simp del: GetType.simps split: if_splits)
  show ?case
  proof (cases "oper = opAnd \<or> oper = opOr")
    case True
    let ?mid = "nlabels cb"
    let ?cb1 = "cb\<lparr>nlabels := Suc ?mid\<rparr>"
    let ?left = "if oper = opAnd then ToTacJ g l ?mid lfalse ?cb1
                 else ToTacJ g l ltrue ?mid ?cb1"
    from "9.prems" ty b True obtain cb2 l' r' where
      l: "?left = Some (cb2, l')" and
      r: "ToTacJ g r ltrue lfalse (AddInstr (CTacLabel ?mid) cb2) = Some (cb', r')"
      by (auto simp del: GetType.simps simp add: CreateLabel_def split: Option.bind_splits)
    let ?S = "{?mid, ltrue, lfalse}"
    have 1: "code_ok ?S {?mid} ?cb1 cb2"
    proof (cases "oper = opAnd")
      case True
      with l have "ToTacJ g l ?mid lfalse ?cb1 = Some (cb2, l')" by simp
      with "9.IH"(1) ty b \<open>oper = opAnd \<or> oper = opOr\<close> True
      have "code_ok {?mid, lfalse} {} ?cb1 cb2"
        by (simp del: GetType.simps add: CreateLabel_def)
      then show ?thesis by (rule code_ok_mono) auto
    next
      case False
      with l have "ToTacJ g l ltrue ?mid ?cb1 = Some (cb2, l')" by simp
      with "9.IH"(2) ty b \<open>oper = opAnd \<or> oper = opOr\<close> False
      have "code_ok {ltrue, ?mid} {} ?cb1 cb2"
        by (simp del: GetType.simps add: CreateLabel_def)
      then show ?thesis by (rule code_ok_mono) auto
    qed
    from "9.IH"(3) ty b True l r
    have "code_ok {ltrue, lfalse} {} (AddInstr (CTacLabel ?mid) cb2) cb'"
      by (simp del: GetType.simps add: CreateLabel_def)
    then have 3: "code_ok ?S {?mid} (AddInstr (CTacLabel ?mid) cb2) cb'"
      by (rule code_ok_mono) auto
    have 0: "code_ok ?S {?mid} cb ?cb1" by (rule code_ok_label)
    have 2: "code_ok ?S {?mid} cb2 (AddInstr (CTacLabel ?mid) cb2)"
      by (rule code_ok_AddInstr) simp_all
    have all: "code_ok ?S {?mid} cb cb'"
      using 0 1 2 3 by (blast intro: code_ok_trans)
    from 1 have "Suc ?mid \<le> nlabels cb2" by (auto dest: code_ok_nlabels)
    moreover from code_ok_trans [OF 2 3] have "nlabels cb2 \<le> nlabels cb'"
      by (rule code_ok_nlabels)
    ultimately have "?mid \<in> {nlabels cb..<nlabels cb'}" by simp
    with all show ?thesis by (auto intro: code_ok_weaken)
  next
    case False
    from "9.prems" ty b False obtain lhs cb1 l' rhs cb2 r' where
      l: "ToTac g l cb = Some (lhs, cb1, l')" and r: "ToTac g r cb1 = Some (rhs, cb2, r')" and
      c: "cb' = AddInstrs [CTacInstr oper (Ptr (TacLabel ltrue)) lhs rhs, Goto lfalse] cb2"
      by (auto simp del: GetType.simps split: Option.bind_splits)
    from "9.IH"(4) ty b False l have 1: "code_ok {} {} cb cb1"
      by (simp del: GetType.simps)
    from "9.IH"(5) ty b False l r have 2: "code_ok {} {} cb1 cb2"
      by (simp del: GetType.simps)
    from 1 2 have "code_ok {} {} cb cb2" by (rule code_ok_trans)
    then show ?thesis unfolding c by (rule jump_tail_ok)
  qed
next
  case (10 g t oper e ltrue lfalse cb)
  let ?e = "CAstUnaryOp t oper e"
  have "\<exists>ty. GetType ?e = Some ty" by simp
  then obtain ty where ty: "GetType ?e = Some ty" ..
  from "10.prems" ty have b: "\<not> \<not> Match CBoolType ty"
    by (auto simp del: GetType.simps split: if_splits)
  from "10.prems" ty b obtain e1 where "ToTacJ g e lfalse ltrue cb = Some (cb', e1)"
    by (auto simp del: GetType.simps split: Option.bind_splits)
  with "10.IH" ty b have "code_ok {lfalse, ltrue} {} cb cb'"
    by (simp del: GetType.simps)
  then show ?case by (simp add: insert_commute)
next
  case (11 g t oper e cty ltrue lfalse cb)
  then show ?case by simp
next
  case (12 g t symbol args ltrue lfalse cb)
  from "12.prems" have b: "\<not> \<not> Match CBoolType (proc_type symbol)"
    by (auto simp del: ToTac.simps split: if_splits)
  from "12.prems" b obtain dst cb1 where
    v: "ToTac g (CAstFunctionCall t symbol args) cb = Some (dst, cb1, e')" and
    c: "cb' = AddInstrs [CTacInstr opEqual (Ptr (TacLabel ltrue)) dst (Ptr (CTacConst 1)),
                         Goto lfalse] cb1"
    by (auto simp del: ToTac.simps split: Option.bind_splits)
  from "12.IH" b v have "code_ok {} {} cb cb1" by (simp del: ToTac.simps)
  then show ?case unfolding c by (rule jump_tail_ok)
next
  case (13 g t symbol ltrue lfalse cb)
  from "13.prems" have
    c: "cb' = AddInstrs [CTacInstr opEqual (Ptr (TacLabel ltrue))
                           (Ptr (CTacName (SymbolOf symbol))) (Ptr (CTacConst 1)),
                         Goto lfalse] cb"
    by (auto split: if_splits)
  show ?case unfolding c by (rule jump_tail_ok) simp
next
  case (14 g t symbol idx dn ltrue lfalse cb)
  from "14.prems" obtain ret cb1 where
    v: "ToTac g (CAstArrayDesignator t symbol idx dn) cb = Some (ret, cb1, e')" and
    c: "cb' = AddInstrs [CTacInstr opEqual (Ptr (TacLabel ltrue)) ret (Ptr (CTacConst 1)),
                         Goto lfalse] cb1"
    by (auto simp del: ToTac.simps split: Option.bind_splits)
  from "14.IH" v have "code_ok {} {} cb cb1" by (simp del: ToTac.simps)
  then show ?case unfolding c by (rule jump_tail_ok)
next
  case (15 g t ty v ltrue lfalse cb)
  from "15.prems" have
    c: "cb' = AddInstrs [CTacInstr opEqual (Ptr (TacLabel ltrue))
                           (Ptr (CTacConst (ucast v))) (Ptr (CTacConst 1)),
                         Goto lfalse] cb"
    by (auto split: if_splits)
  show ?case unfolding c by (rule jump_tail_ok) simp
next
  case (16 g t ty s symbol ltrue lfalse cb)
  then show ?case by simp
next
  case (17 g i cb)
  then show ?case by simp
next
  case (18 g arg rest i cb)
  from "18.prems" obtain cb1 rest' a cb2 arg' where
    p: "ToTac_params g rest (Suc i) cb = Some (cb1, rest')" and
    v: "ToTac g arg cb1 = Some (a, cb2, arg')" and
    c: "cb' = AddInstr (CTacInstr opParam (Ptr (TacAddr (CTacConst (of_nat i)))) a NULL) cb2"
    by (auto split: Option.bind_splits)
  from "18.IH"(1) p have 1: "code_ok {} {} cb cb1" by simp
  from "18.IH"(2) p v have 2: "code_ok {} {} cb1 cb2" by simp
  from 1 2 have "code_ok {} {} cb cb2" by (rule code_ok_trans)
  then show ?case unfolding c by (rule code_ok_then_AddInstr) simp_all
qed


lemma target_of_dst_of [simp]: "target_of (CTacInstr oper (dst_of d) x y) = {}"
  by (cases d) simp_all

lemma absorb_fresh:
  assumes "code_ok (S \<union> T) S cb cb'" and "S \<subseteq> {nlabels cb..<nlabels cb'}"
  shows "code_ok T {} cb cb'"
  using assms by (auto intro: code_ok_weaken)


lemma Stat_ToTac_code_ok:
  "Stat_ToTac g s next end cb = Some cb' \<Longrightarrow> code_ok (insert next (ptr_set end)) {} cb cb'"
  "Stat_ToTac_seq g ss end cb = Some cb' \<Longrightarrow> code_ok (ptr_set end) {} cb cb'"
proof (induction g s "next" "end" cb and g ss "end" cb arbitrary: cb' and cb'
    rule: Stat_ToTac_Stat_ToTac_seq.induct)
  case (1 g t lhs rhs nxt en cb)
  from "1.prems" obtain dest cb1 lhs' src cb2 rhs' where
    l: "ToTac g lhs cb = Some (dest, cb1, lhs')" and
    r: "ToTac g rhs cb1 = Some (src, cb2, rhs')" and
    c: "cb' = AddInstrs [CTacInstr opAssign (dst_of dest) src NULL, Goto nxt] cb2"
    by (auto split: Option.bind_splits)
  from ToTac_code_ok(1) [OF l] ToTac_code_ok(1) [OF r]
  have "code_ok {} {} cb cb2" by (rule code_ok_trans)
  then have "code_ok (insert nxt (ptr_set en)) {} cb cb2"
    by (rule code_ok_mono) auto
  then show ?case unfolding c by (rule code_ok_then_AddInstrs) simp_all
next
  case (2 g t call nxt en cb)
  from "2.prems" obtain r cb1 call' where
    v: "ToTac g call cb = Some (r, cb1, call')" and c: "cb' = AddInstr (Goto nxt) cb1"
    by (auto split: Option.bind_splits)
  from ToTac_code_ok(1) [OF v] have "code_ok (insert nxt (ptr_set en)) {} cb cb1"
    by (rule code_ok_mono) auto
  then show ?case unfolding c by (rule code_ok_then_AddInstr) simp_all
next
  case (3 g t scope e nxt en cb)
  show ?case
  proof (cases e)
    case NULL
    with "3.prems" have
      c: "cb' = AddInstrs [CTacInstr opReturn NULL NULL NULL, Goto nxt] cb" by simp
    show ?thesis unfolding c by (rule code_ok_AddInstrs) simp_all
  next
    case (Ptr ex)
    with "3.prems" obtain src1 cb1 ex' where
      v: "ToTac g ex cb = Some (src1, cb1, ex')" and
      c: "cb' = AddInstrs [CTacInstr opReturn NULL src1 NULL, Goto nxt] cb1"
      by (auto split: Option.bind_splits)
    from ToTac_code_ok(1) [OF v] have "code_ok (insert nxt (ptr_set en)) {} cb cb1"
      by (rule code_ok_mono) auto
    then show ?thesis unfolding c by (rule code_ok_then_AddInstrs) simp_all
  qed
next
  case (4 g t cond ifBody elseBody nxt en cb)
  let ?n = "nlabels cb"
  let ?cb3 = "cb\<lparr>nlabels := Suc (Suc (Suc ?n))\<rparr>"
  from "4.prems" obtain cb4 cond' cb5 cb6 where
    j: "ToTacJ g cond ?n (Suc ?n) ?cb3 = Some (cb4, cond')" and
    i: "Stat_ToTac_seq g ifBody en (AddInstr (CTacLabel ?n) cb4) = Some cb5" and
    e: "Stat_ToTac_seq g elseBody en
          (AddInstrs [Goto (Suc (Suc ?n)), CTacLabel (Suc ?n)] cb5) = Some cb6" and
    c: "cb' = AddInstrs [CTacLabel (Suc (Suc ?n)), Goto nxt] cb6"
    by (auto simp: CreateLabel_def split: Option.bind_splits)
  let ?S = "{?n, Suc ?n, Suc (Suc ?n)}"
  let ?T = "?S \<union> insert nxt (ptr_set en)"
  have 0: "code_ok ?T ?S cb ?cb3" by (simp add: code_ok_same_instrs)
  from ToTac_code_ok(2) [OF j] have 1: "code_ok ?T ?S ?cb3 cb4"
    by (rule code_ok_mono) auto
  have 2: "code_ok ?T ?S cb4 (AddInstr (CTacLabel ?n) cb4)"
    by (rule code_ok_AddInstr) simp_all
  from "4.IH"(1) j i have "code_ok (ptr_set en) {} (AddInstr (CTacLabel ?n) cb4) cb5"
    by (simp add: CreateLabel_def)
  then have 3: "code_ok ?T ?S (AddInstr (CTacLabel ?n) cb4) cb5"
    by (rule code_ok_mono) auto
  have 4: "code_ok ?T ?S cb5 (AddInstrs [Goto (Suc (Suc ?n)), CTacLabel (Suc ?n)] cb5)"
    by (rule code_ok_AddInstrs) simp_all
  from "4.IH"(2) j i e
  have "code_ok (ptr_set en) {} (AddInstrs [Goto (Suc (Suc ?n)), CTacLabel (Suc ?n)] cb5) cb6"
    by (simp add: CreateLabel_def)
  then have 5: "code_ok ?T ?S (AddInstrs [Goto (Suc (Suc ?n)), CTacLabel (Suc ?n)] cb5) cb6"
    by (rule code_ok_mono) auto
  have 6: "code_ok ?T ?S cb6 cb'"
    unfolding c by (rule code_ok_AddInstrs) simp_all
  have rest: "code_ok ?T ?S ?cb3 cb'"
    using 1 2 3 4 5 6 by (blast intro: code_ok_trans)
  with 0 have all: "code_ok ?T ?S cb cb'" by (rule code_ok_trans)
  from rest have "Suc (Suc (Suc ?n)) \<le> nlabels cb'"
    by (auto dest: code_ok_nlabels)
  then have "?S \<subseteq> {nlabels cb..<nlabels cb'}" by auto
  with all show ?case by (rule absorb_fresh)
next
  case (5 g t cond body nxt en cb)
  let ?n = "nlabels cb"
  let ?cb3 = "cb\<lparr>nlabels := Suc (Suc (Suc ?n))\<rparr>"
  from "5.prems" obtain cb4 cond' cb5 where
    j: "ToTacJ g cond (Suc ?n) (Suc (Suc ?n)) (AddInstr (CTacLabel ?n) ?cb3) = Some (cb4, cond')" and
    b: "Stat_ToTac_seq g body (Ptr (Suc (Suc ?n))) (AddInstr (CTacLabel (Suc ?n)) cb4)
          = Some cb5" and
    c: "cb' = AddInstrs [Goto ?n, CTacLabel (Suc (Suc ?n)), Goto nxt] cb5"
    by (auto simp: CreateLabel_def split: Option.bind_splits)
  let ?S = "{?n, Suc ?n, Suc (Suc ?n)}"
  let ?T = "?S \<union> insert nxt (ptr_set en)"
  have 0: "code_ok ?T ?S cb ?cb3" by (simp add: code_ok_same_instrs)
  have 1: "code_ok ?T ?S ?cb3 (AddInstr (CTacLabel ?n) ?cb3)"
    by (rule code_ok_AddInstr) simp_all
  from ToTac_code_ok(2) [OF j] have 2: "code_ok ?T ?S (AddInstr (CTacLabel ?n) ?cb3) cb4"
    by (rule code_ok_mono) auto
  have 3: "code_ok ?T ?S cb4 (AddInstr (CTacLabel (Suc ?n)) cb4)"
    by (rule code_ok_AddInstr) simp_all
  from "5.IH" j b
  have "code_ok (ptr_set (Ptr (Suc (Suc ?n)))) {} (AddInstr (CTacLabel (Suc ?n)) cb4) cb5"
    by (simp add: CreateLabel_def)
  then have 4: "code_ok ?T ?S (AddInstr (CTacLabel (Suc ?n)) cb4) cb5"
    by (rule code_ok_mono) auto
  have 5: "code_ok ?T ?S cb5 cb'"
    unfolding c by (rule code_ok_AddInstrs) simp_all
  have rest: "code_ok ?T ?S ?cb3 cb'"
    using 1 2 3 4 5 by (blast intro: code_ok_trans)
  with 0 have all: "code_ok ?T ?S cb cb'" by (rule code_ok_trans)
  from rest have "Suc (Suc (Suc ?n)) \<le> nlabels cb'"
    by (auto dest: code_ok_nlabels)
  then have "?S \<subseteq> {nlabels cb..<nlabels cb'}" by auto
  with all show ?case by (rule absorb_fresh)
next
  case (6 g t nxt en cb)
  then obtain e where e: "en = Ptr e" and c: "cb' = AddInstr (Goto e) cb"
    by (cases en) auto
  show ?case unfolding c e by (rule code_ok_AddInstr) simp_all
next
  case (7 g en cb)
  then show ?case by simp
next
  case (8 g s rest en cb)
  let ?n = "nlabels cb"
  let ?cb1 = "cb\<lparr>nlabels := Suc ?n\<rparr>"
  from "8.prems" obtain cb2 where
    s: "Stat_ToTac g s ?n en ?cb1 = Some cb2" and
    r: "Stat_ToTac_seq g rest en (AddInstr (CTacLabel ?n) cb2) = Some cb'"
    by (auto simp: CreateLabel_def split: Option.bind_splits)
  let ?S = "{?n}"
  let ?T = "?S \<union> ptr_set en"
  have 0: "code_ok ?T ?S cb ?cb1" by (rule code_ok_label)
  from "8.IH"(1) s have "code_ok (insert ?n (ptr_set en)) {} ?cb1 cb2"
    by (simp add: CreateLabel_def)
  then have 1: "code_ok ?T ?S ?cb1 cb2" by (rule code_ok_mono) auto
  have 2: "code_ok ?T ?S cb2 (AddInstr (CTacLabel ?n) cb2)"
    by (rule code_ok_AddInstr) simp_all
  from "8.IH"(2) s r have "code_ok (ptr_set en) {} (AddInstr (CTacLabel ?n) cb2) cb'"
    by (simp add: CreateLabel_def)
  then have 3: "code_ok ?T ?S (AddInstr (CTacLabel ?n) cb2) cb'"
    by (rule code_ok_mono) auto
  have rest: "code_ok ?T ?S ?cb1 cb'"
    using 1 2 3 by (blast intro: code_ok_trans)
  with 0 have all: "code_ok ?T ?S cb cb'" by (rule code_ok_trans)
  from rest have "Suc ?n \<le> nlabels cb'" by (auto dest: code_ok_nlabels)
  then have "?S \<subseteq> {nlabels cb..<nlabels cb'}" by auto
  with all show ?case by (rule absorb_fresh)
qed


text \<open>
  C6. A while statement, lowered from a code block whose next fresh label is \<open>h\<close>, emits in
  this order: the label \<open>h\<close> (head); the code of the condition in jumping mode with the
  labels \<open>h + 1\<close> (body) and \<open>h + 2\<close> (loop end); the label \<open>h + 1\<close>; the code of the body,
  each statement lowered with a label of its own as \<open>next\<close> and with \<open>end\<close> the label
  \<open>h + 2\<close>; then \<open>Goto h\<close>, the label \<open>h + 2\<close> and \<open>Goto next\<close>. The lowering succeeds
  exactly when those of the condition and of the body do. A break statement with a loop end
  emits \<open>Goto\<close> to that loop end and nothing else; with no loop end it fails its
  assertion.
\<close>

theorem While_ToTac_order:
  "(Stat_ToTac g (CAstStatWhile t cond body) next end cb = Some cb' \<longrightarrow>
      (\<exists>cb4 cond' cb5.
         ToTacJ g cond (Suc (nlabels cb)) (Suc (Suc (nlabels cb)))
           (AddInstr (CTacLabel (nlabels cb)) (cb\<lparr>nlabels := nlabels cb + 3\<rparr>))
           = Some (cb4, cond') \<and>
         Stat_ToTac_seq g body (Ptr (Suc (Suc (nlabels cb))))
           (AddInstr (CTacLabel (Suc (nlabels cb))) cb4) = Some cb5 \<and>
         instrs cb' =
           instrs cb @ [CTacLabel (nlabels cb)]
           @ emitted (AddInstr (CTacLabel (nlabels cb)) (cb\<lparr>nlabels := nlabels cb + 3\<rparr>)) cb4
           @ [CTacLabel (Suc (nlabels cb))]
           @ emitted (AddInstr (CTacLabel (Suc (nlabels cb))) cb4) cb5
           @ [Goto (nlabels cb), CTacLabel (Suc (Suc (nlabels cb))), Goto next]))
   \<and> Stat_ToTac g (CAstStatWhile t cond body) next end cb =
       (case ToTacJ g cond (Suc (nlabels cb)) (Suc (Suc (nlabels cb)))
               (AddInstr (CTacLabel (nlabels cb)) (cb\<lparr>nlabels := nlabels cb + 3\<rparr>)) of
          None \<Rightarrow> None
        | Some (cb4, cond') \<Rightarrow>
            (case Stat_ToTac_seq g body (Ptr (Suc (Suc (nlabels cb))))
                    (AddInstr (CTacLabel (Suc (nlabels cb))) cb4) of
               None \<Rightarrow> None
             | Some cb5 \<Rightarrow>
                 Some (AddInstrs [Goto (nlabels cb), CTacLabel (Suc (Suc (nlabels cb))),
                                  Goto next] cb5)))
   \<and> Stat_ToTac_seq g (s # rest) en cb =
       (case Stat_ToTac g s (nlabels cb) en (cb\<lparr>nlabels := Suc (nlabels cb)\<rparr>) of
          None \<Rightarrow> None
        | Some cb2 \<Rightarrow> Stat_ToTac_seq g rest en (AddInstr (CTacLabel (nlabels cb)) cb2))
   \<and> Stat_ToTac g (CAstStatBreak tb) next (Ptr loopEnd) cb
       = Some (cb\<lparr>instrs := instrs cb @ [Goto loopEnd]\<rparr>)
   \<and> Stat_ToTac g (CAstStatBreak tb) next NULL cb = None
   \<and> Stat_ToTac_seq g (CAstStatBreak tb # rest) (Ptr loopEnd) cb =
       Stat_ToTac_seq g rest (Ptr loopEnd)
         (cb\<lparr>nlabels := Suc (nlabels cb),
             instrs := instrs cb @ [Goto loopEnd, CTacLabel (nlabels cb)]\<rparr>)"
proof (intro conjI impI)
  let ?h = "nlabels cb"
  let ?cb3 = "AddInstr (CTacLabel ?h) (cb\<lparr>nlabels := ?h + 3\<rparr>)"
  show eq: "Stat_ToTac g (CAstStatWhile t cond body) next end cb =
       (case ToTacJ g cond (Suc ?h) (Suc (Suc ?h)) ?cb3 of
          None \<Rightarrow> None
        | Some (cb4, cond') \<Rightarrow>
            (case Stat_ToTac_seq g body (Ptr (Suc (Suc ?h)))
                    (AddInstr (CTacLabel (Suc ?h)) cb4) of
               None \<Rightarrow> None
             | Some cb5 \<Rightarrow>
                 Some (AddInstrs [Goto ?h, CTacLabel (Suc (Suc ?h)), Goto next] cb5)))"
    by (simp add: CreateLabel_def numeral_3_eq_3 split: option.splits Option.bind_splits)
  show "Stat_ToTac_seq g (s # rest) en cb =
       (case Stat_ToTac g s ?h en (cb\<lparr>nlabels := Suc ?h\<rparr>) of
          None \<Rightarrow> None
        | Some cb2 \<Rightarrow> Stat_ToTac_seq g rest en (AddInstr (CTacLabel ?h) cb2))"
    by (simp add: CreateLabel_def split: option.splits Option.bind_splits)
  show "Stat_ToTac g (CAstStatBreak tb) next (Ptr loopEnd) cb
       = Some (cb\<lparr>instrs := instrs cb @ [Goto loopEnd]\<rparr>)"
    by (simp add: AddInstr_def)
  show "Stat_ToTac g (CAstStatBreak tb) next NULL cb = None"
    by simp
  show "Stat_ToTac_seq g (CAstStatBreak tb # rest) (Ptr loopEnd) cb =
       Stat_ToTac_seq g rest (Ptr loopEnd)
         (cb\<lparr>nlabels := Suc ?h, instrs := instrs cb @ [Goto loopEnd, CTacLabel ?h]\<rparr>)"
    by (simp add: CreateLabel_def AddInstr_def)
  assume w: "Stat_ToTac g (CAstStatWhile t cond body) next end cb = Some cb'"
  with eq obtain cb4 cond' cb5 where
    j: "ToTacJ g cond (Suc ?h) (Suc (Suc ?h)) ?cb3 = Some (cb4, cond')" and
    b: "Stat_ToTac_seq g body (Ptr (Suc (Suc ?h))) (AddInstr (CTacLabel (Suc ?h)) cb4)
          = Some cb5" and
    c: "cb' = AddInstrs [Goto ?h, CTacLabel (Suc (Suc ?h)), Goto next] cb5"
    by (auto split: option.splits)
  from ToTac_code_ok(2) [OF j] have "extends ?cb3 cb4" by (rule code_ok_extends)
  then have i4: "instrs cb4 = instrs ?cb3 @ emitted ?cb3 cb4" by (rule extends_emitted)
  from Stat_ToTac_code_ok(2) [OF b]
  have "extends (AddInstr (CTacLabel (Suc ?h)) cb4) cb5" by (rule code_ok_extends)
  then have i5: "instrs cb5 = instrs (AddInstr (CTacLabel (Suc ?h)) cb4)
      @ emitted (AddInstr (CTacLabel (Suc ?h)) cb4) cb5"
    by (rule extends_emitted)
  have "instrs cb' = instrs cb @ [CTacLabel ?h] @ emitted ?cb3 cb4 @ [CTacLabel (Suc ?h)]
           @ emitted (AddInstr (CTacLabel (Suc ?h)) cb4) cb5
           @ [Goto ?h, CTacLabel (Suc (Suc ?h)), Goto next]"
    unfolding c AddInstrs_eq using i4 i5 by (simp add: AddInstr_def)
  with j b show "\<exists>cb4 cond' cb5.
         ToTacJ g cond (Suc ?h) (Suc (Suc ?h)) ?cb3 = Some (cb4, cond') \<and>
         Stat_ToTac_seq g body (Ptr (Suc (Suc ?h))) (AddInstr (CTacLabel (Suc ?h)) cb4)
           = Some cb5 \<and>
         instrs cb' =
           instrs cb @ [CTacLabel ?h] @ emitted ?cb3 cb4 @ [CTacLabel (Suc ?h)]
           @ emitted (AddInstr (CTacLabel (Suc ?h)) cb4) cb5
           @ [Goto ?h, CTacLabel (Suc (Suc ?h)), Goto next]"
    by blast
qed


theorem While_ToTac_order_witness:
  "\<exists>cb'. Stat_ToTac (\<lambda>ty. 4)
      (CAstStatWhile (CToken ''while'')
         (CAstBinaryOp (CToken ''<'') opLessThan
            (CAstDesignator (CToken ''i'') (CSymbol ''i'' (Ptr CIntType)))
            (CAstDesignator (CToken ''n'') (CSymbol ''n'' (Ptr CIntType))))
         [CAstStatBreak (CToken ''break'')])
      77 NULL \<lparr>instrs = [], nlabels = 0, ntemps = 0, FindSymbol = (\<lambda>n. NULL)\<rparr> = Some cb' \<and>
    instrs cb' =
      [CTacLabel 0,
       CTacInstr opLessThan (Ptr (TacLabel 1))
         (Ptr (CTacName (SymbolOf (CSymbol ''i'' (Ptr CIntType)))))
         (Ptr (CTacName (SymbolOf (CSymbol ''n'' (Ptr CIntType))))),
       Goto 2,
       CTacLabel 1,
       Goto 2,
       CTacLabel 3,
       Goto 0,
       CTacLabel 2,
       Goto 77]"
proof -
  let ?cb = "\<lparr>instrs = [], nlabels = 0, ntemps = 0, FindSymbol = (\<lambda>n. NULL)\<rparr>"
  let ?cond = "CAstBinaryOp (CToken ''<'') opLessThan
            (CAstDesignator (CToken ''i'') (CSymbol ''i'' (Ptr CIntType)))
            (CAstDesignator (CToken ''n'') (CSymbol ''n'' (Ptr CIntType)))"
  let ?w = "CAstStatWhile (CToken ''while'') ?cond [CAstStatBreak (CToken ''break'')]"
  have "Stat_ToTac (\<lambda>ty. 4) ?w 77 NULL ?cb \<noteq> None"
    by (simp add: CreateLabel_def AddInstr_def AddInstrs_eq)
  then obtain cb' where w: "Stat_ToTac (\<lambda>ty. 4) ?w 77 NULL ?cb = Some cb'"
    by blast
  from While_ToTac_order [of "\<lambda>ty. 4" "CToken ''while''" ?cond
      "[CAstStatBreak (CToken ''break'')]" 77 NULL ?cb cb'] w
  obtain cb4 cond' cb5 where
    j: "ToTacJ (\<lambda>ty. 4) ?cond (Suc (nlabels ?cb)) (Suc (Suc (nlabels ?cb)))
           (AddInstr (CTacLabel (nlabels ?cb)) (?cb\<lparr>nlabels := nlabels ?cb + 3\<rparr>))
           = Some (cb4, cond')" and
    b: "Stat_ToTac_seq (\<lambda>ty. 4) [CAstStatBreak (CToken ''break'')]
           (Ptr (Suc (Suc (nlabels ?cb))))
           (AddInstr (CTacLabel (Suc (nlabels ?cb))) cb4) = Some cb5" and
    i: "instrs cb' =
           instrs ?cb @ [CTacLabel (nlabels ?cb)]
           @ emitted (AddInstr (CTacLabel (nlabels ?cb)) (?cb\<lparr>nlabels := nlabels ?cb + 3\<rparr>)) cb4
           @ [CTacLabel (Suc (nlabels ?cb))]
           @ emitted (AddInstr (CTacLabel (Suc (nlabels ?cb))) cb4) cb5
           @ [Goto (nlabels ?cb), CTacLabel (Suc (Suc (nlabels ?cb))), Goto 77]"
    by blast
  from j have cb4: "cb4 = \<lparr>instrs = [CTacLabel 0,
       CTacInstr opLessThan (Ptr (TacLabel 1))
         (Ptr (CTacName (SymbolOf (CSymbol ''i'' (Ptr CIntType)))))
         (Ptr (CTacName (SymbolOf (CSymbol ''n'' (Ptr CIntType))))),
       Goto 2], nlabels = 3, ntemps = 0, FindSymbol = (\<lambda>n. NULL)\<rparr>"
    by (auto simp: AddInstr_def AddInstrs_eq numeral_2_eq_2)
  from b have cb5: "cb5 = \<lparr>instrs = [CTacLabel 0,
       CTacInstr opLessThan (Ptr (TacLabel 1))
         (Ptr (CTacName (SymbolOf (CSymbol ''i'' (Ptr CIntType)))))
         (Ptr (CTacName (SymbolOf (CSymbol ''n'' (Ptr CIntType))))),
       Goto 2, CTacLabel 1, Goto 2, CTacLabel 3], nlabels = 4, ntemps = 0,
       FindSymbol = (\<lambda>n. NULL)\<rparr>"
    unfolding cb4 by (auto simp: AddInstr_def CreateLabel_def numeral_2_eq_2)
  from i have "instrs cb' =
      [CTacLabel 0,
       CTacInstr opLessThan (Ptr (TacLabel 1))
         (Ptr (CTacName (SymbolOf (CSymbol ''i'' (Ptr CIntType)))))
         (Ptr (CTacName (SymbolOf (CSymbol ''n'' (Ptr CIntType))))),
       Goto 2, CTacLabel 1, Goto 2, CTacLabel 3, Goto 0, CTacLabel 2, Goto 77]"
    unfolding cb4 cb5 by (simp add: emitted_def AddInstr_def numeral_2_eq_2)
  with w show ?thesis by blast
qed


lemma emitted_AddInstrs:
  "extends cb cb1 \<Longrightarrow> emitted cb (AddInstrs is cb1) = emitted cb cb1 @ is"
  by (auto simp: extends_iff emitted_def AddInstrs_eq)

lemma emitted_AddInstr:
  "extends cb cb1 \<Longrightarrow> emitted cb (AddInstr i cb1) = emitted cb cb1 @ [i]"
  by (auto simp: extends_iff emitted_def AddInstr_def)

lemma emitted_self [simp]: "emitted cb cb = []"
  by (simp add: emitted_def)

lemma ends_in_Goto_simps [simp]:
  "ends_in_Goto (xs @ [i, Goto l])"
  "ends_in_Goto [i, Goto l]"
  "ends_in_Goto (xs @ CTacLabel m # ys) = ends_in_Goto ys"
  "ends_in_Goto (CTacLabel m # ys) = ends_in_Goto ys"
  "\<not> ends_in_Goto []"
  by (auto simp: ends_in_Goto_def Goto_def)

lemma ToTac_extends:
  "ToTac g e cb = Some (a, cb', e') \<Longrightarrow> extends cb cb'"
  "ToTacJ g e lt lf cb = Some (cb', e') \<Longrightarrow> extends cb cb'"
  "ToTac_params g args i cb = Some (cb', args') \<Longrightarrow> extends cb cb'"
  by (blast dest: ToTac_code_ok code_ok_extends)+

lemma ToTacJ_ends_in_Goto:
  "ToTacJ g e lt lf cb = Some (cb', e') \<Longrightarrow> ends_in_Goto (emitted cb cb') = jumping e"
proof (induction e arbitrary: lt lf cb cb' e')
  case (CAstBinaryOp t oper l r)
  let ?mid = "nlabels cb"
  let ?cb1 = "cb\<lparr>nlabels := Suc ?mid\<rparr>"
  show ?case
  proof (cases "oper = opAnd \<or> oper = opOr")
    case True
    from CAstBinaryOp.prems True obtain cb2 l' r' where
      l: "(if oper = opAnd then ToTacJ g l ?mid lf ?cb1 else ToTacJ g l lt ?mid ?cb1)
            = Some (cb2, l')"
      and r: "ToTacJ g r lt lf (AddInstr (CTacLabel ?mid) cb2) = Some (cb', r')"
      by (auto simp: CreateLabel_def split: Option.bind_splits if_splits)
    from l have "\<exists>a b. ToTacJ g l a b ?cb1 = Some (cb2, l')" by (auto split: if_splits)
    then have "extends ?cb1 cb2" by (auto dest: ToTac_extends(2))
    then have e0: "extends cb cb2" by (auto simp: extends_iff)
    then have e1: "extends cb (AddInstr (CTacLabel ?mid) cb2)"
      by (auto simp: extends_iff AddInstr_def)
    from r have e2: "extends (AddInstr (CTacLabel ?mid) cb2) cb'" by (rule ToTac_extends(2))
    have "emitted cb cb' = emitted cb cb2 @ CTacLabel ?mid
            # emitted (AddInstr (CTacLabel ?mid) cb2) cb'"
      unfolding emitted_trans [OF e1 e2] emitted_AddInstr [OF e0] by simp
    with CAstBinaryOp.IH(2) [OF r] True show ?thesis by simp
  next
    case False
    from CAstBinaryOp.prems False obtain lhs cb1 l' rhs cb2 r' where
      l: "ToTac g l cb = Some (lhs, cb1, l')" and r: "ToTac g r cb1 = Some (rhs, cb2, r')"
      and c: "cb' = AddInstrs [CTacInstr oper (Ptr (TacLabel lt)) lhs rhs, Goto lf] cb2"
      by (auto split: Option.bind_splits if_splits)
    from l r have "extends cb cb2"
      by (blast dest: ToTac_extends(1) intro: extends_trans)
    with False show ?thesis unfolding c by (simp add: emitted_AddInstrs)
  qed
next
  case (CAstUnaryOp t oper e)
  from CAstUnaryOp.prems obtain e1 where "ToTacJ g e lf lt cb = Some (cb', e1)"
    by (auto split: Option.bind_splits if_splits)
  from CAstUnaryOp.IH [OF this] show ?case by simp
next
  case (CAstSpecialOp t oper e cty)
  from CAstSpecialOp.prems show ?case by auto
next
  case (CAstFunctionCall t symbol args)
  let ?e = "CAstFunctionCall t symbol args"
  from CAstFunctionCall.prems obtain dst cb1 where
    v: "ToTac g ?e cb = Some (dst, cb1, e')"
    and c: "cb' = AddInstrs
            [CTacInstr opEqual (Ptr (TacLabel lt)) dst (Ptr (CTacConst 1)), Goto lf] cb1"
    by (auto simp del: ToTac.simps split: Option.bind_splits if_splits)
  from v have "extends cb cb1" by (rule ToTac_extends(1))
  then show ?case unfolding c by (simp add: emitted_AddInstrs)
next
  case (CAstDesignator t symbol)
  then show ?case
    by (auto simp: emitted_AddInstrs split: if_splits)
next
  case (CAstArrayDesignator t symbol idx dn)
  let ?e = "CAstArrayDesignator t symbol idx dn"
  from CAstArrayDesignator.prems obtain ret cb1 where
    v: "ToTac g ?e cb = Some (ret, cb1, e')"
    and c: "cb' = AddInstrs
            [CTacInstr opEqual (Ptr (TacLabel lt)) ret (Ptr (CTacConst 1)), Goto lf] cb1"
    by (auto simp del: ToTac.simps split: Option.bind_splits if_splits)
  from v have "extends cb cb1" by (rule ToTac_extends(1))
  then show ?case unfolding c by (simp add: emitted_AddInstrs)
next
  case (CAstConstant t ty v)
  then show ?case
    by (auto simp: emitted_AddInstrs split: if_splits)
next
  case (CAstStringConstant t ty s symbol)
  then show ?case by auto
qed


text \<open>
  C5, as the code has it. In jumping mode with the labels \<open>ltrue\<close> and \<open>lfalse\<close>, a binary
  operation \<open>opAnd\<close> takes the next fresh label \<open>mid\<close>, lowers its left operand with the
  labels \<open>(mid, lfalse)\<close>, sets \<open>mid\<close>, and lowers its right operand with \<open>(ltrue, lfalse)\<close>;
  \<open>opOr\<close> does the same with \<open>(ltrue, mid)\<close> for the left operand. The code added is that of
  the left operand, the label \<open>mid\<close>, and that of the right operand. The left operand's
  code jumps only to its two labels and to labels it made itself, and the right operand's
  code sets only labels it made itself: when \<open>ltrue\<close> and \<open>lfalse\<close> were made before, no
  jump of the left operand leads into the right operand's code.

  The left operand's code ends in an unconditional jump exactly when the left operand is
  \<open>jumping\<close>. Then the right operand's code is reached through \<open>mid\<close> alone. Otherwise
  control runs from the left operand's code on to \<open>mid\<close> and into the right operand's
  code: when the left operand is a \<open>CAstSpecialOp\<close>, which has no jumping mode of its own,
  nothing is emitted for it, and the code of the operation is the label \<open>mid\<close> followed by
  the right operand's code, which then runs whatever the left operand's value.
\<close>

theorem And_Or_ToTacJ:
  "ToTacJ g (CAstBinaryOp t opAnd l r) ltrue lfalse cb =
     (case ToTacJ g l (nlabels cb) lfalse (cb\<lparr>nlabels := Suc (nlabels cb)\<rparr>) of
        None \<Rightarrow> None
      | Some (cb2, l') \<Rightarrow>
          (case ToTacJ g r ltrue lfalse (AddInstr (CTacLabel (nlabels cb)) cb2) of
             None \<Rightarrow> None
           | Some (cb3, r') \<Rightarrow> Some (cb3, CAstBinaryOp t opAnd l' r')))
   \<and> ToTacJ g (CAstBinaryOp t opOr l r) ltrue lfalse cb =
     (case ToTacJ g l ltrue (nlabels cb) (cb\<lparr>nlabels := Suc (nlabels cb)\<rparr>) of
        None \<Rightarrow> None
      | Some (cb2, l') \<Rightarrow>
          (case ToTacJ g r ltrue lfalse (AddInstr (CTacLabel (nlabels cb)) cb2) of
             None \<Rightarrow> None
           | Some (cb3, r') \<Rightarrow> Some (cb3, CAstBinaryOp t opOr l' r')))
   \<and> ((oper = opAnd \<or> oper = opOr) \<and>
       ToTacJ g (CAstBinaryOp t oper l r) ltrue lfalse cb = Some (cb', e') \<longrightarrow>
       (\<exists>cb2 l' r' L R.
          (if oper = opAnd
           then ToTacJ g l (nlabels cb) lfalse (cb\<lparr>nlabels := Suc (nlabels cb)\<rparr>)
           else ToTacJ g l ltrue (nlabels cb) (cb\<lparr>nlabels := Suc (nlabels cb)\<rparr>))
            = Some (cb2, l') \<and>
          ToTacJ g r ltrue lfalse (AddInstr (CTacLabel (nlabels cb)) cb2) = Some (cb', r') \<and>
          e' = CAstBinaryOp t oper l' r' \<and>
          L = emitted (cb\<lparr>nlabels := Suc (nlabels cb)\<rparr>) cb2 \<and>
          R = emitted (AddInstr (CTacLabel (nlabels cb)) cb2) cb' \<and>
          instrs cb' = instrs cb @ L @ [CTacLabel (nlabels cb)] @ R \<and>
          Suc (nlabels cb) \<le> nlabels cb2 \<and> nlabels cb2 \<le> nlabels cb' \<and>
          targets L \<subseteq> (if oper = opAnd then {nlabels cb, lfalse} else {ltrue, nlabels cb})
                        \<union> {Suc (nlabels cb)..<nlabels cb2} \<and>
          labels L \<subseteq> {Suc (nlabels cb)..<nlabels cb2} \<and>
          targets R \<subseteq> {ltrue, lfalse} \<union> {nlabels cb2..<nlabels cb'} \<and>
          labels R \<subseteq> {nlabels cb2..<nlabels cb'} \<and>
          ends_in_Goto L = jumping l \<and>
          ((\<exists>ts os e cty. l = CAstSpecialOp ts os e cty) \<longrightarrow>
             L = [] \<and> cb2 = cb\<lparr>nlabels := Suc (nlabels cb)\<rparr> \<and>
             instrs cb' = instrs cb @ CTacLabel (nlabels cb) # R) \<and>
          (ltrue < nlabels cb \<and> lfalse < nlabels cb \<longrightarrow>
             targets L \<inter> labels R = {} \<and> nlabels cb \<notin> labels L \<and> nlabels cb \<notin> labels R \<and>
             ltrue \<notin> labels R \<and> lfalse \<notin> labels R)))"
proof (intro conjI impI)
  let ?mid = "nlabels cb"
  let ?cb1 = "cb\<lparr>nlabels := Suc ?mid\<rparr>"
  show "ToTacJ g (CAstBinaryOp t opAnd l r) ltrue lfalse cb =
     (case ToTacJ g l ?mid lfalse ?cb1 of
        None \<Rightarrow> None
      | Some (cb2, l') \<Rightarrow>
          (case ToTacJ g r ltrue lfalse (AddInstr (CTacLabel ?mid) cb2) of
             None \<Rightarrow> None
           | Some (cb3, r') \<Rightarrow> Some (cb3, CAstBinaryOp t opAnd l' r')))"
    by (simp add: CreateLabel_def split: option.splits Option.bind_splits prod.splits)
  show "ToTacJ g (CAstBinaryOp t opOr l r) ltrue lfalse cb =
     (case ToTacJ g l ltrue ?mid ?cb1 of
        None \<Rightarrow> None
      | Some (cb2, l') \<Rightarrow>
          (case ToTacJ g r ltrue lfalse (AddInstr (CTacLabel ?mid) cb2) of
             None \<Rightarrow> None
           | Some (cb3, r') \<Rightarrow> Some (cb3, CAstBinaryOp t opOr l' r')))"
    by (simp add: CreateLabel_def split: option.splits Option.bind_splits prod.splits)
  assume a: "(oper = opAnd \<or> oper = opOr) \<and>
       ToTacJ g (CAstBinaryOp t oper l r) ltrue lfalse cb = Some (cb', e')"
  let ?left = "if oper = opAnd then ToTacJ g l ?mid lfalse ?cb1
               else ToTacJ g l ltrue ?mid ?cb1"
  let ?TL = "if oper = opAnd then {?mid, lfalse} else {ltrue, ?mid}"
  from a obtain cb2 l' r' where
    l: "?left = Some (cb2, l')" and
    r: "ToTacJ g r ltrue lfalse (AddInstr (CTacLabel ?mid) cb2) = Some (cb', r')" and
    e': "e' = CAstBinaryOp t oper l' r'"
    by (auto simp: CreateLabel_def split: Option.bind_splits if_splits)
  let ?cb2' = "AddInstr (CTacLabel ?mid) cb2"
  let ?L = "emitted ?cb1 cb2"
  let ?R = "emitted ?cb2' cb'"
  have okL: "code_ok ?TL {} ?cb1 cb2"
  proof (cases "oper = opAnd")
    case True
    with l have "ToTacJ g l ?mid lfalse ?cb1 = Some (cb2, l')" by simp
    from ToTac_code_ok(2) [OF this] True show ?thesis by simp
  next
    case False
    with l have "ToTacJ g l ltrue ?mid ?cb1 = Some (cb2, l')" by simp
    from ToTac_code_ok(2) [OF this] False show ?thesis by simp
  qed
  from ToTac_code_ok(2) [OF r] have okR: "code_ok {ltrue, lfalse} {} ?cb2' cb'" .
  from okL have n1: "Suc ?mid \<le> nlabels cb2" by (auto dest: code_ok_nlabels)
  from okR have n2: "nlabels cb2 \<le> nlabels cb'"
    by (auto dest: code_ok_nlabels simp: AddInstr_def)
  from okL have tL: "targets ?L \<subseteq> ?TL \<union> {Suc ?mid..<nlabels cb2}"
    and lL: "labels ?L \<subseteq> {Suc ?mid..<nlabels cb2}"
    by (simp_all add: code_ok_def)
  from okR have tR: "targets ?R \<subseteq> {ltrue, lfalse} \<union> {nlabels cb2..<nlabels cb'}"
    and lR: "labels ?R \<subseteq> {nlabels cb2..<nlabels cb'}"
    by (simp_all add: code_ok_def AddInstr_def)
  from okL have "instrs cb2 = instrs ?cb1 @ ?L"
    by (intro extends_emitted code_ok_extends)
  moreover from okR have "instrs cb' = instrs ?cb2' @ ?R"
    by (intro extends_emitted code_ok_extends)
  ultimately have i: "instrs cb' = instrs cb @ ?L @ [CTacLabel ?mid] @ ?R"
    by (simp add: AddInstr_def)
  from l have lx: "\<exists>a b. ToTacJ g l a b ?cb1 = Some (cb2, l')" by (auto split: if_splits)
  then have gL: "ends_in_Goto ?L = jumping l"
    by (blast dest: ToTacJ_ends_in_Goto)
  have sp: "(\<exists>ts os e cty. l = CAstSpecialOp ts os e cty) \<longrightarrow>
             ?L = [] \<and> cb2 = ?cb1 \<and> instrs cb' = instrs cb @ CTacLabel ?mid # ?R"
  proof
    assume "\<exists>ts os e cty. l = CAstSpecialOp ts os e cty"
    with lx have c: "cb2 = ?cb1" by auto
    with i show "?L = [] \<and> cb2 = ?cb1 \<and> instrs cb' = instrs cb @ CTacLabel ?mid # ?R"
      by simp
  qed
  have sep: "ltrue < ?mid \<and> lfalse < ?mid \<longrightarrow>
             targets ?L \<inter> labels ?R = {} \<and> ?mid \<notin> labels ?L \<and> ?mid \<notin> labels ?R \<and>
             ltrue \<notin> labels ?R \<and> lfalse \<notin> labels ?R"
  proof
    assume b: "ltrue < ?mid \<and> lfalse < ?mid"
    have "targets ?L \<inter> labels ?R = {}"
    proof (rule ccontr)
      assume "targets ?L \<inter> labels ?R \<noteq> {}"
      then obtain x where x: "x \<in> targets ?L" "x \<in> labels ?R" by blast
      from x(2) lR have "nlabels cb2 \<le> x" by auto
      moreover from x(1) tL have "x \<in> ?TL \<or> x < nlabels cb2" by auto
      ultimately have "x \<in> ?TL" by auto
      with b have "x \<le> ?mid" by (auto split: if_splits)
      with \<open>nlabels cb2 \<le> x\<close> n1 show False by simp
    qed
    moreover from lL have "?mid \<notin> labels ?L" by auto
    moreover from lR n1 have "?mid \<notin> labels ?R" by auto
    moreover from lR n1 b have "ltrue \<notin> labels ?R" "lfalse \<notin> labels ?R" by auto
    ultimately show "targets ?L \<inter> labels ?R = {} \<and> ?mid \<notin> labels ?L \<and> ?mid \<notin> labels ?R \<and>
             ltrue \<notin> labels ?R \<and> lfalse \<notin> labels ?R"
      by blast
  qed
  from l r e' i n1 n2 tL lL tR lR gL sp sep
  show "\<exists>cb2 l' r' L R.
          ?left = Some (cb2, l') \<and>
          ToTacJ g r ltrue lfalse (AddInstr (CTacLabel ?mid) cb2) = Some (cb', r') \<and>
          e' = CAstBinaryOp t oper l' r' \<and>
          L = emitted ?cb1 cb2 \<and>
          R = emitted (AddInstr (CTacLabel ?mid) cb2) cb' \<and>
          instrs cb' = instrs cb @ L @ [CTacLabel ?mid] @ R \<and>
          Suc ?mid \<le> nlabels cb2 \<and> nlabels cb2 \<le> nlabels cb' \<and>
          targets L \<subseteq> ?TL \<union> {Suc ?mid..<nlabels cb2} \<and>
          labels L \<subseteq> {Suc ?mid..<nlabels cb2} \<and>
          targets R \<subseteq> {ltrue, lfalse} \<union> {nlabels cb2..<nlabels cb'} \<and>
          labels R \<subseteq> {nlabels cb2..<nlabels cb'} \<and>
          ends_in_Goto L = jumping l \<and>
          ((\<exists>ts os e cty. l = CAstSpecialOp ts os e cty) \<longrightarrow>
             L = [] \<and> cb2 = ?cb1 \<and> instrs cb' = instrs cb @ CTacLabel ?mid # R) \<and>
          (ltrue < ?mid \<and> lfalse < ?mid \<longrightarrow>
             targets L \<inter> labels R = {} \<and> ?mid \<notin> labels L \<and> ?mid \<notin> labels R \<and>
             ltrue \<notin> labels R \<and> lfalse \<notin> labels R)"
    by blast
qed

theorem And_Or_ToTacJ_witness:
  "TypeCheck
      (CAstBinaryOp (CToken ''&&'') opAnd
         (CAstSpecialOp (CToken ''q'') opDeref
            (CAstDesignator (CToken ''q'') (CSymbol ''q'' (Ptr (CPointerType (Ptr CBoolType)))))
            NULL)
         (CAstFunctionCall (CToken ''g'') (CSymProc ''g'' (Ptr CBoolType) []) []))
      (NULL, NULL) = Some (True, NULL, NULL)
   \<and> (\<exists>cb' e'. ToTacJ (\<lambda>ty. 4)
      (CAstBinaryOp (CToken ''&&'') opAnd
         (CAstSpecialOp (CToken ''q'') opDeref
            (CAstDesignator (CToken ''q'') (CSymbol ''q'' (Ptr (CPointerType (Ptr CBoolType)))))
            NULL)
         (CAstFunctionCall (CToken ''g'') (CSymProc ''g'' (Ptr CBoolType) []) []))
      1 2 \<lparr>instrs = [], nlabels = 3, ntemps = 0, FindSymbol = (\<lambda>n. NULL)\<rparr> = Some (cb', e') \<and>
    instrs cb' =
      [CTacLabel 3,
       CTacInstr opCall (Ptr (TacAddr (CTacTemp 0 (Ptr CBoolType))))
         (Ptr (CTacName (ProcOf (CSymProc ''g'' (Ptr CBoolType) [])))) NULL,
       CTacInstr opEqual (Ptr (TacLabel 1)) (Ptr (CTacTemp 0 (Ptr CBoolType)))
         (Ptr (CTacConst 1)),
       Goto 2])"
proof -
  let ?cb = "\<lparr>instrs = [], nlabels = 3, ntemps = 0, FindSymbol = (\<lambda>n. NULL)\<rparr>"
  let ?l = "CAstSpecialOp (CToken ''q'') opDeref
            (CAstDesignator (CToken ''q'') (CSymbol ''q'' (Ptr (CPointerType (Ptr CBoolType)))))
            NULL"
  let ?r = "CAstFunctionCall (CToken ''g'') (CSymProc ''g'' (Ptr CBoolType) []) []"
  let ?e = "CAstBinaryOp (CToken ''&&'') opAnd ?l ?r"
  have tc: "TypeCheck ?e (NULL, NULL) = Some (True, NULL, NULL)"
    by (simp add: BinaryOp_switch_def MatchP_def GetNParams_def)
  have "ToTacJ (\<lambda>ty. 4) ?e 1 2 ?cb \<noteq> None"
    by (simp add: CreateLabel_def CreateTemp_def AddInstr_def AddInstrs_eq)
  then obtain cb' e' where w: "ToTacJ (\<lambda>ty. 4) ?e 1 2 ?cb = Some (cb', e')"
    by (cases "ToTacJ (\<lambda>ty. 4) ?e 1 2 ?cb") auto
  have "(opAnd = opAnd \<or> opAnd = opOr) \<and> ToTacJ (\<lambda>ty. 4) ?e 1 2 ?cb = Some (cb', e')"
    using w by (simp only: refl simp_thms)
  with And_Or_ToTacJ [of "\<lambda>ty. 4" "CToken ''&&''" ?l ?r 1 2 ?cb opAnd cb' e']
  obtain cb2 r' L R where
    r: "ToTacJ (\<lambda>ty. 4) ?r 1 2 (AddInstr (CTacLabel (nlabels ?cb)) cb2) = Some (cb', r')" and
    R: "R = emitted (AddInstr (CTacLabel (nlabels ?cb)) cb2) cb'" and
    s: "(\<exists>ts os e cty. ?l = CAstSpecialOp ts os e cty) \<longrightarrow>
          L = [] \<and> cb2 = ?cb\<lparr>nlabels := Suc (nlabels ?cb)\<rparr> \<and>
          instrs cb' = instrs ?cb @ CTacLabel (nlabels ?cb) # R"
    by blast
  from s have cb2: "cb2 = ?cb\<lparr>nlabels := Suc (nlabels ?cb)\<rparr>"
    and i: "instrs cb' = instrs ?cb @ CTacLabel (nlabels ?cb) # R"
    by blast+
  from r have cb': "cb' = \<lparr>instrs =
      [CTacLabel 3,
       CTacInstr opCall (Ptr (TacAddr (CTacTemp 0 (Ptr CBoolType))))
         (Ptr (CTacName (ProcOf (CSymProc ''g'' (Ptr CBoolType) [])))) NULL,
       CTacInstr opEqual (Ptr (TacLabel 1)) (Ptr (CTacTemp 0 (Ptr CBoolType)))
         (Ptr (CTacConst 1)),
       Goto 2], nlabels = 4, ntemps = 1, FindSymbol = (\<lambda>n. NULL)\<rparr>"
    unfolding cb2 by (auto simp: AddInstr_def AddInstrs_eq CreateTemp_def)
  from i have "instrs cb' =
      [CTacLabel 3,
       CTacInstr opCall (Ptr (TacAddr (CTacTemp 0 (Ptr CBoolType))))
         (Ptr (CTacName (ProcOf (CSymProc ''g'' (Ptr CBoolType) [])))) NULL,
       CTacInstr opEqual (Ptr (TacLabel 1)) (Ptr (CTacTemp 0 (Ptr CBoolType)))
         (Ptr (CTacConst 1)),
       Goto 2]"
    unfolding R cb2 cb' by (simp add: emitted_def AddInstr_def)
  with tc w show ?thesis by blast
qed


section \<open>Properties of the address of an array element\<close>






lemma mkAddress_no_DOFS:
  "as_CSymProc (FindSymbol cb ''DOFS'') = NULL \<Longrightarrow> mkAddress GetSize cb symbol idx = None"
  by (auto simp: mkAddress_def Let_def split: option.splits ptr.splits prod.splits)


lemma ucast_of_nat_64_32: "(ucast (of_nat n :: 64 word) :: 32 word) = of_nat n"
  by (rule bit_word_eqI) (auto simp add: bit_simps)


lemma den_DIM_call [simp]: "den rt (DIM_call dim p k) = DIM rt dim (den rt p) k"
  by (simp add: DIM_call_def DIM_def ucast_of_nat_64_32)

lemma den_DOFS_call [simp]: "den rt (DOFS_call dofs p) = DOFS rt dofs (den rt p)"
  by (simp add: DOFS_call_def DOFS_def)



















lemma arithmetic_arrayPointer [simp]: "arithmetic (arrayPointer symbol)"
  by (simp add: arrayPointer_def split: ptr.splits CType.splits)







end
